(* ===== verification/Spv_Prelude.thy ===== *)
theory Spv_Prelude
  imports Main "HOL-Library.Word" "HOL-Library.List_Lexorder"
begin

text \<open>
  Vocabulary shared by all components of the SPV node: machine types, results of
  fallible Rust code, the JSON interface the components are written against, the block
  header, and generic lemmas on adjacent list elements, chunks and takeWhile.

  A Rust function that may panic or return \<open>Err\<close> is modelled by a value of
  \<open>('e, 'a) res\<close>: \<open>Inr x\<close> is a normal return, \<open>Inl (Err e)\<close> an error value
  handed to the caller, \<open>Inl (Panic site)\<close> a panic at the named site. The \<open>?\<close>
  operator is \<open>bind_res\<close>, \<open>Result::map_err\<close> is \<open>map_err\<close> (which lets panics
  through), \<open>assert!\<close> is \<open>assert_res\<close>, \<open>Option::unwrap\<close> is \<open>unwrap_res\<close>.
\<close>

named_theorems res_simps "rewrite rules for results: bind, map_err, assert, unwrap"

type_synonym u8 = "8 word"
type_synonym u32 = "32 word"
type_synonym u64 = "64 word"
type_synonym bytes = "u8 list"
type_synonym block_hash = bytes

subsection \<open>Results\<close>

datatype 'e fault = Panic string | Err 'e

type_synonym ('e, 'a) res = "'e fault + 'a"

fun bind_res :: "('e, 'a) res \<Rightarrow> ('a \<Rightarrow> ('e, 'b) res) \<Rightarrow> ('e, 'b) res" where
  "bind_res (Inl f) k = Inl f"
| "bind_res (Inr x) k = k x"

fun map_err :: "('e \<Rightarrow> 'f) \<Rightarrow> ('e, 'a) res \<Rightarrow> ('f, 'a) res" where
  "map_err g (Inr x) = Inr x"
| "map_err g (Inl (Err e)) = Inl (Err (g e))"
| "map_err g (Inl (Panic s)) = Inl (Panic s)"

definition assert_res :: "string \<Rightarrow> bool \<Rightarrow> ('e, unit) res" where
  "assert_res site b = (if b then Inr () else Inl (Panic site))"

definition unwrap_res :: "string \<Rightarrow> 'a option \<Rightarrow> ('e, 'a) res" where
  "unwrap_res site x = (case x of None \<Rightarrow> Inl (Panic site) | Some y \<Rightarrow> Inr y)"

definition ok_or :: "'e \<Rightarrow> 'a option \<Rightarrow> ('e, 'a) res" where
  "ok_or e x = (case x of None \<Rightarrow> Inl (Err e) | Some y \<Rightarrow> Inr y)"

fun is_panic :: "('e, 'a) res \<Rightarrow> bool" where
  "is_panic (Inl (Panic s)) = True"
| "is_panic _ = False"

lemma bind_res_Inr_iff [res_simps]:
  "bind_res m k = Inr y \<longleftrightarrow> (\<exists>x. m = Inr x \<and> k x = Inr y)"
  by (cases m) auto

lemma bind_res_Inl_iff [res_simps]:
  "bind_res m k = Inl f \<longleftrightarrow> m = Inl f \<or> (\<exists>x. m = Inr x \<and> k x = Inl f)"
  by (cases m) auto

lemma map_err_Inr_iff [res_simps]: "map_err g m = Inr y \<longleftrightarrow> m = Inr y"
  by (cases "(g, m)" rule: map_err.cases) auto

lemma map_err_Panic_iff [res_simps]:
  "map_err g m = Inl (Panic s) \<longleftrightarrow> m = Inl (Panic s)"
  by (cases "(g, m)" rule: map_err.cases) auto

lemma assert_res_Inr_iff [res_simps]: "assert_res s b = Inr u \<longleftrightarrow> b"
  by (simp add: assert_res_def)

lemma assert_res_simps [simp]:
  "assert_res s True = Inr ()" "assert_res s False = Inl (Panic s)"
  by (simp_all add: assert_res_def)

lemma unwrap_res_Inr_iff [res_simps]: "unwrap_res s x = Inr y \<longleftrightarrow> x = Some y"
  by (simp add: unwrap_res_def split: option.splits)

lemma unwrap_res_simps [simp]:
  "unwrap_res s None = Inl (Panic s)" "unwrap_res s (Some y) = Inr y"
  by (simp_all add: unwrap_res_def)

lemma ok_or_Inr_iff [res_simps]: "ok_or e x = Inr y \<longleftrightarrow> x = Some y"
  by (simp add: ok_or_def split: option.splits)

lemma ok_or_simps [simp]: "ok_or e None = Inl (Err e)" "ok_or e (Some y) = Inr y"
  by (simp_all add: ok_or_def)

subsection \<open>Stateful calls\<close>

text \<open>
  A fallible call that also changes a state \<open>'s\<close> (a connection, a store) is a function from
  the state to its result and the state after it; \<open>bind_act\<close> runs the next call only after
  a normal return, as \<open>?\<close> does.
\<close>

type_synonym ('s, 'e, 'a) act = "'s \<Rightarrow> ('e, 'a) res \<times> 's"

definition ret_act :: "('e, 'a) res \<Rightarrow> ('s, 'e, 'a) act" where
  "ret_act r s = (r, s)"

definition bind_act :: "('s, 'e, 'a) act \<Rightarrow> ('a \<Rightarrow> ('s, 'e, 'b) act) \<Rightarrow> ('s, 'e, 'b) act" where
  "bind_act m k s = (case m s of (Inl f, s') \<Rightarrow> (Inl f, s') | (Inr x, s') \<Rightarrow> k x s')"

definition map_err_act :: "('e \<Rightarrow> 'f) \<Rightarrow> ('s, 'e, 'a) act \<Rightarrow> ('s, 'f, 'a) act" where
  "map_err_act g m s = (case m s of (r, s') \<Rightarrow> (map_err g r, s'))"

lemma ret_act_eq [simp]: "ret_act r s = (r, s)"
  by (simp add: ret_act_def)

lemma bind_act_Inr [res_simps]:
  "bind_act m k s = (Inr y, t) \<longleftrightarrow> (\<exists>x s'. m s = (Inr x, s') \<and> k x s' = (Inr y, t))"
  by (auto simp: bind_act_def split: prod.splits sum.splits)

lemma bind_act_run:
  "m s = (Inr x, s') \<Longrightarrow> bind_act m k s = k x s'"
  "m s = (Inl f, s') \<Longrightarrow> bind_act m k s = (Inl f, s')"
  by (simp_all add: bind_act_def)

lemma map_err_act_Inr [res_simps]: "map_err_act g m s = (Inr y, t) \<longleftrightarrow> m s = (Inr y, t)"
  by (auto simp: map_err_act_def res_simps split: prod.splits)

subsection \<open>JSON values\<close>

text \<open>
  The JSON library is code outside the repository. The components use the values it
  hands out only through the operations below, so a component takes the library as an
  argument \<open>J\<close> over an arbitrary type \<open>'v\<close> of values, and its properties hold for
  every such library. \<open>jget\<close> is \<open>Value::get\<close> (None on a value that is no object),
  \<open>jeq_u64\<close> the comparison of a value with an integer; the next six fields build the
  values that the \<open>json!\<close> macro builds, and \<open>jset\<close> is an indexed assignment (None where
  the library panics).
\<close>

record 'v json_api =
  jis_object :: "'v \<Rightarrow> bool"
  jget :: "'v \<Rightarrow> string \<Rightarrow> 'v option"
  jis_null :: "'v \<Rightarrow> bool"
  jas_i64 :: "'v \<Rightarrow> int option"
  jas_u64 :: "'v \<Rightarrow> u64 option"
  jas_str :: "'v \<Rightarrow> string option"
  jas_bool :: "'v \<Rightarrow> bool option"
  jas_array :: "'v \<Rightarrow> 'v list option"
  jeq_u64 :: "'v \<Rightarrow> u64 \<Rightarrow> bool"
  jnull :: 'v
  jstr :: "string \<Rightarrow> 'v"
  ju64 :: "u64 \<Rightarrow> 'v"
  jbool :: "bool \<Rightarrow> 'v"
  jarr :: "'v list \<Rightarrow> 'v"
  jobj :: "(string \<times> 'v) list \<Rightarrow> 'v"
  jset :: "'v \<Rightarrow> string \<Rightarrow> 'v \<Rightarrow> 'v option"

subsection \<open>Block headers\<close>

text \<open>
  The header of a block with its six fields; hashes are their 32 bytes. The hash of a
  header (double SHA-256 of its serialisation) is a function argument \<open>bh\<close> wherever
  the code calls \<open>block_hash()\<close>; \<open>BlockHash::all_zeros()\<close> is \<open>null_hash\<close>.
\<close>

record block_header =
  version :: u32
  prev_blockhash :: block_hash
  merkle_root :: block_hash
  time :: u32
  bits :: u32
  nonce :: u32

definition null_hash :: block_hash where
  "null_hash = replicate 32 0"

lemma null_hash_Cons: "null_hash = 0 # replicate 31 0"
  by (simp add: null_hash_def numeral_eq_Suc flip: replicate_Suc)

text \<open>
  No two headers of the set \<open>U\<close> share a hash and none hashes to zero: what the node
  relies on of the hash function, stated for the headers it has met.
\<close>

definition hash_ok :: "(block_header \<Rightarrow> block_hash) \<Rightarrow> block_header set \<Rightarrow> bool" where
  "hash_ok bh U \<longleftrightarrow> inj_on bh U \<and> null_hash \<notin> bh ` U"

lemma hash_okD:
  "hash_ok bh U \<Longrightarrow> x \<in> U \<Longrightarrow> y \<in> U \<Longrightarrow> bh x = bh y \<Longrightarrow> x = y"
  "hash_ok bh U \<Longrightarrow> x \<in> U \<Longrightarrow> bh x \<noteq> null_hash"
  by (auto simp: hash_ok_def inj_on_def image_iff)

subsection \<open>Adjacent elements\<close>

text \<open>
  The source checks neighbouring elements in loops \<open>for i in 1..len\<close>; \<open>adjacent\<close> is
  such a loop, and \<open>adjacent_Cons\<close> its recursive reading.
\<close>

definition adjacent :: "('a \<Rightarrow> 'a \<Rightarrow> bool) \<Rightarrow> 'a list \<Rightarrow> bool" where
  "adjacent P xs = list_all (\<lambda>i. P (xs ! (i - 1)) (xs ! i)) [1..<length xs]"

lemma adjacent_iff: "adjacent P xs \<longleftrightarrow> (\<forall>i. Suc i < length xs \<longrightarrow> P (xs ! i) (xs ! Suc i))"
proof
  assume "adjacent P xs"
  then have a: "\<forall>i \<in> {1..<length xs}. P (xs ! (i - 1)) (xs ! i)"
    by (simp add: adjacent_def list_all_iff)
  show "\<forall>i. Suc i < length xs \<longrightarrow> P (xs ! i) (xs ! Suc i)"
  proof (intro allI impI)
    fix i assume "Suc i < length xs"
    with a[rule_format, of "Suc i"] show "P (xs ! i) (xs ! Suc i)" by simp
  qed
next
  assume b: "\<forall>i. Suc i < length xs \<longrightarrow> P (xs ! i) (xs ! Suc i)"
  have "P (xs ! (i - 1)) (xs ! i)" if "i \<in> {1..<length xs}" for i
    using that b[rule_format, of "i - 1"] by simp
  then show "adjacent P xs"
    by (simp add: adjacent_def list_all_iff)
qed

lemma adjacent_Nil [simp]: "adjacent P []"
  and adjacent_single [simp]: "adjacent P [x]"
  by (simp_all add: adjacent_iff)

lemma adjacent_Cons:
  "adjacent P (x # xs) \<longleftrightarrow> (xs = [] \<or> P x (hd xs)) \<and> adjacent P xs"
proof (cases xs)
  case (Cons y ys)
  have "(\<forall>i. Suc i < Suc (length xs) \<longrightarrow> P ((x # xs) ! i) ((x # xs) ! Suc i)) \<longleftrightarrow>
      P x y \<and> (\<forall>i. Suc i < length xs \<longrightarrow> P (xs ! i) (xs ! Suc i))"
    unfolding Cons by (auto simp: less_Suc_eq_0_disj nth_Cons')
  with Cons show ?thesis by (simp add: adjacent_iff)
qed simp

lemma adjacent_append:
  "adjacent P (xs @ ys) \<longleftrightarrow>
     adjacent P xs \<and> adjacent P ys \<and> (xs = [] \<or> ys = [] \<or> P (last xs) (hd ys))"
  by (induction xs) (auto simp: adjacent_Cons hd_append)

lemma adjacent_map: "adjacent P (map f xs) \<longleftrightarrow> adjacent (\<lambda>a b. P (f a) (f b)) xs"
  by (auto simp: adjacent_iff)

lemma adjacent_mono:
  "adjacent P xs \<Longrightarrow> (\<And>a b. a \<in> set xs \<Longrightarrow> b \<in> set xs \<Longrightarrow> P a b \<Longrightarrow> Q a b) \<Longrightarrow> adjacent Q xs"
  by (auto simp: adjacent_iff)

lemma case_list_hd: "(case xs of [] \<Rightarrow> a | x # _ \<Rightarrow> f x) = (if xs = [] then a else f (hd xs))"
  by (cases xs) auto

subsection \<open>Strings\<close>

text \<open>\<open>str::contains\<close>: the pattern starts at some position.\<close>

fun str_contains :: "string \<Rightarrow> string \<Rightarrow> bool" where
  "str_contains [] pat = (pat = [])"
| "str_contains (c # s) pat = (take (length pat) (c # s) = pat \<or> str_contains s pat)"

lemma str_contains_iff: "str_contains s pat \<longleftrightarrow> (\<exists>a b. s = a @ pat @ b)"
proof (induction s)
  case (Cons c s)
  have "take (length pat) (c # s) = pat \<longleftrightarrow> (\<exists>b. c # s = pat @ b)"
    by (metis append_eq_conv_conj append_take_drop_id)
  then show ?case
    by (auto simp: Cons.IH Cons_eq_append_conv)
qed simp

subsection \<open>Chunks\<close>

text \<open>\<open>slice::chunks(n)\<close> and itertools' \<open>chunks\<close>, for the positive constants \<open>n\<close> in use.\<close>

function chunks :: "nat \<Rightarrow> 'a list \<Rightarrow> 'a list list" where
  "chunks n xs = (if xs = [] \<or> n = 0 then [] else take n xs # chunks n (drop n xs))"
  by pat_completeness auto
termination
  by (relation "measure (\<lambda>(n, xs). length xs)") auto

declare chunks.simps [simp del]

lemma chunks_Nil [simp]: "chunks n [] = []"
  by (subst chunks.simps) simp

lemma chunks_short: "xs \<noteq> [] \<Longrightarrow> length xs \<le> n \<Longrightarrow> chunks n xs = [xs]"
  by (cases xs; subst chunks.simps) auto

lemma concat_chunks: "0 < n \<Longrightarrow> concat (chunks n xs) = xs"
proof (induction n xs rule: chunks.induct)
  case (1 n xs)
  then show ?case by (subst chunks.simps) simp
qed

lemma take_chunks: "0 < n \<Longrightarrow> take j (chunks n xs) = chunks n (take (n * j) xs)"
proof (induction j arbitrary: xs)
  case (Suc j)
  show ?case
  proof (cases "xs = []")
    case False
    with Suc.prems have c: "chunks n xs = take n xs # chunks n (drop n xs)"
      "chunks n (take (n * Suc j) xs) =
         take n (take (n * Suc j) xs) # chunks n (drop n (take (n * Suc j) xs))"
      by (subst chunks.simps, simp)+
    show ?thesis
      unfolding c using Suc by (simp add: drop_take)
  qed simp
qed simp

lemma length_chunks: "0 < n \<Longrightarrow> length (chunks n xs) = (length xs + n - 1) div n"
proof (induction n xs rule: chunks.induct)
  case (1 n xs)
  show ?case
  proof (cases "xs = []")
    case False
    with 1 have l: "length (chunks n xs) = Suc ((length xs - n + n - 1) div n)"
      by (subst chunks.simps) simp
    show ?thesis
    proof (cases "n \<le> length xs")
      case True
      then obtain m where "length xs = n + m" using le_Suc_ex by blast
      moreover have "(n + m + n - 1) div n = Suc ((m + n - 1) div n)"
        using 1(2) div_add_self1[of n "m + n - 1"] by (simp add: algebra_simps)
      ultimately show ?thesis using l by simp
    next
      case less: False
      with False have "n \<le> length xs + n - 1" "length xs + n - 1 < 2 * n" by (cases xs; simp)+
      then have "(length xs + n - 1) div n = 1" by (simp add: div_nat_eqI)
      with l less 1(2) show ?thesis by simp
    qed
  qed (use 1(2) in simp)
qed

end
