(* ===== verification/Btree_Map.thy ===== *)
theory Btree_Map
  imports Spv_Prelude
begin

text \<open>
  \<open>std::collections::BTreeMap\<close>: an ordered map, as the list of its entries in
  ascending key order (the order its iterators follow). \<open>bt_insert\<close> replaces the value
  of a key that is present; \<open>bt_get\<close> is \<open>map_of\<close>. The contract the rest of the
  development uses is the locale \<open>finite_map_spec\<close>, interpreted at the end.
\<close>

type_synonym ('k, 'v) btree = "('k \<times> 'v) list"

fun bt_insert :: "'k::linorder \<Rightarrow> 'v \<Rightarrow> ('k, 'v) btree \<Rightarrow> ('k, 'v) btree" where
  "bt_insert k v [] = [(k, v)]"
| "bt_insert k v ((k', v') # m) =
     (if k < k' then (k, v) # (k', v') # m
      else if k = k' then (k, v) # m
      else (k', v') # bt_insert k v m)"

fun bt_remove :: "'k \<Rightarrow> ('k, 'v) btree \<Rightarrow> ('k, 'v) btree" where
  "bt_remove k [] = []"
| "bt_remove k ((k', v') # m) = (if k = k' then m else (k', v') # bt_remove k m)"

abbreviation bt_get :: "('k, 'v) btree \<Rightarrow> 'k \<Rightarrow> 'v option" where
  "bt_get \<equiv> map_of"

definition bt_ok :: "('k::linorder, 'v) btree \<Rightarrow> bool" where
  "bt_ok m \<longleftrightarrow> sorted (map fst m) \<and> distinct (map fst m)"

lemma bt_ok_Nil [simp]: "bt_ok []"
  by (simp add: bt_ok_def)

lemma bt_ok_Cons: "bt_ok ((k, v) # m) \<longleftrightarrow> (\<forall>k' \<in> fst ` set m. k < k') \<and> bt_ok m"
  by (force simp: bt_ok_def order.strict_iff_order)

lemma fst_set_bt_insert: "fst ` set (bt_insert k v m) = insert k (fst ` set m)"
  by (induction k v m rule: bt_insert.induct) auto

lemma set_bt_remove_subset: "set (bt_remove k m) \<subseteq> set m"
  by (induction k m rule: bt_remove.induct) auto

lemma bt_ok_insert: "bt_ok m \<Longrightarrow> bt_ok (bt_insert k v m)"
  by (induction k v m rule: bt_insert.induct) (auto simp: bt_ok_Cons fst_set_bt_insert)

lemma bt_ok_remove: "bt_ok m \<Longrightarrow> bt_ok (bt_remove k m)"
proof (induction k m rule: bt_remove.induct)
  case (2 k k' v' m)
  then show ?case using set_bt_remove_subset[of k m] by (auto simp: bt_ok_Cons)
qed simp

lemma bt_get_insert: "bt_get (bt_insert k v m) = (bt_get m)(k := Some v)"
  by (induction k v m rule: bt_insert.induct) (auto simp: fun_eq_iff)

lemma bt_ok_notin: "bt_ok ((k, v) # m) \<Longrightarrow> bt_get m k = None"
  by (auto simp: bt_ok_Cons map_of_eq_None_iff)

lemma bt_ok_tl: "bt_ok (e # m) \<Longrightarrow> bt_ok m"
  by (cases e) (simp add: bt_ok_Cons)

lemma bt_get_remove: "bt_ok m \<Longrightarrow> bt_get (bt_remove k m) = (bt_get m)(k := None)"
proof (induction k m rule: bt_remove.induct)
  case (2 k k' v' m)
  then show ?case using bt_ok_notin[of k' v' m] by (auto simp: fun_eq_iff bt_ok_Cons)
qed (simp add: fun_eq_iff)

lemma length_bt_insert:
  "bt_ok m \<Longrightarrow> length (bt_insert k v m) = (if bt_get m k = None then Suc (length m) else length m)"
proof (induction k v m rule: bt_insert.induct)
  case (2 k v k' v' m)
  show ?case
  proof (cases "k < k'")
    case True
    with "2.prems" have "bt_get m k = None"
      by (auto simp: map_of_eq_None_iff bt_ok_Cons)
    with True show ?thesis by auto
  next
    case False
    with 2 show ?thesis by (auto simp: bt_ok_Cons)
  qed
qed simp

lemma length_bt_remove:
  "length (bt_remove k m) = (if bt_get m k = None then length m else length m - 1)"
proof (induction k m rule: bt_remove.induct)
  case (2 k k' v' m)
  have "bt_get m k \<noteq> None \<Longrightarrow> 0 < length m" by (cases m) auto
  with 2 show ?case by auto
qed simp

lemma bt_get_hd_smallest:
  "bt_ok ((k0, v0) # m) \<Longrightarrow> bt_get ((k0, v0) # m) k = Some v \<Longrightarrow> k0 \<le> k"
  using map_of_SomeD[of m k v] by (force simp: bt_ok_Cons split: if_splits)

text \<open>What a map promises its clients, whatever its representation.\<close>

locale finite_map_spec =
  fixes mempty :: 'm
    and mget :: "'m \<Rightarrow> 'k \<Rightarrow> 'v option"
    and minsert :: "'k \<Rightarrow> 'v \<Rightarrow> 'm \<Rightarrow> 'm"
    and mremove :: "'k \<Rightarrow> 'm \<Rightarrow> 'm"
    and mlen :: "'m \<Rightarrow> nat"
    and minv :: "'m \<Rightarrow> bool"
  assumes mget_empty: "mget mempty k = None"
    and mget_insert: "minv m \<Longrightarrow> mget (minsert k v m) = (mget m)(k := Some v)"
    and mget_remove: "minv m \<Longrightarrow> mget (mremove k m) = (mget m)(k := None)"
    and mlen_insert: "minv m \<Longrightarrow>
      mlen (minsert k v m) = (if mget m k = None then Suc (mlen m) else mlen m)"
    and mlen_remove: "minv m \<Longrightarrow>
      mlen (mremove k m) = (if mget m k = None then mlen m else mlen m - 1)"
    and mlen_pos: "minv m \<Longrightarrow> mget m k \<noteq> None \<Longrightarrow> 0 < mlen m"
    and minv_empty: "minv mempty"
    and minv_insert: "minv m \<Longrightarrow> minv (minsert k v m)"
    and minv_remove: "minv m \<Longrightarrow> minv (mremove k m)"
begin

text \<open>Replacing one entry by another keeps the number of entries within bounds.\<close>

lemma mlen_replace:
  assumes "minv m" "mget m k0 \<noteq> None"
  shows "mlen (minsert k v (mremove k0 m)) \<le> mlen m"
  using mlen_pos[OF assms] mlen_insert[OF minv_remove[OF assms(1), of k0], of k v]
    mlen_remove[OF assms(1), of k0] assms(2)
  by (auto split: if_splits)

lemma mget_replace:
  "minv m \<Longrightarrow> mget (minsert k v (mremove k0 m)) = ((mget m)(k0 := None))(k := Some v)"
  by (simp add: mget_insert mget_remove minv_remove)

end

interpretation btm: finite_map_spec "[]" bt_get bt_insert bt_remove length bt_ok
  by unfold_locales
    (auto simp: bt_get_insert bt_get_remove length_bt_insert length_bt_remove
      bt_ok_insert bt_ok_remove)

end
