(* ===== verification/Simple_Cache.thy ===== *)
theory Simple_Cache
  imports Btree_Map
begin

text \<open>
  \<open>utils::SimpleCache\<close>, the bounded cache all RPC handlers share: an ordered map and
  its capacity. Each operation holds the map's lock for its whole body, so it is one
  atomic state change; the inner lock of a value never escapes the cache, so \<open>write\<close>
  is an update of the entry. The locale \<open>lossy_cache\<close> is what the handlers rely on: a
  cache may forget entries, but never invents or alters one.
\<close>

subsection \<open>State and operations\<close>

record ('k, 'v) simple_cache =
  cmap :: "('k, 'v) btree"
  csize :: nat

definition cache_new :: "nat \<Rightarrow> ('k, 'v) simple_cache" where
  "cache_new n = \<lparr>cmap = [], csize = n\<rparr>"

definition cache_insert ::
    "('k::linorder, 'v) simple_cache \<Rightarrow> 'k \<Rightarrow> 'v \<Rightarrow> ('k, 'v) simple_cache" where
  "cache_insert c key value =
     (let m = (if csize c \<le> length (cmap c)
               then (case cmap c of
                       [] \<Rightarrow> []
                     | (oldest_key, _) # _ \<Rightarrow> bt_remove oldest_key (cmap c))
               else cmap c)
      in c\<lparr>cmap := bt_insert key value m\<rparr>)"

definition cache_get :: "('k, 'v) simple_cache \<Rightarrow> 'k \<Rightarrow> 'v option" where
  "cache_get c key = bt_get (cmap c) key"

definition cache_write ::
    "('k::linorder, 'v) simple_cache \<Rightarrow> 'k \<Rightarrow> 'v \<Rightarrow> ('k, 'v) simple_cache" where
  "cache_write c key new_value =
     (case bt_get (cmap c) key of
        Some _ \<Rightarrow> c\<lparr>cmap := bt_insert key new_value (cmap c)\<rparr>
      | None \<Rightarrow> c)"

definition cache_remove :: "('k, 'v) simple_cache \<Rightarrow> 'k \<Rightarrow> ('k, 'v) simple_cache" where
  "cache_remove c key = c\<lparr>cmap := bt_remove key (cmap c)\<rparr>"

subsection \<open>Invariant\<close>

text \<open>
  A cache of capacity 0 still holds the one entry inserted last: nothing can be evicted
  from the empty map before the first insertion.
\<close>

definition cache_ok :: "('k::linorder, 'v) simple_cache \<Rightarrow> bool" where
  "cache_ok c \<longleftrightarrow> bt_ok (cmap c) \<and> length (cmap c) \<le> max 1 (csize c)"

lemma csize_ops [simp]:
  "csize (cache_insert c k v) = csize c"
  "csize (cache_write c k v) = csize c"
  "csize (cache_remove c k) = csize c"
  by (simp_all add: cache_insert_def cache_write_def cache_remove_def Let_def split: option.split)

lemma cache_ok_new: "cache_ok (cache_new n)"
  by (simp add: cache_ok_def cache_new_def)

lemma cache_ok_insert: "cache_ok c \<Longrightarrow> cache_ok (cache_insert c k v)"
proof (cases "csize c \<le> length (cmap c)")
  case True
  assume ok: "cache_ok c"
  show ?thesis
  proof (cases "cmap c")
    case (Cons e m)
    obtain k0 v0 where e: "e = (k0, v0)" by (cases e)
    have "length (bt_insert k v (bt_remove k0 (cmap c))) \<le> length (cmap c)"
      using ok btm.mlen_replace[of "cmap c" k0 k v] by (simp add: cache_ok_def Cons e)
    with ok True show ?thesis
      by (auto simp: cache_insert_def cache_ok_def Let_def Cons e bt_ok_insert dest: bt_ok_tl)
  qed (auto simp: cache_insert_def cache_ok_def bt_ok_Cons)
next
  case False
  assume "cache_ok c"
  with False show ?thesis
    by (auto simp: cache_insert_def cache_ok_def bt_ok_insert length_bt_insert)
qed

lemma cache_ok_write: "cache_ok c \<Longrightarrow> cache_ok (cache_write c k v)"
  by (auto simp: cache_write_def cache_ok_def bt_ok_insert length_bt_insert split: option.splits)

lemma cache_ok_remove: "cache_ok c \<Longrightarrow> cache_ok (cache_remove c k)"
  by (auto simp: cache_remove_def cache_ok_def bt_ok_remove length_bt_remove)

lemmas cache_ok_ops = cache_ok_new cache_ok_insert cache_ok_write cache_ok_remove

subsection \<open>Lookup after each operation\<close>

lemma cache_get_new [simp]: "cache_get (cache_new n) k = None"
  by (simp add: cache_get_def cache_new_def)

lemma cache_get_remove:
  "bt_ok (cmap c) \<Longrightarrow> cache_get (cache_remove c k) k' = (if k' = k then None else cache_get c k')"
  by (simp add: cache_get_def cache_remove_def bt_get_remove)

lemma cache_get_write:
  "cache_get (cache_write c k v) k' =
     (if k' = k \<and> cache_get c k \<noteq> None then Some v else cache_get c k')"
  by (simp add: cache_get_def cache_write_def bt_get_insert split: option.split)

text \<open>The key that the next insertion evicts, if any.\<close>

definition evicted :: "('k, 'v) simple_cache \<Rightarrow> 'k option" where
  "evicted c = (if csize c \<le> length (cmap c) then map_option fst (List.find (\<lambda>_. True) (cmap c)) else None)"

lemma cache_get_insert_aux:
  assumes "bt_ok (cmap c)"
  shows "cache_get (cache_insert c k v) k' =
    (if k' = k then Some v else if evicted c = Some k' then None else cache_get c k')"
proof (cases "cmap c")
  case Nil
  then show ?thesis by (simp add: cache_get_def cache_insert_def evicted_def)
next
  case (Cons e m)
  obtain k0 v0 where "e = (k0, v0)" by (cases e)
  with assms Cons show ?thesis
    using btm.mget_replace[of "cmap c" k v k0]
    by (auto simp: cache_get_def cache_insert_def evicted_def Let_def bt_get_insert
        dest: bt_ok_notin)
qed

subsection \<open>The contract of a cache\<close>

locale lossy_cache =
  fixes cget :: "'c \<Rightarrow> 'k \<Rightarrow> 'v option"
    and cput :: "'c \<Rightarrow> 'k \<Rightarrow> 'v \<Rightarrow> 'c"
    and cdel :: "'c \<Rightarrow> 'k \<Rightarrow> 'c"
    and cinv :: "'c \<Rightarrow> bool"
  assumes get_put: "cinv c \<Longrightarrow> cget (cput c k v) k = Some v"
    and get_put_other: "cinv c \<Longrightarrow> cget (cput c k v) k' = Some w \<Longrightarrow> k' \<noteq> k \<Longrightarrow> cget c k' = Some w"
    and get_del: "cinv c \<Longrightarrow> cget (cdel c k) k = None"
    and get_del_other: "cinv c \<Longrightarrow> cget (cdel c k) k' = Some w \<Longrightarrow> cget c k' = Some w"
    and inv_put: "cinv c \<Longrightarrow> cinv (cput c k v)"
    and inv_del: "cinv c \<Longrightarrow> cinv (cdel c k)"
begin

text \<open>A property of all cached entries survives whatever the cache forgets.\<close>

definition holds_all :: "('k \<Rightarrow> 'v \<Rightarrow> bool) \<Rightarrow> 'c \<Rightarrow> bool" where
  "holds_all P c \<longleftrightarrow> cinv c \<and> (\<forall>k v. cget c k = Some v \<longrightarrow> P k v)"

lemma holds_allD: "holds_all P c \<Longrightarrow> cget c k = Some v \<Longrightarrow> P k v"
  and holds_all_inv: "holds_all P c \<Longrightarrow> cinv c"
  by (auto simp: holds_all_def)

lemma holds_all_put:
  assumes "holds_all P c" "P k v"
  shows "holds_all P (cput c k v)"
  unfolding holds_all_def
proof (intro conjI allI impI)
  show "cinv (cput c k v)" using assms(1) by (simp add: holds_all_def inv_put)
next
  fix k' w assume w: "cget (cput c k v) k' = Some w"
  show "P k' w"
  proof (cases "k' = k")
    case True
    with w assms show ?thesis by (auto simp: holds_all_def get_put)
  next
    case False
    with w assms(1) have "cget c k' = Some w" by (auto simp: holds_all_def dest: get_put_other)
    with assms(1) show ?thesis by (simp add: holds_all_def)
  qed
qed

lemma holds_all_del: "holds_all P c \<Longrightarrow> holds_all P (cdel c k)"
  by (auto simp: holds_all_def inv_del dest: get_del_other)

end

interpretation sc: lossy_cache cache_get cache_insert cache_remove cache_ok
  by unfold_locales
    (auto simp: cache_get_insert_aux cache_get_remove cache_ok_insert cache_ok_remove
      cache_ok_def[THEN iffD1, THEN conjunct1] split: if_splits)

subsection \<open>Reachable caches\<close>

inductive cache_reach :: "nat \<Rightarrow> ('k::linorder, 'v) simple_cache \<Rightarrow> bool" where
  reach_new: "cache_reach n (cache_new n)"
| reach_insert: "cache_reach n c \<Longrightarrow> cache_reach n (cache_insert c k v)"
| reach_write: "cache_reach n c \<Longrightarrow> cache_reach n (cache_write c k v)"
| reach_remove: "cache_reach n c \<Longrightarrow> cache_reach n (cache_remove c k)"

lemma cache_reach_ok: "cache_reach n c \<Longrightarrow> cache_ok c \<and> csize c = n"
  by (induction rule: cache_reach.induct) (auto simp: cache_ok_ops, simp add: cache_new_def)

subsection \<open>Properties\<close>

text \<open>
  C29: whatever sequence of operations a cache created with capacity n has seen, its keys
  are distinct and ascending and it holds at most \<open>max 1 n\<close> entries.
\<close>

theorem cache_reach_bounded:
  assumes "cache_reach n c"
  shows "sorted (map fst (cmap c)) \<and> distinct (map fst (cmap c)) \<and>
    length (cmap c) \<le> max 1 n"
  using cache_reach_ok[OF assms] by (auto simp: cache_ok_def bt_ok_def)

theorem cache_reach_bounded_witness:
  "length (cmap (cache_insert (cache_insert (cache_insert (cache_new 2) 7 ''a'') 3 ''b'') (5::nat) ''c''))
     \<le> max 1 (2::nat)"
  by (rule cache_reach_bounded[THEN conjunct2, THEN conjunct2]) (intro cache_reach.intros)

text \<open>
  C30: what \<open>get\<close> returns after an insertion, on every branch: the new value under its
  key; nothing under the smallest key if the cache was full; any other entry unchanged.
\<close>

theorem cache_get_insert:
  assumes "cache_reach n c"
  shows "cache_get (cache_insert c k v) k' =
    (if k' = k then Some v
     else if n \<le> length (cmap c) \<and> cmap c \<noteq> [] \<and> k' = fst (hd (cmap c)) then None
     else cache_get c k')"
  using cache_reach_ok[OF assms] cache_get_insert_aux[of c k v k']
  by (cases "cmap c") (auto simp: cache_ok_def evicted_def)

theorem cache_get_insert_witness:
  "cache_get (cache_insert (cache_insert (cache_new 1) (3::nat) ''b'') 5 ''c'') 3 = None"
  using cache_get_insert[of 1 "cache_insert (cache_new 1) (3::nat) ''b''" 5 "''c''" 3]
  by (simp add: cache_reach.intros) (simp add: cache_insert_def cache_new_def)

text \<open>
  At capacity the code drops the entry it calls \<open>oldest_key\<close>, which is the smallest
  key of the map, and it does so even when the insertion only updates a key already
  present: the update of any other key loses an unrelated entry and shrinks the cache.
\<close>

lemma cache_update_evicts:
  assumes "cache_reach n c" "n \<le> length (cmap c)"
    and "cmap c = (k0, v0) # m" "cache_get c k = Some w" "k \<noteq> k0"
  shows "cache_get (cache_insert c k v) k0 = None \<and>
    length (cmap (cache_insert c k v)) = length (cmap c) - 1"
proof -
  from assms(1) have ok: "cache_ok c" and n: "csize c = n" by (auto dest: cache_reach_ok)
  from ok have m: "bt_ok m" "bt_get m k0 = None" unfolding cache_ok_def assms(3)
    by (auto dest: bt_ok_notin bt_ok_tl)
  have "cmap (cache_insert c k v) = bt_insert k v m"
    using assms(2,3) n by (simp add: cache_insert_def Let_def)
  moreover have "bt_get m k \<noteq> None"
    using assms(3,4,5) by (simp add: cache_get_def)
  ultimately show ?thesis
    using m assms(3,5) by (auto simp: cache_get_def bt_get_insert length_bt_insert)
qed

lemma cache_update_evicts_witness:
  "\<exists>c :: (nat, string) simple_cache. cache_get c 3 = Some ''b'' \<and> cache_get c 5 = Some ''c'' \<and>
     cache_get (cache_insert c 5 ''d'') 3 = None"
proof (intro exI conjI)
  let ?c = "cache_insert (cache_insert (cache_new 2) (5::nat) ''c'') 3 ''b''"
  show "cache_get ?c 3 = Some ''b''" "cache_get ?c 5 = Some ''c''"
    by (simp_all add: cache_get_def cache_insert_def cache_new_def)
  have "cache_reach 2 ?c" by (intro cache_reach.intros)
  from cache_update_evicts[OF this, of 3 "''b''" "[(5, ''c'')]" 5 "''c''" "''d''"]
  show "cache_get (cache_insert ?c 5 ''d'') 3 = None"
    by (simp add: cache_get_def cache_insert_def cache_new_def)
qed

end
