(* ===== verification/Header_List.thy ===== *)
theory Header_List
  imports Spv_Prelude "HOL-Library.AList"
begin

text \<open>
  \<open>header.rs\<close>: the chain of block headers the node has indexed. A \<open>header_list\<close> is
  the vector of entries by height, the map from hashes to heights and the tip. \<open>order\<close>
  numbers a run of downloaded headers, \<open>apply\<close> cuts the vector at the first new height
  and appends them, \<open>new\<close> rebuilds the list from an unordered map of headers by walking
  back from the tip. The hash function is the argument \<open>bh\<close>; failed assertions,
  out-of-range indexing and unwrapping None are \<open>Panic\<close>.
\<close>

definition MTP_SPAN :: nat where
  "MTP_SPAN = 11"

record header_entry =
  he_height :: nat
  he_hash :: block_hash
  he_header :: block_header

record header_list =
  headers :: "header_entry list"
  heights :: "block_hash \<rightharpoonup> nat"
  hl_tip :: block_hash

text \<open>A block of the Bitcoin library with the entry of its header.\<close>

record 'tx block =
  bl_header :: block_header
  bl_txdata :: "'tx list"

record 'tx block_entry =
  be_block :: "'tx block"
  be_entry :: header_entry

definition hl_empty :: header_list where
  "hl_empty = \<lparr>headers = [], heights = Map.empty, hl_tip = null_hash\<rparr>"

subsection \<open>Lookups\<close>

definition header_by_blockhash :: "header_list \<Rightarrow> block_hash \<Rightarrow> header_entry option" where
  "header_by_blockhash hl blockhash =
     (case heights hl blockhash of
        None \<Rightarrow> None
      | Some height \<Rightarrow>
          if height < length (headers hl) then
            (let header = headers hl ! height
             in if blockhash = he_hash header then Some header else None)
          else None)"

definition header_by_height :: "header_list \<Rightarrow> nat \<Rightarrow> ('e, header_entry option) res" where
  "header_by_height hl height =
     (if height < length (headers hl) then
        bind_res (assert_res ''header_by_height'' (he_height (headers hl ! height) = height))
          (\<lambda>_. Inr (Some (headers hl ! height)))
      else Inr None)"

definition hl_equals :: "header_list \<Rightarrow> header_list \<Rightarrow> bool" where
  "hl_equals hl other =
     ((if headers hl = [] then None else Some (last (headers hl))) =
      (if headers other = [] then None else Some (last (headers other))))"

definition get_tip :: "header_list \<Rightarrow> ('e, block_hash) res" where
  "get_tip hl =
     bind_res (assert_res ''tip''
       (hl_tip hl = (if headers hl = [] then null_hash else he_hash (last (headers hl)))))
       (\<lambda>_. Inr (hl_tip hl))"

subsection \<open>Ordering and applying new headers\<close>

definition links :: "header_entry \<Rightarrow> header_entry \<Rightarrow> bool" where
  "links a b \<longleftrightarrow> prev_blockhash (he_header b) = he_hash a"

definition order_headers ::
    "(block_header \<Rightarrow> block_hash) \<Rightarrow> header_list \<Rightarrow> block_header list \<Rightarrow> ('e, header_entry list) res" where
  "order_headers bh hl new_headers =
     (let hashed_headers = map (\<lambda>header. (bh header, header)) new_headers
      in bind_res (assert_res ''order: prev_blockhash''
            (adjacent (\<lambda>a b. prev_blockhash (snd b) = fst a) hashed_headers)) (\<lambda>_.
         case hashed_headers of
           [] \<Rightarrow> Inr []
         | (_, h) # _ \<Rightarrow>
             bind_res
               (if prev_blockhash h = null_hash then Inr 0
                else unwrap_res ''order: not part of the blockchain''
                       (map_option (\<lambda>e. he_height e + 1)
                         (header_by_blockhash hl (prev_blockhash h))))
               (\<lambda>new_height.
                 Inr (map (\<lambda>(height, blockhash, header).
                            \<lparr>he_height = height, he_hash = blockhash, he_header = header\<rparr>)
                        (zip [new_height..<new_height + length hashed_headers] hashed_headers)))))"

fun push_headers :: "header_list \<Rightarrow> header_entry list \<Rightarrow> ('e, header_list) res" where
  "push_headers hl [] = Inr hl"
| "push_headers hl (new_header # rest) =
     bind_res (assert_res ''apply: height'' (he_height new_header = length (headers hl)))
       (\<lambda>_. push_headers
          \<lparr>headers = headers hl @ [new_header],
           heights = (heights hl)(he_hash new_header \<mapsto> he_height new_header),
           hl_tip = he_hash new_header\<rparr> rest)"

definition apply_headers :: "header_list \<Rightarrow> header_entry list \<Rightarrow> ('e, header_list) res" where
  "apply_headers hl new_headers =
     bind_res (assert_res ''apply: link'' (adjacent (\<lambda>a b. he_height a + 1 = he_height b \<and>
         he_hash a = prev_blockhash (he_header b)) new_headers)) (\<lambda>_.
     case new_headers of
       [] \<Rightarrow> Inr hl
     | entry # _ \<Rightarrow>
         (let height = he_height entry
          in bind_res
               (if height > 0
                then unwrap_res ''apply: index out of bounds''
                       (if height - 1 < length (headers hl)
                        then Some (he_hash (headers hl ! (height - 1))) else None)
                else Inr null_hash)
               (\<lambda>expected_prev_blockhash.
                 if prev_blockhash (he_header entry) \<noteq> expected_prev_blockhash then Inr hl
                 else push_headers (hl\<lparr>headers := take height (headers hl)\<rparr>) new_headers)))"

subsection \<open>Rebuilding the list from a map\<close>

text \<open>
  The loop of \<open>HeaderList::new\<close>. The hash map is an association list (its order is not
  observable here); every turn removes the header it visits, so the loop ends on every
  map, cyclic ones included.
\<close>

function walk_map ::
    "(block_hash \<times> block_header) list \<Rightarrow> block_hash \<Rightarrow> block_header list
      \<Rightarrow> ('e, block_header list) res" where
  "walk_map headers_map blockhash headers_chain =
     (if blockhash = null_hash then Inr headers_chain
      else case map_of headers_map blockhash of
             None \<Rightarrow> Inl (Panic ''new: missing expected blockhash'')
           | Some header \<Rightarrow>
               walk_map (AList.delete blockhash headers_map) (prev_blockhash header)
                 (headers_chain @ [header]))"
  by pat_completeness auto
termination
  by (relation "measure (\<lambda>(m, _, _). length m)")
    (auto simp: AList.delete_eq dest!: map_of_SomeD intro: length_filter_less)

declare walk_map.simps [simp del]

definition hl_new ::
    "(block_header \<Rightarrow> block_hash) \<Rightarrow> (block_hash \<times> block_header) list \<Rightarrow> block_hash
      \<Rightarrow> ('e, header_list) res" where
  "hl_new bh headers_map tip_hash =
     bind_res (walk_map headers_map tip_hash []) (\<lambda>headers_chain.
     bind_res (order_headers bh hl_empty (rev headers_chain)) (\<lambda>entries.
     apply_headers hl_empty entries))"

subsection \<open>Median time past\<close>

text \<open>
  With an empty list and a positive height the source subtracts 1 from a length of 0:
  that panics with overflow checks, and without them the comparison fails and the
  lookup of the first window entry panics. Both are the panic below.
\<close>

definition mtp_window :: "header_list \<Rightarrow> nat \<Rightarrow> u32 list" where
  "mtp_window hl height =
     map (\<lambda>p_height. time (he_header (headers hl ! p_height)))
       [height - (MTP_SPAN - 1)..<Suc height]"

definition get_mtp :: "header_list \<Rightarrow> nat \<Rightarrow> ('e, u32) res" where
  "get_mtp hl height =
     (if height = 0 then
        (case headers hl of
           [] \<Rightarrow> Inl (Panic ''get_mtp: first'')
         | e # _ \<Rightarrow> Inr (time (he_header e)))
      else if headers hl = [] then Inl (Panic ''get_mtp: empty'')
      else if height > length (headers hl) - 1 then Inr 0
      else (let timestamps = sort (mtp_window hl height)
            in Inr (timestamps ! (length timestamps div 2))))"

subsection \<open>Invariant\<close>

text \<open>
  \<open>chain_ok\<close> is what a vector of entries satisfies: entry \<open>i\<close> has height \<open>i\<close> and the
  hash of its header, and refers to entry \<open>i - 1\<close> (the first one to the zero hash).
  \<open>hl_inv\<close> adds that the tip is the last entry, \<open>hl_indexed\<close> that the map finds every
  entry. Entries of abandoned branches may stay in the map.
\<close>

definition prev_hash_at :: "header_entry list \<Rightarrow> nat \<Rightarrow> block_hash" where
  "prev_hash_at es i = (if i = 0 then null_hash else he_hash (es ! (i - 1)))"

definition chain_ok :: "(block_header \<Rightarrow> block_hash) \<Rightarrow> header_entry list \<Rightarrow> bool" where
  "chain_ok bh es \<longleftrightarrow> (\<forall>i < length es. he_height (es ! i) = i \<and>
      he_hash (es ! i) = bh (he_header (es ! i)) \<and>
      prev_blockhash (he_header (es ! i)) = prev_hash_at es i)"

definition hl_inv :: "(block_header \<Rightarrow> block_hash) \<Rightarrow> header_list \<Rightarrow> bool" where
  "hl_inv bh hl \<longleftrightarrow> chain_ok bh (headers hl) \<and>
     hl_tip hl = (if headers hl = [] then null_hash else he_hash (last (headers hl)))"

definition hl_indexed :: "header_list \<Rightarrow> bool" where
  "hl_indexed hl \<longleftrightarrow> (\<forall>i < length (headers hl). heights hl (he_hash (headers hl ! i)) = Some i)"

lemma chain_okD:
  assumes "chain_ok bh es" "i < length es"
  shows "he_height (es ! i) = i" "he_hash (es ! i) = bh (he_header (es ! i))"
    "prev_blockhash (he_header (es ! i)) = prev_hash_at es i"
  using assms by (simp_all add: chain_ok_def)

lemma chain_ok_Nil [simp]: "chain_ok bh []"
  by (simp add: chain_ok_def)

lemma prev_hash_at_last: "es \<noteq> [] \<Longrightarrow> prev_hash_at es (length es) = he_hash (last es)"
  by (simp add: prev_hash_at_def last_conv_nth)

lemma prev_hash_at_append: "i \<le> length es \<Longrightarrow> prev_hash_at (es @ fs) i = prev_hash_at es i"
  by (auto simp: prev_hash_at_def nth_append)

lemma chain_ok_snoc:
  "chain_ok bh (es @ [e]) \<longleftrightarrow> chain_ok bh es \<and> he_height e = length es \<and>
     he_hash e = bh (he_header e) \<and>
     prev_blockhash (he_header e) = prev_hash_at es (length es)"
  by (auto simp: chain_ok_def nth_append less_Suc_eq prev_hash_at_append)

lemma chain_ok_take: "chain_ok bh es \<Longrightarrow> chain_ok bh (take n es)"
  by (auto simp: chain_ok_def prev_hash_at_def)

lemma chain_ok_adjacent: "chain_ok bh es \<Longrightarrow> adjacent links es"
  by (auto simp: adjacent_iff links_def chain_okD prev_hash_at_def)

lemma hl_tip_prev_hash: "hl_inv bh hl \<Longrightarrow> hl_tip hl = prev_hash_at (headers hl) (length (headers hl))"
  by (auto simp: hl_inv_def prev_hash_at_last) (simp add: prev_hash_at_def)

text \<open>
  Two entries of a chain never share a hash: equal hashes mean equal headers, hence
  equal predecessors, down to a block whose predecessor is the zero hash.
\<close>

lemma chain_hash_headers_eq:
  assumes "chain_ok bh es" "hash_ok bh (he_header ` set es)"
    and "i < length es" "j < length es" "he_hash (es ! i) = he_hash (es ! j)"
  shows "he_header (es ! i) = he_header (es ! j)"
proof (rule hash_okD(1)[OF assms(2)])
  show "bh (he_header (es ! i)) = bh (he_header (es ! j))"
    using assms by (metis chain_okD(2))
qed (use assms in auto)

lemma chain_hash_at_not_null:
  assumes "chain_ok bh es" "hash_ok bh (he_header ` set es)" "i < length es"
  shows "he_hash (es ! i) \<noteq> null_hash"
  using assms hash_okD(2)[OF assms(2), of "he_header (es ! i)"] by (simp add: chain_okD)

lemma chain_hash_less:
  assumes "chain_ok bh es" "hash_ok bh (he_header ` set es)"
  shows "i < j \<Longrightarrow> j < length es \<Longrightarrow> he_hash (es ! i) \<noteq> he_hash (es ! j)"
proof (induction i arbitrary: j)
  case (0 j)
  show ?case
  proof
    assume eq: "he_hash (es ! 0) = he_hash (es ! j)"
    have "prev_hash_at es 0 = prev_hash_at es j"
      using chain_hash_headers_eq[OF assms _ _ eq] 0 chain_okD(3)[OF assms(1)] by (metis less_trans)
    moreover have "j - 1 < length es" using 0 by simp
    ultimately show False
      using chain_hash_at_not_null[OF assms, of "j - 1"] 0 by (simp add: prev_hash_at_def)
  qed
next
  case (Suc i j)
  then obtain j' where j: "j = Suc j'" "i < j'" "j' < length es" by (cases j) auto
  show ?case
  proof
    assume eq: "he_hash (es ! Suc i) = he_hash (es ! j)"
    have "prev_hash_at es (Suc i) = prev_hash_at es j"
      using chain_hash_headers_eq[OF assms _ _ eq] Suc.prems chain_okD(3)[OF assms(1)]
      by (metis less_trans)
    with j Suc.IH[of j'] show False by (simp add: prev_hash_at_def)
  qed
qed

lemma chain_hash_inj:
  assumes "chain_ok bh es" "hash_ok bh (he_header ` set es)"
    and "i < length es" "j < length es" "he_hash (es ! i) = he_hash (es ! j)"
  shows "i = j"
  using chain_hash_less[OF assms(1,2)] assms(3-5) by (metis linorder_neqE_nat)

lemma chain_hash_distinct:
  assumes "chain_ok bh es" "hash_ok bh (he_header ` set es)"
  shows "distinct (map he_hash es)"
  unfolding distinct_conv_nth using chain_hash_inj[OF assms] by auto

lemma chain_hash_not_null:
  assumes "chain_ok bh es" "hash_ok bh (he_header ` set es)" "e \<in> set es"
  shows "he_hash e \<noteq> null_hash"
  using assms chain_hash_at_not_null[OF assms(1,2)] by (auto simp: in_set_conv_nth)

subsection \<open>What the operations compute\<close>

definition index_of :: "header_entry list \<Rightarrow> block_hash \<rightharpoonup> nat" where
  "index_of es = map_of (rev (map (\<lambda>e. (he_hash e, he_height e)) es))"

definition number_headers ::
    "(block_header \<Rightarrow> block_hash) \<Rightarrow> nat \<Rightarrow> block_header list \<Rightarrow> header_entry list" where
  "number_headers bh n hs =
     map (\<lambda>i. \<lparr>he_height = n + i, he_hash = bh (hs ! i), he_header = hs ! i\<rparr>) [0..<length hs]"

lemma length_number_headers [simp]: "length (number_headers bh n hs) = length hs"
  and nth_number_headers [simp]: "i < length hs \<Longrightarrow> number_headers bh n hs ! i =
    \<lparr>he_height = n + i, he_hash = bh (hs ! i), he_header = hs ! i\<rparr>"
  and map_header_number_headers [simp]: "map he_header (number_headers bh n hs) = hs"
  by (auto simp: number_headers_def intro: nth_equalityI)

lemma number_headers_zip:
  "map (\<lambda>(height, blockhash, header).
       \<lparr>he_height = height, he_hash = blockhash, he_header = header\<rparr>)
     (zip [n..<n + length hs] (map (\<lambda>header. (bh header, header)) hs)) = number_headers bh n hs"
  by (auto intro!: nth_equalityI)

lemma number_headers_Nil [simp]: "number_headers bh n [] = []"
  and number_headers_eq_Nil [simp]: "number_headers bh n hs = [] \<longleftrightarrow> hs = []"
  by (auto simp: number_headers_def)

lemma adjacent_number_headers:
  "adjacent (\<lambda>a b. he_height a + 1 = he_height b \<and> he_hash a = prev_blockhash (he_header b))
     (number_headers bh n hs) \<longleftrightarrow> adjacent (\<lambda>a b. prev_blockhash b = bh a) hs"
  by (auto simp: adjacent_iff)

lemma push_headers_eq:
  "push_headers hl es =
     (if \<forall>i < length es. he_height (es ! i) = length (headers hl) + i
      then Inr \<lparr>headers = headers hl @ es, heights = heights hl ++ index_of es,
                hl_tip = (if es = [] then hl_tip hl else he_hash (last es))\<rparr>
      else Inl (Panic ''apply: height''))"
proof (induction hl es rule: push_headers.induct)
  case (1 hl)
  then show ?case by (simp add: index_of_def)
next
  case (2 hl e es)
  have "(\<forall>i < Suc (length es). he_height ((e # es) ! i) = length (headers hl) + i) \<longleftrightarrow>
      he_height e = length (headers hl) \<and>
      (\<forall>i < length es. he_height (es ! i) = Suc (length (headers hl)) + i)"
    by (auto simp: less_Suc_eq_0_disj)
  moreover have "(heights hl)(he_hash e \<mapsto> he_height e) ++ index_of es = heights hl ++ index_of (e # es)"
    by (simp add: index_of_def)
  ultimately show ?case
    using "2.IH" by (auto simp: assert_res_def)
qed

lemma adjacent_heights:
  assumes "adjacent (\<lambda>a b. he_height a + 1 = he_height b \<and> Q a b) es" "es \<noteq> []"
  shows "i < length es \<Longrightarrow> he_height (es ! i) = he_height (hd es) + i"
proof (induction i)
  case 0
  with assms(2) show ?case by (simp add: hd_conv_nth)
next
  case (Suc i)
  from assms(1) Suc.prems have "he_height (es ! i) + 1 = he_height (es ! Suc i)"
    by (simp add: adjacent_iff)
  moreover have "he_height (es ! i) = he_height (hd es) + i"
    using Suc by simp
  ultimately show ?case by simp
qed

abbreviation consecutive :: "header_entry list \<Rightarrow> bool" where
  "consecutive \<equiv> adjacent (\<lambda>a b. he_height a + 1 = he_height b \<and>
     he_hash a = prev_blockhash (he_header b))"

lemma push_headers_cut:
  assumes "consecutive es" "es \<noteq> []" "he_height (hd es) \<le> length (headers hl)"
  shows "push_headers (hl\<lparr>headers := take (he_height (hd es)) (headers hl)\<rparr>) es =
    Inr \<lparr>headers = take (he_height (hd es)) (headers hl) @ es,
         heights = heights hl ++ index_of es, hl_tip = he_hash (last es)\<rparr>"
  using assms adjacent_heights[OF assms(1,2)] by (simp add: push_headers_eq min_absorb2)

lemma push_headers_cut0:
  assumes "consecutive es" "es \<noteq> []" "he_height (hd es) = 0"
  shows "push_headers (hl\<lparr>headers := []\<rparr>) es =
    Inr \<lparr>headers = es, heights = heights hl ++ index_of es, hl_tip = he_hash (last es)\<rparr>"
  using push_headers_cut[OF assms(1,2), of hl] assms(3) by simp

lemma apply_headers_eq:
  "apply_headers hl es =
     (if \<not> consecutive es then Inl (Panic ''apply: link'')
      else if es = [] then Inr hl
      else if length (headers hl) < he_height (hd es) then Inl (Panic ''apply: index out of bounds'')
      else if prev_blockhash (he_header (hd es)) \<noteq> prev_hash_at (headers hl) (he_height (hd es))
        then Inr hl
      else Inr \<lparr>headers = take (he_height (hd es)) (headers hl) @ es,
               heights = heights hl ++ index_of es, hl_tip = he_hash (last es)\<rparr>)"
  unfolding apply_headers_def case_list_hd Let_def
  by (cases "he_height (hd es) = 0"; cases "he_height (hd es) \<le> length (headers hl)")
    (auto simp: push_headers_cut push_headers_cut0 prev_hash_at_def assert_res_def unwrap_res_def)

lemma order_headers_eq:
  "order_headers bh hl hs =
     (if \<not> adjacent (\<lambda>a b. prev_blockhash b = bh a) hs then Inl (Panic ''order: prev_blockhash'')
      else if hs = [] then Inr []
      else if prev_blockhash (hd hs) = null_hash then Inr (number_headers bh 0 hs)
      else case header_by_blockhash hl (prev_blockhash (hd hs)) of
             None \<Rightarrow> Inl (Panic ''order: not part of the blockchain'')
           | Some e \<Rightarrow> Inr (number_headers bh (he_height e + 1) hs))"
  unfolding order_headers_def Let_def length_map number_headers_zip
  by (auto simp: case_list_hd split_beta adjacent_map hd_map assert_res_def unwrap_res_def
      split: option.splits)

subsection \<open>Preservation of the invariant\<close>

text \<open>The entries an operation appends carry the hashes of their headers.\<close>

definition entries_ok :: "(block_header \<Rightarrow> block_hash) \<Rightarrow> header_entry list \<Rightarrow> bool" where
  "entries_ok bh es \<longleftrightarrow> (\<forall>e \<in> set es. he_hash e = bh (he_header e))"

lemma entries_ok_number [simp]: "entries_ok bh (number_headers bh n hs)"
  by (auto simp: entries_ok_def number_headers_def)

lemma entries_ok_filter: "entries_ok bh es \<Longrightarrow> entries_ok bh (filter P es)"
  by (simp add: entries_ok_def)

lemma order_headers_entries_ok: "order_headers bh hl hs = Inr es \<Longrightarrow> entries_ok bh es"
  by (auto simp: order_headers_eq entries_ok_def[of _ "[]"] split: if_splits option.splits)

lemma order_headers_headers: "order_headers bh hl hs = Inr es \<Longrightarrow> map he_header es = hs"
  by (auto simp: order_headers_eq split: if_splits option.splits)

lemma chain_ok_append:
  assumes "chain_ok bh es" "entries_ok bh fs" "consecutive fs"
    and "fs \<noteq> [] \<Longrightarrow> he_height (hd fs) = length es"
    and "fs \<noteq> [] \<Longrightarrow> prev_blockhash (he_header (hd fs)) = prev_hash_at es (length es)"
  shows "chain_ok bh (es @ fs)"
  using assms
proof (induction fs arbitrary: es)
  case (Cons f fs)
  from Cons.prems have "chain_ok bh (es @ [f])"
    by (simp add: chain_ok_snoc entries_ok_def)
  moreover have "prev_hash_at (es @ [f]) (length (es @ [f])) = he_hash f"
    by (simp add: prev_hash_at_def)
  ultimately have "chain_ok bh ((es @ [f]) @ fs)"
    using Cons.prems by (intro Cons.IH) (auto simp: entries_ok_def adjacent_Cons)
  then show ?case by simp
qed simp

lemma apply_headers_inv:
  assumes "hl_inv bh hl" "entries_ok bh es" "apply_headers hl es = Inr hl'"
  shows "hl_inv bh hl'"
proof (cases "es = [] \<or> hl' = hl")
  case True
  with assms show ?thesis by (auto simp: apply_headers_eq split: if_splits)
next
  case False
  let ?h = "he_height (hd es)"
  from False assms(3) have adj: "consecutive es" and le: "?h \<le> length (headers hl)"
    and prev: "prev_blockhash (he_header (hd es)) = prev_hash_at (headers hl) ?h"
    and hl': "headers hl' = take ?h (headers hl) @ es" "hl_tip hl' = he_hash (last es)"
    by (auto simp: apply_headers_eq split: if_splits)
  have "chain_ok bh (take ?h (headers hl) @ es)"
    using assms(1,2) adj le prev
    by (intro chain_ok_append) (auto simp: hl_inv_def chain_ok_take prev_hash_at_def min_absorb2)
  with False hl' show ?thesis by (simp add: hl_inv_def)
qed

lemma index_of_outside: "h \<notin> he_hash ` set es \<Longrightarrow> index_of es h = None"
  by (auto simp: index_of_def map_of_eq_None_iff)

lemma index_of_nth:
  assumes "distinct (map he_hash es)" "i < length es"
  shows "index_of es (he_hash (es ! i)) = Some (he_height (es ! i))"
proof -
  have "distinct (map fst (rev (map (\<lambda>e. (he_hash e, he_height e)) es)))"
    using assms(1) by (simp add: comp_def flip: rev_map)
  moreover have "(he_hash (es ! i), he_height (es ! i)) \<in>
      set (rev (map (\<lambda>e. (he_hash e, he_height e)) es))"
    using assms(2) by auto
  ultimately show ?thesis by (simp add: index_of_def map_of_eq_Some_iff)
qed

lemma apply_headers_indexed:
  assumes "hl_inv bh hl" "hl_indexed hl" "entries_ok bh es" "apply_headers hl es = Inr hl'"
    and "hash_ok bh (he_header ` set (headers hl'))"
  shows "hl_indexed hl'"
proof (cases "es = [] \<or> hl' = hl")
  case True
  with assms show ?thesis by (auto simp: apply_headers_eq split: if_splits)
next
  case False
  let ?h = "he_height (hd es)"
  from False assms(4) have le: "?h \<le> length (headers hl)"
    and hl': "headers hl' = take ?h (headers hl) @ es" "heights hl' = heights hl ++ index_of es"
    by (auto simp: apply_headers_eq split: if_splits)
  have chain: "chain_ok bh (headers hl')"
    using apply_headers_inv[OF assms(1,3,4)] by (simp add: hl_inv_def)
  then have dist: "distinct (map he_hash (headers hl'))"
    using assms(5) by (rule chain_hash_distinct)
  show ?thesis unfolding hl_indexed_def
  proof (intro allI impI)
    fix i assume i: "i < length (headers hl')"
    show "heights hl' (he_hash (headers hl' ! i)) = Some i"
    proof (cases "i < ?h")
      case True
      with i le hl' have nth: "headers hl' ! i = headers hl ! i" by (simp add: nth_append)
      have "take ?h (headers hl) ! i \<in> set (take ?h (headers hl))"
        using True le by (intro nth_mem) simp
      then have "he_hash (headers hl' ! i) \<in> he_hash ` set (take ?h (headers hl))"
        using True nth by simp
      then have "he_hash (headers hl' ! i) \<notin> he_hash ` set es"
        using dist unfolding hl'(1) by auto
      with True le nth hl' assms(2) show ?thesis
        by (simp add: map_add_def index_of_outside hl_indexed_def)
    next
      case False
      with i le hl' have nth: "headers hl' ! i = es ! (i - ?h)" "i - ?h < length es"
        by (auto simp: nth_append min_absorb2)
      then have "index_of es (he_hash (headers hl' ! i)) = Some (he_height (headers hl' ! i))"
        using dist hl' by (auto intro: index_of_nth)
      with chain i hl' show ?thesis by (simp add: map_add_def chain_okD)
    qed
  qed
qed

subsection \<open>Lookup, ordering and rebuilding under the invariant\<close>

lemma header_by_blockhash_Some:
  assumes "hl_indexed hl"
  shows "header_by_blockhash hl h = Some e \<longleftrightarrow> e \<in> set (headers hl) \<and> he_hash e = h"
proof
  assume "header_by_blockhash hl h = Some e"
  then show "e \<in> set (headers hl) \<and> he_hash e = h"
    by (auto simp: header_by_blockhash_def Let_def split: option.splits if_splits)
next
  assume "e \<in> set (headers hl) \<and> he_hash e = h"
  with assms show "header_by_blockhash hl h = Some e"
    by (auto simp: header_by_blockhash_def hl_indexed_def in_set_conv_nth)
qed

lemma header_by_blockhash_sound:
  "header_by_blockhash hl h = Some e \<Longrightarrow>
     \<exists>i < length (headers hl). e = headers hl ! i \<and> heights hl h = Some i \<and> he_hash e = h"
  by (auto simp: header_by_blockhash_def Let_def split: option.splits if_splits)

lemma hl_empty_inv [simp]: "hl_inv bh hl_empty" "hl_indexed hl_empty"
  by (simp_all add: hl_inv_def hl_indexed_def hl_empty_def)

lemma order_then_apply_aux:
  assumes "hl_inv bh hl" "order_headers bh hl hs = (Inr es :: ('e, header_entry list) res)" "hs \<noteq> []"
  shows "\<exists>k \<le> length (headers hl). prev_blockhash (hd hs) = prev_hash_at (headers hl) k \<and>
    he_height (hd es) = k \<and>
    apply_headers hl es = (Inr \<lparr>headers = take k (headers hl) @ es,
      heights = heights hl ++ index_of es, hl_tip = he_hash (last es)\<rparr> :: ('e, header_list) res)"
proof -
  obtain k where k: "k \<le> length (headers hl)" "es = number_headers bh k hs"
      "prev_blockhash (hd hs) = prev_hash_at (headers hl) k"
    using assms
    by (force simp: order_headers_eq prev_hash_at_def hl_inv_def chain_okD
        split: if_splits option.splits dest!: header_by_blockhash_sound)
  have adj: "adjacent (\<lambda>a b. prev_blockhash b = bh a) hs"
    using assms(2) by (simp add: order_headers_eq split: if_splits)
  have hd: "hd es = \<lparr>he_height = k, he_hash = bh (hd hs), he_header = hd hs\<rparr>"
    using k assms(3) by (simp add: hd_conv_nth)
  have "consecutive es" unfolding k(2) using adj adjacent_number_headers by blast
  then have "apply_headers hl es = (Inr \<lparr>headers = take k (headers hl) @ es,
      heights = heights hl ++ index_of es, hl_tip = he_hash (last es)\<rparr> :: ('e, header_list) res)"
    using hd k assms(3) by (simp add: apply_headers_eq)
  with hd k show ?thesis by auto
qed

lemma walk_map_rebuild:
  assumes "chain_ok bh es" "hash_ok bh (he_header ` set es)"
    and "\<forall>e \<in> set es. map_of m (he_hash e) = Some (he_header e)"
  shows "(walk_map m (prev_hash_at es (length es)) acc :: ('e, block_header list) res) =
    Inr (acc @ rev (map he_header es))"
  using assms
proof (induction es arbitrary: m acc rule: rev_induct)
  case Nil
  then show ?case by (subst walk_map.simps) (simp add: prev_hash_at_def)
next
  case (snoc e es)
  have "\<forall>e' \<in> set es. he_hash e' \<noteq> he_hash e" "he_hash e \<noteq> null_hash"
    using chain_hash_distinct[OF snoc.prems(1,2)] chain_hash_not_null[OF snoc.prems(1,2), of e]
    by (auto simp: image_iff)
  moreover have "hash_ok bh (he_header ` set es)"
    using snoc.prems(2) by (auto simp: hash_ok_def)
  ultimately have "(walk_map (AList.delete (he_hash e) m) (prev_hash_at es (length es))
      (acc @ [he_header e]) :: ('e, block_header list) res) = Inr ((acc @ [he_header e]) @ rev (map he_header es))"
    using snoc.prems by (intro snoc.IH) (simp_all add: chain_ok_snoc AList.delete_conv')
  then show ?case
    using snoc.prems \<open>he_hash e \<noteq> null_hash\<close>
    by (subst walk_map.simps) (simp add: chain_ok_snoc prev_hash_at_def[of "es @ [e]"])
qed

lemma number_headers_chain_ok:
  "chain_ok bh es \<Longrightarrow> number_headers bh 0 (map he_header es) = es"
  by (auto intro!: nth_equalityI simp: chain_okD)

lemma chain_ok_adjacent_headers:
  "chain_ok bh es \<Longrightarrow> adjacent (\<lambda>a b. prev_blockhash b = bh a) (map he_header es)"
  by (auto simp: adjacent_iff chain_okD prev_hash_at_def)

lemma hl_new_rebuild_aux:
  assumes "hl_inv bh hl" "hash_ok bh (he_header ` set (headers hl))"
    and "\<forall>e \<in> set (headers hl). map_of m (he_hash e) = Some (he_header e)"
  shows "hl_new bh m (hl_tip hl) =
    Inr \<lparr>headers = headers hl, heights = index_of (headers hl), hl_tip = hl_tip hl\<rparr>"
proof -
  let ?es = "headers hl"
  from assms(1) have c: "chain_ok bh ?es" by (simp add: hl_inv_def)
  have w: "walk_map m (hl_tip hl) [] = Inr (rev (map he_header ?es))"
    using walk_map_rebuild[OF c assms(2,3), of "[]"] assms(1) by (simp add: hl_tip_prev_hash)
  have "?es \<noteq> [] \<Longrightarrow> prev_blockhash (he_header (hd ?es)) = null_hash \<and> he_height (hd ?es) = 0"
    using c by (simp add: hd_conv_nth chain_okD prev_hash_at_def)
  moreover have "consecutive ?es"
    using c by (auto simp: adjacent_iff chain_okD prev_hash_at_def)
  moreover have "hl_tip hl = (if ?es = [] then null_hash else he_hash (last ?es))"
    using assms(1) by (simp add: hl_inv_def)
  ultimately show ?thesis
    unfolding hl_new_def w
    by (auto simp: order_headers_eq chain_ok_adjacent_headers[OF c] number_headers_chain_ok[OF c]
        apply_headers_eq hd_map prev_hash_at_def hl_empty_def index_of_def)
qed

lemma walk_map_Inr:
  "(walk_map m b acc :: ('e, block_header list) res) = Inr ch \<Longrightarrow> \<exists>hs. ch = acc @ hs \<and> set hs \<subseteq> snd ` set m \<and>
     (b = null_hash \<longrightarrow> hs = []) \<and> (b \<noteq> null_hash \<longrightarrow> hs \<noteq> [] \<and> map_of m b = Some (hd hs))"
proof (induction m b acc rule: walk_map.induct)
  case (1 m b acc)
  show ?case
  proof (cases "b = null_hash")
    case True
    with "1.prems" show ?thesis by (subst (asm) walk_map.simps) simp
  next
    case False
    with "1.prems" obtain h where h: "map_of m b = Some h"
      and w: "(walk_map (AList.delete b m) (prev_blockhash h) (acc @ [h]) ::
        ('e, block_header list) res) = Inr ch"
      by (auto simp: walk_map.simps[of m b acc] split: option.splits)
    from "1.IH"[OF False h w] obtain hs where
      "ch = (acc @ [h]) @ hs" "set hs \<subseteq> snd ` set (AList.delete b m)" by auto
    moreover have "set (AList.delete b m) \<subseteq> set m" by (auto simp: AList.delete_eq)
    ultimately show ?thesis
      using False h map_of_SomeD[OF h] by (intro exI[of _ "h # hs"]) force
  qed
qed

subsection \<open>The median\<close>

lemma sorted_nth_rank:
  fixes ys :: "'a::linorder list"
  assumes "sorted ys" "k < length ys"
  shows "length (filter (\<lambda>x. x < ys ! k) ys) \<le> k"
    and "length (filter (\<lambda>x. ys ! k < x) ys) \<le> length ys - 1 - k"
proof -
  have "{i. i < length ys \<and> ys ! i < ys ! k} \<subseteq> {..<k}"
    using assms by (auto simp: not_le[symmetric] sorted_nth_mono)
  then show "length (filter (\<lambda>x. x < ys ! k) ys) \<le> k"
    unfolding length_filter_conv_card by (metis card_lessThan card_mono finite_lessThan)
  have "{i. i < length ys \<and> ys ! k < ys ! i} \<subseteq> {k<..<length ys}"
    using assms by (auto simp: not_le[symmetric] sorted_nth_mono)
  then have "card {i. i < length ys \<and> ys ! k < ys ! i} \<le> card {k<..<length ys}"
    by (intro card_mono) simp_all
  then show "length (filter (\<lambda>x. ys ! k < x) ys) \<le> length ys - 1 - k"
    unfolding length_filter_conv_card by simp
qed

lemma length_mtp_window: "length (mtp_window hl height) = min (height + 1) MTP_SPAN"
  by (simp add: mtp_window_def MTP_SPAN_def)

lemma get_mtp_median_aux:
  assumes "w = mtp_window hl height" "t = sort w ! (length w div 2)"
  shows "t \<in> set w" "length (filter (\<lambda>x. x < t) w) \<le> length w div 2"
    "length (filter (\<lambda>x. t < x) w) \<le> length w div 2"
proof -
  have k: "length w div 2 < length (sort w)"
    using length_mtp_window[of hl height] assms(1) by (simp add: MTP_SPAN_def)
  then show "t \<in> set w" using assms(2) nth_mem[OF k] by simp
  have flt: "length (filter P w) = length (filter P (sort w))" for P
    by (simp add: filter_sort)
  show "length (filter (\<lambda>x. x < t) w) \<le> length w div 2"
    unfolding flt assms(2) by (rule sorted_nth_rank(1)[OF sorted_sort k])
  have "length (filter (\<lambda>x. t < x) w) \<le> length (sort w) - 1 - length w div 2"
    unfolding flt assms(2) by (rule sorted_nth_rank(2)[OF sorted_sort k])
  then show "length (filter (\<lambda>x. t < x) w) \<le> length w div 2" by simp
qed

subsection \<open>Reachable header lists\<close>

text \<open>
  Every header list of the program is built from \<open>empty\<close> by \<open>apply\<close> on runs of entries
  that carry the hashes of their headers (\<open>HeaderList::new\<close> is one such application).
  \<open>U\<close> is the set of headers met.
\<close>

inductive hl_reach :: "(block_header \<Rightarrow> block_hash) \<Rightarrow> block_header set \<Rightarrow> header_list \<Rightarrow> bool"
  for bh U where
  reach_empty: "hl_reach bh U hl_empty"
| reach_apply: "hl_reach bh U hl \<Longrightarrow> entries_ok bh es \<Longrightarrow> he_header ` set es \<subseteq> U \<Longrightarrow>
    (apply_headers hl es :: (unit, header_list) res) = Inr hl' \<Longrightarrow> hl_reach bh U hl'"

lemma hash_ok_subset: "hash_ok bh U \<Longrightarrow> V \<subseteq> U \<Longrightarrow> hash_ok bh V"
  by (auto simp: hash_ok_def intro: inj_on_subset)

lemma apply_headers_subset:
  "apply_headers hl es = Inr hl' \<Longrightarrow> set (headers hl') \<subseteq> set (headers hl) \<union> set es"
  by (auto simp: apply_headers_eq split: if_splits dest: in_set_takeD)

lemma hl_reach_invariants:
  assumes "hl_reach bh U hl" "hash_ok bh U"
  shows "hl_inv bh hl \<and> hl_indexed hl \<and> he_header ` set (headers hl) \<subseteq> U"
  using assms
proof (induction rule: hl_reach.induct)
  case reach_empty
  show ?case by simp (simp add: hl_empty_def)
next
  case (reach_apply hl es hl')
  then have inv: "hl_inv bh hl" "hl_indexed hl" "he_header ` set (headers hl) \<subseteq> U" by auto
  have sub: "he_header ` set (headers hl') \<subseteq> U"
    using apply_headers_subset[OF reach_apply.hyps(4)] inv(3) reach_apply.hyps(3) by blast
  have "hl_indexed hl'"
    using apply_headers_indexed[OF inv(1,2) reach_apply.hyps(2,4)]
      hash_ok_subset[OF reach_apply.prems sub] .
  with sub show ?case
    using apply_headers_inv[OF inv(1) reach_apply.hyps(2,4)] by blast
qed

subsection \<open>Sample chain for the witnesses\<close>

text \<open>Three blocks \<open>0, 1, 2\<close> and a fork \<open>3\<close> on top of block 0; the hash is the nonce.\<close>

definition sample_hash :: "block_header \<Rightarrow> block_hash" where
  "sample_hash h = ucast (nonce h) # replicate 31 0"

definition sample_header :: "u32 \<Rightarrow> block_hash \<Rightarrow> block_header" where
  "sample_header n p =
     \<lparr>version = 1, prev_blockhash = p, merkle_root = null_hash, time = 100 + n, bits = 0, nonce = n\<rparr>"

definition sample_headers :: "block_header list" where
  "sample_headers =
     [sample_header 1 null_hash,
      sample_header 2 (1 # replicate 31 0),
      sample_header 3 (2 # replicate 31 0)]"

definition sample_fork :: block_header where
  "sample_fork = sample_header 4 (1 # replicate 31 0)"

definition sample_list :: header_list where
  "sample_list = (let es = number_headers sample_hash 0 sample_headers
     in \<lparr>headers = es, heights = index_of es, hl_tip = he_hash (last es)\<rparr>)"

abbreviation sample_U :: "block_header set" where
  "sample_U \<equiv> insert sample_fork (set sample_headers)"

lemmas sample_defs = sample_hash_def sample_header_def sample_headers_def sample_fork_def

lemma sample_hash_ok: "hash_ok sample_hash sample_U"
  by (simp add: hash_ok_def sample_defs null_hash_Cons)

lemma sample_number:
  "number_headers sample_hash 0 sample_headers =
     [\<lparr>he_height = 0, he_hash = 1 # replicate 31 0, he_header = sample_headers ! 0\<rparr>,
      \<lparr>he_height = 1, he_hash = 2 # replicate 31 0, he_header = sample_headers ! 1\<rparr>,
      \<lparr>he_height = 2, he_hash = 3 # replicate 31 0, he_header = sample_headers ! 2\<rparr>]"
  by (simp add: number_headers_def sample_defs)

lemma sample_reach: "hl_reach sample_hash sample_U sample_list"
proof (rule reach_apply[OF reach_empty])
  let ?es = "number_headers sample_hash 0 sample_headers"
  show "entries_ok sample_hash ?es" by simp
  show "he_header ` set ?es \<subseteq> sample_U"
    unfolding sample_number by (simp add: sample_headers_def)
  show "(apply_headers hl_empty ?es :: (unit, header_list) res) = Inr sample_list"
    unfolding sample_list_def Let_def sample_number
    by (simp add: apply_headers_eq adjacent_Cons sample_defs null_hash_Cons prev_hash_at_def
        hl_empty_def index_of_def)
qed

subsection \<open>Properties\<close>

text \<open>
  C13: in every reachable header list the entries form one chain (heights count up from 0,
  each entry carries its header's hash and refers to the entry below, the first one to the
  zero hash), no hash occurs twice, and the assertions of \<open>tip()\<close> and
  \<open>header_by_height\<close> never fail: they return the last hash and the entry at the height.
\<close>

theorem header_list_chain:
  assumes "hl_reach bh U hl" "hash_ok bh U"
  shows "chain_ok bh (headers hl) \<and> distinct (map he_hash (headers hl)) \<and>
    get_tip hl = (Inr (prev_hash_at (headers hl) (length (headers hl))) :: (unit, block_hash) res) \<and>
    header_by_height hl i = (Inr (if i < length (headers hl) then Some (headers hl ! i) else None)
      :: (unit, header_entry option) res)"
proof -
  have inv: "hl_inv bh hl" and sub: "he_header ` set (headers hl) \<subseteq> U"
    using hl_reach_invariants[OF assms] by auto
  then have c: "chain_ok bh (headers hl)" by (simp add: hl_inv_def)
  moreover have "distinct (map he_hash (headers hl))"
    using c hash_ok_subset[OF assms(2) sub] by (rule chain_hash_distinct)
  ultimately show ?thesis
    using inv hl_tip_prev_hash[OF inv]
    by (simp add: get_tip_def header_by_height_def hl_inv_def chain_okD)
qed

theorem header_list_chain_witness:
  "get_tip sample_list = (Inr (3 # replicate 31 0) :: (unit, block_hash) res)"
  using header_list_chain[OF sample_reach sample_hash_ok, of 0]
  by (simp add: sample_list_def Let_def sample_number prev_hash_at_def)

text \<open>
  C27: the hash lookup agrees with a linear search of the chain in every reachable list:
  the map may keep heights of abandoned blocks, yet exactly the blocks of the current chain
  are found.
\<close>

theorem header_by_blockhash_find:
  assumes "hl_reach bh U hl" "hash_ok bh U"
  shows "header_by_blockhash hl h = List.find (\<lambda>e. he_hash e = h) (headers hl)"
proof (cases "List.find (\<lambda>e. he_hash e = h) (headers hl)")
  case None
  then have "\<forall>e \<in> set (headers hl). he_hash e \<noteq> h" by (auto simp: find_None_iff)
  with hl_reach_invariants[OF assms] show ?thesis
    unfolding None by (cases "header_by_blockhash hl h") (auto simp: header_by_blockhash_Some)
next
  case (Some e)
  then have "e \<in> set (headers hl)" "he_hash e = h"
    by (auto simp: find_Some_iff)
  with Some hl_reach_invariants[OF assms] show ?thesis
    by (simp add: header_by_blockhash_Some)
qed

lemma sample_fork_number:
  "number_headers sample_hash (Suc 0) [sample_fork] =
     [\<lparr>he_height = 1, he_hash = 4 # replicate 31 0, he_header = sample_fork\<rparr>]"
  by (simp add: number_headers_def sample_defs)

text \<open>The witness looks up block 1 after the fork has replaced it.\<close>

theorem header_by_blockhash_find_witness:
  "\<exists>hl. (apply_headers sample_list (number_headers sample_hash 1 [sample_fork])
            :: (unit, header_list) res) = Inr hl \<and>
     heights hl (2 # replicate 31 0) = Some 1 \<and> header_by_blockhash hl (2 # replicate 31 0) = None"
proof -
  let ?fork = "number_headers sample_hash 1 [sample_fork]"
  note num = sample_fork_number
  obtain hl where hl: "(apply_headers sample_list ?fork :: (unit, header_list) res) = Inr hl"
      "headers hl = take 1 (headers sample_list) @ ?fork"
      "heights hl = heights sample_list ++ index_of ?fork"
    by (simp add: num apply_headers_eq sample_list_def Let_def sample_number
        prev_hash_at_def) (simp add: sample_defs)
  then have "hl_reach sample_hash sample_U hl"
    by (intro reach_apply[OF sample_reach _ _ hl(1)])
      (simp_all add: num entries_ok_def, simp add: sample_defs)
  from header_by_blockhash_find[OF this sample_hash_ok, of "2 # replicate 31 0"] hl show ?thesis
    by (auto simp: num sample_list_def Let_def sample_number index_of_def)
qed

text \<open>
  A run of headers that \<open>order\<close> accepts is always applied: \<open>apply\<close> neither panics nor
  ignores it, cuts the chain right above the block the run refers to (a reorganisation) and
  appends exactly the run, whose last hash becomes the tip.
\<close>

lemma order_then_apply:
  assumes "hl_reach bh U hl" "hash_ok bh U"
    and "order_headers bh hl hs = (Inr es :: (unit, header_entry list) res)" "hs \<noteq> []"
  shows "\<exists>k hl'. k \<le> length (headers hl) \<and> prev_blockhash (hd hs) = prev_hash_at (headers hl) k \<and>
    apply_headers hl es = (Inr hl' :: (unit, header_list) res) \<and>
    headers hl' = take k (headers hl) @ es \<and> map he_header es = hs \<and> hl_tip hl' = bh (last hs)"
proof -
  have inv: "hl_inv bh hl" using hl_reach_invariants[OF assms(1,2)] by simp
  have hdrs: "map he_header es = hs" using assms(3) by (rule order_headers_headers)
  then have "es \<noteq> []" using assms(4) by auto
  then have "he_hash (last es) = bh (last hs)"
    using order_headers_entries_ok[OF assms(3)] hdrs[symmetric]
    by (simp add: entries_ok_def last_map)
  then show ?thesis
    using order_then_apply_aux[OF inv assms(3,4)] hdrs by fastforce
qed

lemma order_then_apply_witness:
  "\<exists>k hl'. k \<le> length (headers sample_list) \<and>
     prev_blockhash (hd [sample_fork]) = prev_hash_at (headers sample_list) k \<and>
     apply_headers sample_list (number_headers sample_hash 1 [sample_fork])
       = (Inr hl' :: (unit, header_list) res) \<and>
     headers hl' = take k (headers sample_list) @ number_headers sample_hash 1 [sample_fork] \<and>
     map he_header (number_headers sample_hash 1 [sample_fork]) = [sample_fork] \<and>
     hl_tip hl' = sample_hash (last [sample_fork])"
  by (rule order_then_apply[OF sample_reach sample_hash_ok])
    (simp_all add: order_headers_eq header_by_blockhash_def sample_list_def Let_def sample_number
      index_of_def, simp_all add: sample_defs null_hash_Cons)

text \<open>
  C28: \<open>HeaderList::new\<close> undoes the persisting of a list: from any map that holds the
  headers of a reachable list under their hashes (with any number of orphans beside them)
  and its tip, it rebuilds the same vector and tip, without panicking.
\<close>

theorem hl_new_rebuilds:
  assumes "hl_reach bh U hl" "hash_ok bh U"
    and "\<forall>e \<in> set (headers hl). map_of m (he_hash e) = Some (he_header e)"
  shows "\<exists>hl'. hl_new bh m (hl_tip hl) = (Inr hl' :: (unit, header_list) res) \<and>
    headers hl' = headers hl \<and> hl_tip hl' = hl_tip hl"
  using hl_reach_invariants[OF assms(1,2)] hash_ok_subset[OF assms(2)]
    hl_new_rebuild_aux[OF _ _ assms(3), where bh = bh]
  by auto

theorem hl_new_rebuilds_witness:
  "\<exists>hl'. hl_new sample_hash
       ((4 # replicate 31 0, sample_fork) #
        map (\<lambda>e. (he_hash e, he_header e)) (headers sample_list)) (hl_tip sample_list)
     = (Inr hl' :: (unit, header_list) res) \<and>
     headers hl' = headers sample_list \<and> hl_tip hl' = hl_tip sample_list"
  by (rule hl_new_rebuilds[OF sample_reach sample_hash_ok])
    (simp add: sample_list_def Let_def sample_number)

text \<open>
  Whatever map and tip \<open>HeaderList::new\<close> is given, a list it returns is a valid chain
  made of headers of the map only, and ends in the requested tip if the map files headers
  under their own hashes.
\<close>

lemma hl_new_sound:
  assumes "hl_new bh m tip = (Inr hl :: (unit, header_list) res)"
  shows "hl_inv bh hl \<and> he_header ` set (headers hl) \<subseteq> snd ` set m \<and>
    ((\<forall>(k, h) \<in> set m. bh h = k) \<longrightarrow> hl_tip hl = tip)"
proof -
  obtain ch es where w: "walk_map m tip [] = (Inr ch :: (unit, block_header list) res)"
    and o: "order_headers bh hl_empty (rev ch) = (Inr es :: (unit, header_entry list) res)"
    and a: "apply_headers hl_empty es = (Inr hl :: (unit, header_list) res)"
    using assms by (auto simp: hl_new_def res_simps)
  have hdrs: "map he_header es = rev ch" using o by (rule order_headers_headers)
  have sub: "set ch \<subseteq> snd ` set m" and
    tip: "(tip = null_hash \<longrightarrow> ch = []) \<and> (tip \<noteq> null_hash \<longrightarrow> ch \<noteq> [] \<and> map_of m tip = Some (hd ch))"
    using walk_map_Inr[OF w] by auto
  have inv: "hl_inv bh hl"
    using apply_headers_inv[OF _ order_headers_entries_ok[OF o] a] by simp
  have hs: "he_header ` set (headers hl) \<subseteq> snd ` set m"
  proof -
    have "he_header ` set es = set ch" using hdrs by (metis set_map set_rev)
    moreover have "set (headers hl) \<subseteq> set es"
      using apply_headers_subset[OF a] by (simp add: hl_empty_def)
    ultimately show ?thesis using sub by blast
  qed
  have "hl_tip hl = tip" if keyed: "\<forall>(k, h) \<in> set m. bh h = k"
  proof (cases "ch = []")
    case True
    with tip a hdrs show ?thesis by (auto simp: apply_headers_eq hl_empty_def)
  next
    case False
    with order_then_apply_aux[OF hl_empty_inv(1) o] a have "hl_tip hl = he_hash (last es)" by auto
    also have "\<dots> = bh (hd ch)"
      using order_headers_entries_ok[OF o] hdrs False
      by (metis entries_ok_def last_in_set last_map last_rev map_is_Nil_conv rev_is_Nil_conv)
    also have "\<dots> = tip"
      using False tip keyed by (auto dest!: map_of_SomeD)
    finally show ?thesis .
  qed
  with inv hs show ?thesis by blast
qed

lemma hl_new_sound_witness:
  "\<exists>hl. hl_new sample_hash [(1 # replicate 31 0, hd sample_headers)] (1 # replicate 31 0)
     = (Inr hl :: (unit, header_list) res) \<and> hl_tip hl = 1 # replicate 31 0"
proof -
  let ?m = "[(1 # replicate 31 0, hd sample_headers)]"
  obtain hl where hl: "hl_new sample_hash ?m (1 # replicate 31 0) = (Inr hl :: (unit, header_list) res)"
    by (simp add: hl_new_def walk_map.simps order_headers_eq apply_headers_eq sample_defs
        null_hash_Cons number_headers_def prev_hash_at_def)
  with hl_new_sound[OF hl] show ?thesis by (auto simp: sample_defs)
qed

text \<open>
  For a height of the chain other than 0, \<open>get_mtp\<close> is the median of the timestamps of
  the block and its (up to ten) predecessors: one of them, with at most half of them (rounded
  down) smaller and at most half of them larger; above the chain it is 0.
\<close>

lemma get_mtp_median:
  assumes "0 < height" "headers hl \<noteq> []"
  shows "if height < length (headers hl)
    then \<exists>t. get_mtp hl height = (Inr t :: (unit, u32) res) \<and> t \<in> set (mtp_window hl height) \<and>
      length (mtp_window hl height) = min (height + 1) MTP_SPAN \<and>
      length (filter (\<lambda>x. x < t) (mtp_window hl height)) \<le> min (height + 1) MTP_SPAN div 2 \<and>
      length (filter (\<lambda>x. t < x) (mtp_window hl height)) \<le> min (height + 1) MTP_SPAN div 2
    else get_mtp hl height = (Inr 0 :: (unit, u32) res)"
  using get_mtp_median_aux[OF refl refl, of hl height] assms
  by (auto simp: get_mtp_def Let_def length_mtp_window)

lemma get_mtp_median_witness:
  "get_mtp sample_list 2 = (Inr 102 :: (unit, u32) res)"
proof -
  have "[0..<3] = [0, 1, 2 :: nat]" by (simp add: numeral_3_eq_3 numeral_2_eq_2)
  then have w: "mtp_window sample_list 2 = [101, 102, 103]"
    by (simp add: sample_list_def Let_def sample_number mtp_window_def MTP_SPAN_def)
      (simp add: sample_defs)
  have "headers sample_list \<noteq> []" "2 < length (headers sample_list)"
    by (simp_all add: sample_list_def Let_def sample_number)
  with get_mtp_median[of 2 sample_list] obtain t where
    t: "get_mtp sample_list 2 = (Inr t :: (unit, u32) res)" "t \<in> {101, 102, 103}"
       "length (filter (\<lambda>x. x < t) [101, 102, 103]) \<le> 1"
       "length (filter (\<lambda>x. t < x) [101, 102, 103]) \<le> 1"
    by (auto simp: w MTP_SPAN_def)
  then show ?thesis by (auto split: if_splits)
qed

end
