(* ===== verification/Header_Refinement.thy ===== *)
theory Header_Refinement
  imports Header_List
begin

text \<open>
  What \<open>HeaderList\<close> promises: it is one chain of headers that only grows by runs linked to one of its
  blocks. The vector of entries, the map and the tip of the code refine a plain list of headers.
\<close>

subsection \<open>The abstract chain\<close>

definition abs_chain :: "header_list \<Rightarrow> block_header list" where
  "abs_chain hl = map he_header (headers hl)"

text \<open>The part of a chain up to the block with a hash.\<close>

fun upto_block :: "(block_header \<Rightarrow> block_hash) \<Rightarrow> block_hash \<Rightarrow> block_header list \<Rightarrow> block_header list option" where
  "upto_block bh b [] = None"
| "upto_block bh b (h # hs) = (if bh h = b then Some [h] else map_option ((#) h) (upto_block bh b hs))"

text \<open>
  A run extends a chain if it is linked and its first header refers to the zero hash or to a block
  of the chain: what is above that block is abandoned.
\<close>

definition spec_extend ::
    "(block_header \<Rightarrow> block_hash) \<Rightarrow> block_header list \<Rightarrow> block_header list \<Rightarrow> block_header list option" where
  "spec_extend bh chain hs =
     (if \<not> adjacent (\<lambda>a b. prev_blockhash b = bh a) hs then None
      else if hs = [] then Some chain
      else if prev_blockhash (hd hs) = null_hash then Some hs
      else map_option (\<lambda>base. base @ hs) (upto_block bh (prev_blockhash (hd hs)) chain))"

definition spec_tip :: "(block_header \<Rightarrow> block_hash) \<Rightarrow> block_header list \<Rightarrow> block_hash" where
  "spec_tip bh chain = (if chain = [] then null_hash else bh (last chain))"

text \<open>The two steps of the code: the run is ordered, then applied.\<close>

definition extend ::
    "(block_header \<Rightarrow> block_hash) \<Rightarrow> header_list \<Rightarrow> block_header list \<Rightarrow> (unit, header_list) res" where
  "extend bh hl hs = bind_res (order_headers bh hl hs) (apply_headers hl)"

definition succeeded :: "(unit, 'a) res \<Rightarrow> 'a option" where
  "succeeded r = (case r of Inr a \<Rightarrow> Some a | Inl _ \<Rightarrow> None)"

subsection \<open>Lemmas\<close>

lemma upto_block_None: "upto_block bh b hs = None \<longleftrightarrow> b \<notin> bh ` set hs"
  by (induction hs) auto

lemma upto_block_take:
  assumes "i < length hs" "bh (hs ! i) = b" "\<forall>j < i. bh (hs ! j) \<noteq> b"
  shows "upto_block bh b hs = Some (take (Suc i) hs)"
  using assms
proof (induction hs arbitrary: i)
  case (Cons h hs)
  show ?case
  proof (cases i)
    case (Suc j)
    have "\<forall>j' < j. bh (hs ! j') \<noteq> b" using Cons.prems(3) Suc by (metis Suc_mono nth_Cons_Suc)
    moreover have "bh h \<noteq> b" using Cons.prems(3) Suc by fastforce
    ultimately show ?thesis using Cons.IH[of j] Cons.prems(1,2) Suc by simp
  qed (use Cons.prems in simp)
qed simp

lemma upto_block_lookup:
  assumes "chain_ok bh (headers hl)" "hl_indexed hl" "hash_ok bh (he_header ` set (headers hl))"
  shows "upto_block bh b (abs_chain hl) =
    map_option (\<lambda>e. take (Suc (he_height e)) (abs_chain hl)) (header_by_blockhash hl b)"
proof (cases "header_by_blockhash hl b")
  case None
  have "b \<notin> bh ` set (abs_chain hl)"
  proof
    assume "b \<in> bh ` set (abs_chain hl)"
    then obtain i where i: "i < length (headers hl)" "b = bh (he_header (headers hl ! i))"
      by (auto simp: abs_chain_def in_set_conv_nth)
    then have "he_hash (headers hl ! i) = b" using assms(1) by (simp add: chain_okD(2))
    with None i(1) header_by_blockhash_Some[OF assms(2), of b "headers hl ! i"] show False by simp
  qed
  with None show ?thesis by (simp add: upto_block_None[THEN iffD2])
next
  case (Some e)
  then obtain i where i: "i < length (headers hl)" "e = headers hl ! i" "he_hash e = b"
    using header_by_blockhash_sound by blast
  have b: "bh (abs_chain hl ! j) = he_hash (headers hl ! j)" if "j < length (headers hl)" for j
    using that assms(1) by (simp add: abs_chain_def chain_okD(2))
  have "\<forall>j < i. bh (abs_chain hl ! j) \<noteq> b"
    using chain_hash_inj[OF assms(1,3) i(1)] i b by (metis less_trans less_irrefl)
  with i b[OF i(1)] upto_block_take[of i "abs_chain hl" bh b] have
    "upto_block bh b (abs_chain hl) = Some (take (Suc i) (abs_chain hl))" by (simp add: abs_chain_def)
  with Some i assms(1) show ?thesis by (simp add: chain_okD(1))
qed

subsection \<open>Refinement\<close>

text \<open>
  C2: \<open>HeaderList\<close> refines the abstract chain: ordering and applying a run of headers gives exactly the
  chain the specification extends, panics exactly if the specification refuses the run, and the
  tip is the last block's hash.
\<close>

theorem extend_refines:
  assumes "hl_reach bh U hl" "hash_ok bh U"
  shows "map_option abs_chain (succeeded (extend bh hl hs)) = spec_extend bh (abs_chain hl) hs \<and>
    get_tip hl = (Inr (spec_tip bh (abs_chain hl)) :: (unit, block_hash) res)"
proof -
  have inv: "hl_inv bh hl" "hl_indexed hl" "he_header ` set (headers hl) \<subseteq> U"
    using hl_reach_invariants[OF assms] by auto
  then have chain: "chain_ok bh (headers hl)" by (simp add: hl_inv_def)
  have lookup: "upto_block bh b (abs_chain hl) =
      map_option (\<lambda>e. take (Suc (he_height e)) (abs_chain hl)) (header_by_blockhash hl b)" for b
    using upto_block_lookup[OF chain inv(2) hash_ok_subset[OF assms(2) inv(3)]] .
  have tip: "get_tip hl = (Inr (spec_tip bh (abs_chain hl)) :: (unit, block_hash) res)"
    using inv(1) chain chain_okD(2)[OF chain, of "length (headers hl) - 1"]
    by (auto simp: get_tip_def assert_res_def hl_inv_def spec_tip_def abs_chain_def last_conv_nth)
  have nil: "order_headers bh hl hs = (Inl f :: (unit, header_entry list) res) \<Longrightarrow>
      spec_extend bh (abs_chain hl) hs = None" for f
    by (auto simp: order_headers_eq spec_extend_def lookup split: if_splits option.splits)
  show ?thesis
  proof (cases "order_headers bh hl hs :: (unit, header_entry list) res")
    case (Inl f)
    with nil tip show ?thesis by (simp add: extend_def succeeded_def)
  next
    case (Inr es)
    show ?thesis
    proof (cases "hs = []")
      case True
      with Inr tip show ?thesis
        by (simp add: order_headers_eq extend_def succeeded_def apply_headers_eq spec_extend_def)
    next
      case False
      obtain k where k: "apply_headers hl es = (Inr \<lparr>headers = take k (headers hl) @ es,
          heights = heights hl ++ index_of es, hl_tip = he_hash (last es)\<rparr> :: (unit, header_list) res)"
        "he_height (hd es) = k"
        using order_then_apply_aux[OF inv(1) Inr False] by blast
      have "map he_header es = hs" using order_headers_headers[OF Inr] .
      with k Inr have "map_option abs_chain (succeeded (extend bh hl hs)) = Some (take k (abs_chain hl) @ hs)"
        by (simp add: extend_def succeeded_def abs_chain_def take_map)
      moreover have "spec_extend bh (abs_chain hl) hs = Some (take k (abs_chain hl) @ hs)"
        using Inr False k(2)
        by (auto simp: order_headers_eq spec_extend_def lookup hd_conv_nth split: if_splits option.splits)
      ultimately show ?thesis using tip by simp
    qed
  qed
qed

theorem extend_refines_witness:
  "map_option abs_chain (succeeded (extend sample_hash sample_list [sample_fork])) =
     Some [sample_headers ! 0, sample_fork]"
proof -
  have c: "abs_chain sample_list = sample_headers"
    by (simp add: abs_chain_def sample_list_def Let_def)
  show ?thesis
    using extend_refines[OF sample_reach sample_hash_ok, of "[sample_fork]"] unfolding c
    by (simp add: spec_extend_def sample_defs null_hash_Cons)
qed

end
