(* ===== verification/Node_Config.thy ===== *)
theory Node_Config
  imports Spv_Prelude
begin

text \<open>
  \<open>types.rs\<close> and \<open>config.rs\<close>: the networks and their names, the parameters of a Merkle
  proof request, and the service switches that \<open>--start-filter\<close> sets. The other fields of
  the command line are plain data handed to clients outside the repository.
\<close>

subsection \<open>Networks\<close>

datatype network =
    Bitcoin | Testnet | Testnet4 | Fractal | Regtest | Signet
  | DogecoinMainnet | DogecoinTestnet | DogecoinRegtest

fun network_to_string :: "network \<Rightarrow> string" where
  "network_to_string Bitcoin = ''bitcoin''"
| "network_to_string Testnet = ''testnet''"
| "network_to_string Testnet4 = ''testnet4''"
| "network_to_string Fractal = ''fractal''"
| "network_to_string DogecoinMainnet = ''dogecoin_mainnet''"
| "network_to_string DogecoinTestnet = ''dogecoin_testnet''"
| "network_to_string DogecoinRegtest = ''dogecoin_regtest''"
| "network_to_string Regtest = ''regtest''"
| "network_to_string Signet = ''signet''"

definition network_from_str :: "string \<Rightarrow> (string, network) res" where
  "network_from_str s =
     (if s = ''bitcoin'' then Inr Bitcoin
      else if s = ''testnet'' then Inr Testnet
      else if s = ''testnet4'' then Inr Testnet4
      else if s = ''fractal'' then Inr Fractal
      else if s = ''regtest'' then Inr Regtest
      else if s = ''signet'' then Inr Signet
      else if s = ''dogecoin_mainnet'' then Inr DogecoinMainnet
      else if s = ''dogecoin_testnet'' then Inr DogecoinTestnet
      else if s = ''dogecoin_regtest'' then Inr DogecoinRegtest
      else Inl (Err (''Unknown log level: '' @ s)))"

text \<open>The values the two command-line options accept before they are parsed and unwrapped.\<close>

definition btc_network_values :: "string list" where
  "btc_network_values = [''bitcoin'', ''testnet'', ''testnet4'', ''fractal'', ''regtest'', ''signet'']"

definition doge_network_values :: "string list" where
  "doge_network_values = [''dogecoin_mainnet'', ''dogecoin_testnet'', ''dogecoin_regtest'']"

text \<open>
  The order the source derives for \<open>Network\<close>: that of the declaration.
\<close>

fun network_index :: "network \<Rightarrow> nat" where
  "network_index Bitcoin = 0"
| "network_index Testnet = 1"
| "network_index Testnet4 = 2"
| "network_index Fractal = 3"
| "network_index Regtest = 4"
| "network_index Signet = 5"
| "network_index DogecoinMainnet = 6"
| "network_index DogecoinTestnet = 7"
| "network_index DogecoinRegtest = 8"

lemma network_index_inj: "network_index a = network_index b \<Longrightarrow> a = b"
  by (cases a; cases b) simp_all

instantiation network :: linorder
begin

definition less_eq_network :: "network \<Rightarrow> network \<Rightarrow> bool" where
  "less_eq_network a b = (network_index a \<le> network_index b)"

definition less_network :: "network \<Rightarrow> network \<Rightarrow> bool" where
  "less_network a b = (network_index a < network_index b)"

instance
  by standard (auto simp: less_eq_network_def less_network_def intro: network_index_inj)

end

subsection \<open>Merkle proof requests\<close>

datatype proof_chain = BitCoin | DogeCoin

type_synonym txid = bytes

record merkle_proof_param =
  mp_txids :: "txid list"
  mp_blockhash :: "block_hash option"
  mp_chain :: proof_chain

definition merkle_proof_param_new ::
    "txid list \<Rightarrow> block_hash option \<Rightarrow> proof_chain \<Rightarrow> merkle_proof_param" where
  "merkle_proof_param_new txids blockhash chain =
     \<lparr>mp_txids = txids, mp_blockhash = blockhash, mp_chain = chain\<rparr>"

text \<open>
  The request parameters as JSON; \<open>show_hash\<close> is the display of a 32-byte hash.
\<close>

definition merkle_proof_param_to_string ::
    "'v json_api \<Rightarrow> (bytes \<Rightarrow> string) \<Rightarrow> merkle_proof_param \<Rightarrow> 'v" where
  "merkle_proof_param_to_string J show_hash param =
     (let txids_string = jarr J (map (\<lambda>txid. jstr J (show_hash txid)) (mp_txids param))
      in case mp_blockhash param of
           Some hash \<Rightarrow> jarr J [txids_string, jstr J (show_hash hash)]
         | None \<Rightarrow> jarr J [txids_string])"

subsection \<open>Services\<close>

record service =
  sv_btc :: bool
  sv_eth :: bool
  sv_op :: bool
  sv_doge :: bool
  sv_sol :: bool

definition service_default :: service where
  "service_default =
     \<lparr>sv_btc = False, sv_eth = False, sv_op = False, sv_doge = False, sv_sol = False\<rparr>"

text \<open>\<open>str::split\<close> with a character: the fields between separators, at least one.\<close>

fun split_char :: "char \<Rightarrow> string \<Rightarrow> string list" where
  "split_char c [] = [[]]"
| "split_char c (x # xs) =
     (if x = c then [] # split_char c xs
      else (case split_char c xs of
              [] \<Rightarrow> [[x]]
            | field # rest \<Rightarrow> (x # field) # rest))"

definition start_filter :: "string \<Rightarrow> string list" where
  "start_filter config = split_char (CHR '','') config"

definition start_service_step :: "service \<Rightarrow> string \<Rightarrow> service" where
  "start_service_step service s =
     (if s = ''btc'' then service\<lparr>sv_btc := True\<rparr>
      else if s = ''eth'' then service\<lparr>sv_eth := True\<rparr>
      else if s = ''op'' then service\<lparr>sv_op := True\<rparr>
      else if s = ''doge'' then service\<lparr>sv_doge := True\<rparr>
      else if s = ''sol'' then service\<lparr>sv_sol := True\<rparr>
      else service)"

definition start_services :: "string list \<Rightarrow> service" where
  "start_services se = foldl start_service_step service_default se"

subsection \<open>Lemmas\<close>

lemma split_char_not_Nil [simp]: "split_char c s \<noteq> []"
  by (induction s) (auto split: list.split)

lemma split_char_fields: "f \<in> set (split_char c s) \<Longrightarrow> c \<notin> set f"
  by (induction s arbitrary: f) (auto split: list.splits if_splits)

fun join_char :: "char \<Rightarrow> string list \<Rightarrow> string" where
  "join_char c [] = []"
| "join_char c [x] = x"
| "join_char c (x # y # ys) = x @ c # join_char c (y # ys)"

lemma join_char_Cons: "xs \<noteq> [] \<Longrightarrow> join_char c (x # xs) = x @ c # join_char c xs"
  by (cases xs) auto

lemma join_split_char: "join_char c (split_char c s) = s"
proof (induction s)
  case (Cons x s)
  show ?case
  proof (cases "split_char c s")
    case (Cons f fs)
    with Cons.IH show ?thesis by (cases fs) (auto simp: join_char_Cons)
  qed simp
qed simp

lemma split_char_append:
  "c \<notin> set f \<Longrightarrow> split_char c (f @ c # s) = f # split_char c s"
  by (induction f) auto

lemma split_char_single: "c \<notin> set f \<Longrightarrow> split_char c f = [f]"
  by (induction f) auto

lemma split_join_char:
  "fs \<noteq> [] \<Longrightarrow> \<forall>f \<in> set fs. c \<notin> set f \<Longrightarrow> split_char c (join_char c fs) = fs"
  by (induction c fs rule: join_char.induct) (auto simp: split_char_single split_char_append)

lemma start_services_foldl:
  "foldl start_service_step sv se =
     \<lparr>sv_btc = sv_btc sv \<or> ''btc'' \<in> set se, sv_eth = sv_eth sv \<or> ''eth'' \<in> set se,
      sv_op = sv_op sv \<or> ''op'' \<in> set se, sv_doge = sv_doge sv \<or> ''doge'' \<in> set se,
      sv_sol = sv_sol sv \<or> ''sol'' \<in> set se\<rparr>"
  by (induction se arbitrary: sv) (auto simp: start_service_step_def)

subsection \<open>Properties\<close>

text \<open>
  Parsing is the inverse of printing on network names: every network parses from its
  printed name, and nothing else parses to it, so an unknown name is an error.
\<close>

lemma network_parse_print:
  "network_from_str s = Inr n \<longleftrightarrow> s = network_to_string n"
  by (cases n) (auto simp: network_from_str_def)

text \<open>
  The value lists of the two command-line options make the \<open>unwrap\<close> of the parse safe
  and keep the chains apart: an accepted value parses, to a Bitcoin network for the first
  option and to a Dogecoin network for the second, and every network is accepted by exactly
  one of them.
\<close>

lemma network_options_safe:
  "(s \<in> set btc_network_values) = (\<exists>n. network_from_str s = Inr n \<and> n < DogecoinMainnet) \<and>
   (s \<in> set doge_network_values) = (\<exists>n. network_from_str s = Inr n \<and> DogecoinMainnet \<le> n)"
  by (auto simp: network_from_str_def btc_network_values_def doge_network_values_def
      less_network_def less_eq_network_def split: if_splits)

text \<open>
  Splitting \<open>--start-filter\<close> at commas loses nothing, and a service is switched on
  exactly if its name is one of the fields; unknown fields have no effect.
\<close>

lemma start_filter_services:
  "join_char (CHR '','') (start_filter s) = s \<and>
   start_services (start_filter s) =
     \<lparr>sv_btc = ''btc'' \<in> set (start_filter s), sv_eth = ''eth'' \<in> set (start_filter s),
      sv_op = ''op'' \<in> set (start_filter s), sv_doge = ''doge'' \<in> set (start_filter s),
      sv_sol = ''sol'' \<in> set (start_filter s)\<rparr>"
  by (simp add: start_filter_def start_services_def join_split_char start_services_foldl
      service_default_def)

end
