(* ===== verification/Daemon.thy ===== *)
theory Daemon
  imports Header_List Node_Config
begin

text \<open>
  \<open>daemon.rs\<close>: the JSON-RPC client of a Bitcoin or Dogecoin full node. The state is the
  request counter and the node with the network in between, an arbitrary type \<open>'w\<close> that the
  transport \<open>send\<close> (one HTTP POST) changes. The JSON library is the argument \<open>J\<close>, the
  parsing and hashing functions of the Bitcoin library the argument \<open>B\<close>. An error string
  is a constructor of \<open>rpc_error\<close> with the values the source prints into it.
\<close>

subsection \<open>Interfaces\<close>

record 'pmt merkle_block =
  mb_header :: block_header
  mb_txn :: 'pmt

text \<open>
  The Bitcoin library. \<open>de_*\<close> are \<open>consensus::deserialize\<close> on a whole buffer (None for
  a parse error), \<open>dec_*\<close> are \<open>consensus_decode\<close> on a cursor: the value and the bytes
  left after it, or an error message.
\<close>

record ('tx, 'pmt) bitcoin_api =
  block_hash_of :: "block_header \<Rightarrow> block_hash"
  show_hash :: "bytes \<Rightarrow> string"
  hash_from_str :: "string \<Rightarrow> block_hash option"
  hex_decode :: "string \<Rightarrow> bytes option"
  de_header :: "bytes \<Rightarrow> block_header option"
  de_merkleblock :: "bytes \<Rightarrow> 'pmt merkle_block option"
  dec_header :: "bytes \<Rightarrow> string + block_header \<times> bytes"
  dec_tx :: "bytes \<Rightarrow> string + 'tx \<times> bytes"
  dec_hash :: "bytes \<Rightarrow> string + block_hash \<times> bytes"
  dec_varint :: "bytes \<Rightarrow> string + u64 \<times> bytes"
  dec_i32 :: "bytes \<Rightarrow> string + u32 \<times> bytes"
  dec_pmt :: "bytes \<Rightarrow> string + 'pmt \<times> bytes"

datatype 'v rpc_error =
    Transport string
  | RpcWarmup 'v
  | RpcFailed string 'v
  | NoId 'v
  | WrongId string 'v u64
  | NoResult 'v
  | NonObject 'v
  | NonArray 'v
  | NonString string 'v
  | NonHex string
  | ParseFailed string string
  | HeaderTooShort
  | DecodeFailed string
  | HeaderFailed block_hash

record 'w daemon =
  dm_network :: network
  dm_message_id :: u64
  dm_node :: 'w

type_synonym ('w, 'v) transport = "'w \<Rightarrow> 'v \<Rightarrow> (string + 'v) \<times> 'w"

subsection \<open>JSON-RPC\<close>

definition counter_next :: "'w daemon \<Rightarrow> u64 \<times> 'w daemon" where
  "counter_next d = (dm_message_id d + 1, d\<lparr>dm_message_id := dm_message_id d + 1\<rparr>)"

definition parse_error_code :: "'v json_api \<Rightarrow> 'v \<Rightarrow> int option" where
  "parse_error_code J err =
     (if jis_object J err
      then Option.bind (jget J err ''code'') (jas_i64 J)
      else None)"

definition parse_jsonrpc_reply ::
    "'v json_api \<Rightarrow> 'v \<Rightarrow> string \<Rightarrow> u64 \<Rightarrow> ('v rpc_error, 'v) res" where
  "parse_jsonrpc_reply J reply method expected_id =
     (if jis_object J reply then
        bind_res
          (case jget J reply ''error'' of
             None \<Rightarrow> Inr ()
           | Some err \<Rightarrow>
               if jis_null J err then Inr ()
               else (case parse_error_code J err of
                       None \<Rightarrow> Inr ()
                     | Some code \<Rightarrow>
                         if code = -28 then Inl (Err (RpcWarmup err))
                         else Inl (Err (RpcFailed method err)))) (\<lambda>_.
        bind_res (ok_or (NoId reply) (jget J reply ''id'')) (\<lambda>reply_id.
        if \<not> jeq_u64 J reply_id expected_id then Inl (Err (WrongId method reply_id expected_id))
        else ok_or (NoResult reply) (jget J reply ''result'')))
      else Inl (Err (NonObject reply)))"

definition mk_request :: "'v json_api \<Rightarrow> string \<Rightarrow> u64 \<Rightarrow> 'v \<Rightarrow> 'v" where
  "mk_request J method rid params =
     jobj J [(''jsonrpc'', jstr J ''2.0''), (''method'', jstr J method),
             (''params'', params), (''id'', ju64 J rid)]"

text \<open>
  The loop over the replies of one chunk: the accepted results so far and the number of
  failed requests; one failure more than \<open>threshold\<close> ends it with that error.
\<close>

fun parse_replies ::
    "'v json_api \<Rightarrow> string \<Rightarrow> u64 \<Rightarrow> nat \<Rightarrow> 'v list \<Rightarrow> 'v list \<times> nat
      \<Rightarrow> ('v rpc_error, 'v list \<times> nat) res" where
  "parse_replies J method rid threshold [] (results, failed) = Inr (results, failed)"
| "parse_replies J method rid threshold (reply # replies) (results, failed) =
     (case parse_jsonrpc_reply J reply method rid of
        Inr parsed_reply \<Rightarrow>
          parse_replies J method rid threshold replies (results @ [parsed_reply], failed)
      | Inl e \<Rightarrow>
          if failed + 1 > threshold then Inl e
          else parse_replies J method rid threshold replies (results, failed + 1))"

fun send_chunks ::
    "'v json_api \<Rightarrow> ('w, 'v) transport \<Rightarrow> string \<Rightarrow> u64 \<Rightarrow> nat \<Rightarrow> 'v list list
      \<Rightarrow> 'v list \<times> nat \<Rightarrow> ('w, 'v rpc_error, 'v list) act" where
  "send_chunks J send method rid threshold [] (results, failed) w = (Inr results, w)"
| "send_chunks J send method rid threshold (reqs # rest) (results, failed) w =
     (case send w (jarr J reqs) of
        (Inl e, w') \<Rightarrow> (Inl (Err (Transport e)), w')
      | (Inr replies, w') \<Rightarrow>
          (case jas_array J replies of
             None \<Rightarrow> (Inl (Err (NonArray replies)), w')
           | Some replies_vec \<Rightarrow>
               (case parse_replies J method rid threshold replies_vec (results, failed) of
                  Inl e \<Rightarrow> (Inl e, w')
                | Inr acc \<Rightarrow> send_chunks J send method rid threshold rest acc w')))"

text \<open>
  \<open>threshold\<close> is the rounded product of the failure threshold and the number of requests;
  both callers pass the failure threshold 0.0, which makes it 0.
\<close>

definition handle_request_batch ::
    "'v json_api \<Rightarrow> ('w, 'v) transport \<Rightarrow> string \<Rightarrow> 'v list \<Rightarrow> nat
      \<Rightarrow> ('w daemon, 'v rpc_error, 'v list) act" where
  "handle_request_batch J send method params_list threshold d =
     (let (rid, d) = counter_next d;
          chunk_list = chunks 10000 (map (mk_request J method rid) params_list);
          (r, w) = send_chunks J send method rid threshold chunk_list ([], 0) (dm_node d)
      in (r, d\<lparr>dm_node := w\<rparr>))"

definition request ::
    "'v json_api \<Rightarrow> ('w, 'v) transport \<Rightarrow> string \<Rightarrow> 'v \<Rightarrow> ('w daemon, 'v rpc_error, 'v) act" where
  "request J send method params =
     bind_act (handle_request_batch J send method [params] 0) (\<lambda>values.
       ret_act (bind_res (assert_res ''request: one value'' (length values = 1))
         (\<lambda>_. Inr (hd values))))"

definition requests ::
    "'v json_api \<Rightarrow> ('w, 'v) transport \<Rightarrow> string \<Rightarrow> 'v list
      \<Rightarrow> ('w daemon, 'v rpc_error, 'v list) act" where
  "requests J send method params_list = handle_request_batch J send method params_list 0"

subsection \<open>Decoding replies\<close>

definition parse_hash ::
    "'v json_api \<Rightarrow> ('tx, 'pmt) bitcoin_api \<Rightarrow> 'v \<Rightarrow> ('v rpc_error, block_hash) res" where
  "parse_hash J B value =
     bind_res (ok_or (NonString ''value'' value) (jas_str J value)) (\<lambda>i.
       ok_or (NonHex ''value'') (hash_from_str B i))"

definition header_from_value ::
    "'v json_api \<Rightarrow> ('tx, 'pmt) bitcoin_api \<Rightarrow> 'v \<Rightarrow> ('v rpc_error, block_header) res" where
  "header_from_value J B value =
     bind_res (ok_or (NonString ''header'' value) (jas_str J value)) (\<lambda>header_hex.
     bind_res (ok_or (NonHex ''header'') (hex_decode B header_hex)) (\<lambda>header_bytes.
       ok_or (ParseFailed ''header'' header_hex) (de_header B header_bytes)))"

definition header_from_value_fractal_or_doge ::
    "'v json_api \<Rightarrow> ('tx, 'pmt) bitcoin_api \<Rightarrow> 'v \<Rightarrow> ('v rpc_error, block_header) res" where
  "header_from_value_fractal_or_doge J B value =
     bind_res (ok_or (NonString ''header'' value) (jas_str J value)) (\<lambda>header_hex.
     bind_res (ok_or (NonHex ''header'') (hex_decode B header_hex)) (\<lambda>header_bytes.
       if length header_bytes < 80 then Inl (Err HeaderTooShort)
       else ok_or (ParseFailed ''header'' header_hex) (de_header B (take 80 header_bytes))))"

definition merkleblock_from_value ::
    "'v json_api \<Rightarrow> ('tx, 'pmt) bitcoin_api \<Rightarrow> 'v \<Rightarrow> ('v rpc_error, 'pmt merkle_block) res" where
  "merkleblock_from_value J B value =
     bind_res (ok_or (NonString ''MerkleBlock'' value) (jas_str J value)) (\<lambda>mb_hex.
     bind_res (ok_or (NonHex ''MerkleBlock'') (hex_decode B mb_hex)) (\<lambda>mb_bytes.
       ok_or (ParseFailed ''MerkleBlock'' mb_hex) (de_merkleblock B mb_bytes)))"

text \<open>A cursor decode as a stateful call on the bytes left.\<close>

definition cur :: "(bytes \<Rightarrow> string + 'a \<times> bytes) \<Rightarrow> (bytes, 'v rpc_error, 'a) act" where
  "cur dec bs = (case dec bs of
      Inl err \<Rightarrow> (Inl (Err (DecodeFailed err)), bs)
    | Inr (x, rest) \<Rightarrow> (Inr x, rest))"

fun skip_hashes :: "('tx, 'pmt) bitcoin_api \<Rightarrow> nat \<Rightarrow> (bytes, 'v rpc_error, unit) act" where
  "skip_hashes B 0 = ret_act (Inr ())"
| "skip_hashes B (Suc n) = bind_act (cur (dec_hash B)) (\<lambda>_. skip_hashes B n)"

definition VERSION_FLAG_AUXPOW :: u32 where
  "VERSION_FLAG_AUXPOW = push_bit 8 1"

definition skip_auxpow :: "('tx, 'pmt) bitcoin_api \<Rightarrow> (bytes, 'v rpc_error, unit) act" where
  "skip_auxpow B =
     bind_act (cur (dec_tx B)) (\<lambda>parent_coinbase_tx.
     bind_act (cur (dec_hash B)) (\<lambda>parent_blockhash.
     bind_act (cur (dec_varint B)) (\<lambda>coinbase_merkle_branch_len.
     bind_act (skip_hashes B (unat coinbase_merkle_branch_len)) (\<lambda>_.
     bind_act (cur (dec_i32 B)) (\<lambda>coinbase_merkle_branch_size_mask.
     bind_act (cur (dec_varint B)) (\<lambda>blockchain_merkle_branch_len.
     bind_act (skip_hashes B (unat blockchain_merkle_branch_len)) (\<lambda>_.
     bind_act (cur (dec_i32 B)) (\<lambda>blockchain_merkle_branch_size_mask.
     bind_act (cur (dec_header B)) (\<lambda>parent_block_header.
       ret_act (Inr ()))))))))))"

definition doge_merkleblock_from_value ::
    "'v json_api \<Rightarrow> ('tx, 'pmt) bitcoin_api \<Rightarrow> 'v \<Rightarrow> ('v rpc_error, 'pmt merkle_block) res" where
  "doge_merkleblock_from_value J B value =
     bind_res (ok_or (NonString ''MerkleBlock'' value) (jas_str J value)) (\<lambda>mb_hex.
     bind_res (ok_or (NonHex ''MerkleBlock'') (hex_decode B mb_hex)) (\<lambda>mb_bytes.
       fst (bind_act (cur (dec_header B)) (\<lambda>header.
            bind_act (if and (version header) VERSION_FLAG_AUXPOW \<noteq> 0 then skip_auxpow B
                      else ret_act (Inr ())) (\<lambda>_.
            bind_act (cur (dec_pmt B)) (\<lambda>txn.
              ret_act (Inr \<lparr>mb_header = header, mb_txn = txn\<rparr>)))) mb_bytes)))"

subsection \<open>Queries\<close>

definition merkleblock_for ::
    "'v json_api \<Rightarrow> ('tx, 'pmt) bitcoin_api \<Rightarrow> proof_chain \<Rightarrow> 'v
      \<Rightarrow> ('v rpc_error, 'pmt merkle_block) res" where
  "merkleblock_for J B chain value =
     (case chain of
        BitCoin \<Rightarrow> merkleblock_from_value J B value
      | DogeCoin \<Rightarrow> doge_merkleblock_from_value J B value)"

definition gettxoutproof ::
    "'v json_api \<Rightarrow> ('tx, 'pmt) bitcoin_api \<Rightarrow> ('w, 'v) transport \<Rightarrow> merkle_proof_param
      \<Rightarrow> ('w daemon, 'v rpc_error, 'pmt merkle_block) act" where
  "gettxoutproof J B send param =
     bind_act (request J send ''gettxoutproof''
         (merkle_proof_param_to_string J (show_hash B) param))
       (\<lambda>value. ret_act (merkleblock_for J B (mp_chain param) value))"

fun traverse_res :: "('a \<Rightarrow> ('e, 'b) res) \<Rightarrow> 'a list \<Rightarrow> ('e, 'b list) res" where
  "traverse_res f [] = Inr []"
| "traverse_res f (x # xs) =
     bind_res (f x) (\<lambda>y. bind_res (traverse_res f xs) (\<lambda>ys. Inr (y # ys)))"

definition gettxoutproofs ::
    "'v json_api \<Rightarrow> ('tx, 'pmt) bitcoin_api \<Rightarrow> ('w, 'v) transport \<Rightarrow> merkle_proof_param list
      \<Rightarrow> ('w daemon, 'v rpc_error, 'pmt merkle_block list) act" where
  "gettxoutproofs J B send params =
     (case params of
        [] \<Rightarrow> ret_act (Inl (Panic ''gettxoutproofs: index out of bounds''))
      | p # _ \<Rightarrow>
          bind_act (requests J send ''gettxoutproof''
              (map (merkle_proof_param_to_string J (show_hash B)) params))
            (\<lambda>mbs. ret_act (traverse_res (merkleblock_for J B (mp_chain p)) mbs)))"

definition getbestblockhash ::
    "'v json_api \<Rightarrow> ('tx, 'pmt) bitcoin_api \<Rightarrow> ('w, 'v) transport
      \<Rightarrow> ('w daemon, 'v rpc_error, block_hash) act" where
  "getbestblockhash J B send =
     bind_act (request J send ''getbestblockhash'' (jarr J []))
       (\<lambda>value. ret_act (parse_hash J B value))"

definition header_for ::
    "'v json_api \<Rightarrow> ('tx, 'pmt) bitcoin_api \<Rightarrow> network \<Rightarrow> 'v \<Rightarrow> ('v rpc_error, block_header) res" where
  "header_for J B n value =
     (if n \<in> {DogecoinMainnet, DogecoinTestnet, DogecoinRegtest, Fractal}
      then header_from_value_fractal_or_doge J B value
      else header_from_value J B value)"

definition getblockheader ::
    "'v json_api \<Rightarrow> ('tx, 'pmt) bitcoin_api \<Rightarrow> ('w, 'v) transport \<Rightarrow> block_hash
      \<Rightarrow> ('w daemon, 'v rpc_error, block_header) act" where
  "getblockheader J B send blockhash d =
     bind_act (request J send ''getblockheader''
         (jarr J [jstr J (show_hash B blockhash), jbool J False]))
       (\<lambda>value. ret_act (header_for J B (dm_network d) value)) d"

definition getblockheaders ::
    "'v json_api \<Rightarrow> ('tx, 'pmt) bitcoin_api \<Rightarrow> ('w, 'v) transport \<Rightarrow> nat list
      \<Rightarrow> ('w daemon, 'v rpc_error, block_header list) act" where
  "getblockheaders J B send hts d =
     bind_act (requests J send ''getblockhash''
         (map (\<lambda>height. jarr J [ju64 J (of_nat height)]) hts)) (\<lambda>hashes.
     bind_act (requests J send ''getblockheader''
         (map (\<lambda>hash. jarr J [hash, jbool J False]) hashes)) (\<lambda>hs.
       ret_act (traverse_res (header_for J B (dm_network d)) hs))) d"

text \<open>The constructor: unless it only serves electrs, the node must answer two queries.\<close>

definition daemon_new ::
    "'v json_api \<Rightarrow> ('tx, 'pmt) bitcoin_api \<Rightarrow> ('w, 'v) transport \<Rightarrow> 'w \<Rightarrow> network \<Rightarrow> bool
      \<Rightarrow> ('v rpc_error, 'w daemon) res" where
  "daemon_new J B send w network electrs_only =
     (let daemon = \<lparr>dm_network = network, dm_message_id = 0, dm_node = w\<rparr>
      in if electrs_only then Inr daemon
         else (case getbestblockhash J B send daemon of
                 (Inl _, _) \<Rightarrow> Inl (Panic ''Daemon::new: getbestblockhash'')
               | (Inr tip, daemon) \<Rightarrow>
                   (case getblockheader J B send tip daemon of
                      (Inl _, _) \<Rightarrow> Inl (Panic ''Daemon::new: getblockheader'')
                    | (Inr header, daemon) \<Rightarrow> Inr daemon)))"

subsection \<open>Downloading headers\<close>

fun header_chunks ::
    "'v json_api \<Rightarrow> ('tx, 'pmt) bitcoin_api \<Rightarrow> ('w, 'v) transport \<Rightarrow> nat list list
      \<Rightarrow> block_header list \<Rightarrow> ('w daemon, 'v rpc_error, block_header list) act" where
  "header_chunks J B send [] result = ret_act (Inr result)"
| "header_chunks J B send (hts # rest) result =
     bind_act (getblockheaders J B send hts) (\<lambda>hs.
     bind_act (ret_act (assert_res ''get_all_headers: lengths'' (length hs = length hts))) (\<lambda>_.
       header_chunks J B send rest (result @ hs)))"

fun check_chain :: "(block_header \<Rightarrow> block_hash) \<Rightarrow> block_header list \<Rightarrow> block_hash
      \<Rightarrow> ('e, block_hash) res" where
  "check_chain bh [] blockhash = Inr blockhash"
| "check_chain bh (header # hs) blockhash =
     bind_res (assert_res ''get_all_headers: link'' (prev_blockhash header = blockhash))
       (\<lambda>_. check_chain bh hs (bh header))"

definition get_all_headers ::
    "'v json_api \<Rightarrow> ('tx, 'pmt) bitcoin_api \<Rightarrow> ('w, 'v) transport \<Rightarrow> block_hash
      \<Rightarrow> ('w daemon, 'v rpc_error, block_header list) act" where
  "get_all_headers J B send tip =
     bind_act (request J send ''getblockheader'' (jarr J [jstr J (show_hash B tip)])) (\<lambda>info.
     bind_act (ret_act (unwrap_res ''missing height'' (jget J info ''height''))) (\<lambda>height.
     bind_act (ret_act (unwrap_res ''non-numeric height'' (jas_u64 J height))) (\<lambda>tip_height.
     bind_act (header_chunks J B send (chunks 100000 [0..<Suc (unat tip_height)]) []) (\<lambda>result.
     bind_act (ret_act (check_chain (block_hash_of B) result null_hash)) (\<lambda>blockhash.
     bind_act (ret_act (assert_res ''get_all_headers: tip'' (blockhash = tip))) (\<lambda>_.
       ret_act (Inr result)))))))"

text \<open>
  The backward walk asks the node for one header per turn and follows \<open>prev_blockhash\<close>
  until it meets the zero hash or an indexed block. Nothing bounds the number of turns:
  whether it ends depends on the node, so it is a partial function and None is "never
  returns".
\<close>

partial_function (option) new_headers_loop ::
    "'v json_api \<Rightarrow> ('tx, 'pmt) bitcoin_api \<Rightarrow> ('w, 'v) transport \<Rightarrow> header_list \<Rightarrow> block_hash
      \<Rightarrow> block_header list \<Rightarrow> 'w daemon
      \<Rightarrow> (('v rpc_error, block_header list) res \<times> 'w daemon) option" where
  "new_headers_loop J B send indexed_headers blockhash new_headers d =
     (if blockhash = null_hash then Some (Inr new_headers, d)
      else if header_by_blockhash indexed_headers blockhash \<noteq> None then Some (Inr new_headers, d)
      else (case map_err_act (\<lambda>_. HeaderFailed blockhash) (getblockheader J B send blockhash) d of
              (Inl e, d') \<Rightarrow> Some (Inl e, d')
            | (Inr header, d') \<Rightarrow>
                new_headers_loop J B send indexed_headers (prev_blockhash header)
                  (new_headers @ [header]) d'))"

definition get_new_headers ::
    "'v json_api \<Rightarrow> ('tx, 'pmt) bitcoin_api \<Rightarrow> ('w, 'v) transport \<Rightarrow> header_list \<Rightarrow> block_hash
      \<Rightarrow> 'w daemon \<Rightarrow> (('v rpc_error, block_header list) res \<times> 'w daemon) option" where
  "get_new_headers J B send indexed_headers bestblockhash d =
     (if headers indexed_headers = [] then Some (get_all_headers J B send bestblockhash d)
      else map_option (\<lambda>(r, d'). (bind_res r (\<lambda>new_headers. Inr (rev new_headers)), d'))
             (new_headers_loop J B send indexed_headers bestblockhash [] d))"

end
