(* ===== verification/Daemon_Facts.thy ===== *)
theory Daemon_Facts
  imports Daemon
begin

text \<open>
  What \<open>daemon.rs\<close> guarantees. The first part says which replies of a node are accepted,
  the second what a returned list of headers is worth, and when the backward walk of
  \<open>get_new_headers\<close> returns at all; the third treats the AuxPoW decoding of Dogecoin.
\<close>

subsection \<open>Accepted replies\<close>

definition no_rpc_error :: "'v json_api \<Rightarrow> 'v \<Rightarrow> bool" where
  "no_rpc_error J reply \<longleftrightarrow>
     (case jget J reply ''error'' of None \<Rightarrow> True
      | Some err \<Rightarrow> jis_null J err \<or> parse_error_code J err = None)"

definition reply_value :: "'v json_api \<Rightarrow> 'v \<Rightarrow> u64 \<Rightarrow> 'v option" where
  "reply_value J reply rid =
     (if jis_object J reply \<and> no_rpc_error J reply \<and>
         (case jget J reply ''id'' of None \<Rightarrow> False | Some i \<Rightarrow> jeq_u64 J i rid)
      then jget J reply ''result'' else None)"

lemma parse_jsonrpc_reply_Inr:
  "parse_jsonrpc_reply J reply m rid = Inr r \<longleftrightarrow> reply_value J reply rid = Some r"
  by (auto simp: parse_jsonrpc_reply_def reply_value_def no_rpc_error_def res_simps
      split: option.splits if_splits)

lemma parse_jsonrpc_reply_no_panic: "parse_jsonrpc_reply J reply m rid \<noteq> Inl (Panic s)"
  by (auto simp: parse_jsonrpc_reply_def res_simps ok_or_def split: option.splits if_splits)

lemma parse_jsonrpc_reply_Inl:
  "(\<exists>e. parse_jsonrpc_reply J reply m rid = Inl (Err e)) \<longleftrightarrow> reply_value J reply rid = None"
  using parse_jsonrpc_reply_Inr[of J reply m rid] parse_jsonrpc_reply_no_panic[of J reply m rid]
  by (cases "parse_jsonrpc_reply J reply m rid" rule: sum.exhaust)
    (auto, metis fault.exhaust option.exhaust)

lemma parse_replies_0:
  "parse_replies J m rid 0 rs (acc, n) = Inr (out, k) \<longleftrightarrow>
     k = n \<and> (\<exists>vs. map (\<lambda>r. reply_value J r rid) rs = map Some vs \<and> out = acc @ vs)"
proof (induction rs arbitrary: acc)
  case (Cons r rs)
  show ?case
  proof (cases "parse_jsonrpc_reply J r m rid")
    case (Inl e)
    then have "reply_value J r rid = None"
      using parse_jsonrpc_reply_Inr[of J r m rid] by (cases "reply_value J r rid") auto
    with Inl show ?thesis by (auto simp: map_eq_Cons_conv Cons_eq_map_conv)
  next
    case (Inr v)
    then have "reply_value J r rid = Some v" by (simp add: parse_jsonrpc_reply_Inr)
    with Inr Cons.IH show ?thesis by (auto simp: Cons_eq_map_conv)
  qed
qed auto

lemma parse_replies_no_panic: "parse_replies J m rid t rs a \<noteq> Inl (Panic s)"
  by (induction J m rid t rs a rule: parse_replies.induct)
    (auto split: sum.splits simp: parse_jsonrpc_reply_no_panic)

lemma parse_replies_0_Inl:
  "parse_replies J m rid 0 rs a = Inl e \<Longrightarrow> map (\<lambda>r. reply_value J r rid) rs \<noteq> map Some vs"
  using parse_replies_0[of J m rid rs "fst a" "snd a" "fst a @ vs" "snd a"] by auto

text \<open>A call with one parameter: the batch is a single chunk with a single request.\<close>

lemma handle_request_batch_single:
  "handle_request_batch J send m [p] 0 d = (Inr vs, d') \<longleftrightarrow>
     (\<exists>replies w rs. send (dm_node d) (jarr J [mk_request J m (dm_message_id d + 1) p]) = (Inr replies, w) \<and>
        jas_array J replies = Some rs \<and>
        map (\<lambda>r. reply_value J r (dm_message_id d + 1)) rs = map Some vs \<and>
        d' = d\<lparr>dm_message_id := dm_message_id d + 1, dm_node := w\<rparr>)"
  by (auto simp: handle_request_batch_def counter_next_def chunks_short parse_replies_0
      dest: parse_replies_0_Inl split: prod.splits sum.splits option.splits)

lemma all_Some_iff: "(\<forall>x \<in> set xs. g x \<noteq> None) \<longleftrightarrow> (\<exists>vs. map g xs = map Some vs)"
proof
  assume "\<forall>x \<in> set xs. g x \<noteq> None"
  then have "map g xs = map Some (map (\<lambda>x. the (g x)) xs)" by simp
  then show "\<exists>vs. map g xs = map Some vs" by blast
next
  assume "\<exists>vs. map g xs = map Some vs"
  then obtain vs where "map g xs = map Some vs" ..
  then have "g ` set xs = Some ` set vs" by (metis list.set_map)
  then show "\<forall>x \<in> set xs. g x \<noteq> None" by (metis image_iff option.distinct(1))
qed

lemma request_Inr:
  "request J send m p d = (Inr v, d') \<longleftrightarrow>
     (\<exists>replies w r. send (dm_node d) (jarr J [mk_request J m (dm_message_id d + 1) p]) = (Inr replies, w) \<and>
        jas_array J replies = Some [r] \<and> reply_value J r (dm_message_id d + 1) = Some v \<and>
        d' = d\<lparr>dm_message_id := dm_message_id d + 1, dm_node := w\<rparr>)"
proof -
  have "request J send m p d = (Inr v, d') \<longleftrightarrow>
      (\<exists>vs. handle_request_batch J send m [p] 0 d = (Inr vs, d') \<and> length vs = 1 \<and> hd vs = v)"
    by (auto simp: request_def res_simps)
  also have "\<dots> \<longleftrightarrow> handle_request_batch J send m [p] 0 d = (Inr [v], d')"
    by (auto simp: length_Suc_conv)
  finally show ?thesis
    by (auto simp: handle_request_batch_single map_eq_Cons_conv)
qed

lemma request_panic:
  "(\<exists>s d'. request J send m p d = (Inl (Panic s), d')) \<longleftrightarrow>
     (\<exists>replies w rs. send (dm_node d) (jarr J [mk_request J m (dm_message_id d + 1) p]) = (Inr replies, w) \<and>
        jas_array J replies = Some rs \<and> length rs \<noteq> 1 \<and>
        (\<forall>r \<in> set rs. reply_value J r (dm_message_id d + 1) \<noteq> None))"
proof -
  let ?b = "handle_request_batch J send m [p] 0 d"
  have np: "?b \<noteq> (Inl (Panic s), d')" for s d'
    by (auto simp: handle_request_batch_def counter_next_def chunks_short parse_replies_no_panic
        split: prod.splits sum.splits option.splits)
  let ?v = "\<lambda>r. reply_value J r (dm_message_id d + 1)"
  have len: "length rs = length vs" if "map ?v rs = map Some vs" for rs vs
    using that by (rule map_eq_imp_length_eq)
  have "(\<exists>s d'. request J send m p d = (Inl (Panic s), d')) \<longleftrightarrow> (\<exists>vs d'. ?b = (Inr vs, d') \<and> length vs \<noteq> 1)"
  proof (cases ?b)
    case (Pair r d1)
    then show ?thesis
      using np by (cases r) (auto simp: request_def bind_act_def assert_res_def)
  qed
  also have "\<dots> \<longleftrightarrow> (\<exists>replies w rs. send (dm_node d) (jarr J [mk_request J m (dm_message_id d + 1) p]) = (Inr replies, w) \<and>
        jas_array J replies = Some rs \<and> length rs \<noteq> 1 \<and>
        (\<exists>vs. map (\<lambda>r. reply_value J r (dm_message_id d + 1)) rs = map Some vs))"
    unfolding handle_request_batch_single by (force dest: len)
  finally show ?thesis unfolding all_Some_iff .
qed

subsection \<open>Downloaded headers\<close>

abbreviation linked :: "(block_header \<Rightarrow> block_hash) \<Rightarrow> block_header list \<Rightarrow> bool" where
  "linked bh \<equiv> adjacent (\<lambda>a b. prev_blockhash b = bh a)"

lemma check_chain_Inr:
  "check_chain bh hs b = Inr c \<longleftrightarrow>
     linked bh hs \<and> (if hs = [] then c = b else prev_blockhash (hd hs) = b \<and> c = bh (last hs))"
  by (induction hs arbitrary: b) (auto simp: res_simps adjacent_Cons split: if_splits)

lemma header_chunks_length:
  "header_chunks J B send ls acc d = (Inr hs, d') \<Longrightarrow> length hs = length acc + length (concat ls)"
  by (induction J B send ls acc arbitrary: d rule: header_chunks.induct)
    (fastforce simp: res_simps)+

lemma get_all_headers_Inr:
  fixes J :: "'v json_api"
  assumes "get_all_headers J B send tip d = (Inr hs, d')"
  shows "hs \<noteq> [] \<and> linked (block_hash_of B) hs \<and> prev_blockhash (hd hs) = null_hash \<and>
    block_hash_of B (last hs) = tip"
proof -
  obtain n d1 where h: "header_chunks J B send (chunks 100000 [0..<Suc n]) [] d1 = (Inr hs, d')"
    and c: "check_chain (block_hash_of B) hs null_hash = (Inr tip :: ('v rpc_error, block_hash) res)"
    using assms by (auto simp del: upt_Suc simp: get_all_headers_def res_simps)
  have "length hs = Suc n"
    using header_chunks_length[OF h] concat_chunks[of 100000 "[0..<Suc n]"]
    by (simp del: upt_Suc)
  with c show ?thesis by (auto simp: check_chain_Inr split: if_splits)
qed

text \<open>
  The backward walk. \<open>known\<close> is its exit condition; a node is \<open>honest\<close> if the headers it
  returns have the requested hash, it \<open>serves\<close> a list of headers if it returns each of them
  for its hash (\<open>P\<close> holds of the client and node throughout).
\<close>

definition known :: "header_list \<Rightarrow> block_hash \<Rightarrow> bool" where
  "known hl b \<longleftrightarrow> b = null_hash \<or> header_by_blockhash hl b \<noteq> None"

definition honest ::
    "'v json_api \<Rightarrow> ('tx, 'pmt) bitcoin_api \<Rightarrow> ('w, 'v) transport \<Rightarrow> ('w daemon \<Rightarrow> bool) \<Rightarrow> bool" where
  "honest J B send P \<longleftrightarrow> (\<forall>b d r d'. P d \<longrightarrow> getblockheader J B send b d = (r, d') \<longrightarrow>
     P d' \<and> (\<forall>h. r = Inr h \<longrightarrow> block_hash_of B h = b))"

definition serves ::
    "'v json_api \<Rightarrow> ('tx, 'pmt) bitcoin_api \<Rightarrow> ('w, 'v) transport \<Rightarrow> ('w daemon \<Rightarrow> bool)
      \<Rightarrow> block_header list \<Rightarrow> bool" where
  "serves J B send P hs \<longleftrightarrow> (\<forall>h \<in> set hs. \<forall>d. P d \<longrightarrow>
     (\<exists>d'. P d' \<and> getblockheader J B send (block_hash_of B h) d = (Inr h, d')))"

lemmas new_headers_loop_induct = new_headers_loop.raw_induct[rotated, consumes 1, case_names turn]

lemma new_headers_loop_known:
  "known hl b \<Longrightarrow> new_headers_loop J B send hl b acc d = Some (Inr acc, d)"
  by (subst new_headers_loop.simps) (auto simp: known_def)

lemma new_headers_loop_step:
  "\<not> known hl b \<Longrightarrow> new_headers_loop J B send hl b acc d =
    (case map_err_act (\<lambda>_. HeaderFailed b) (getblockheader J B send b) d of
       (Inl e, d') \<Rightarrow> Some (Inl e, d')
     | (Inr h, d') \<Rightarrow> new_headers_loop J B send hl (prev_blockhash h) (acc @ [h]) d')"
  by (subst new_headers_loop.simps) (simp add: known_def)


text \<open>
  What a returned list says, whatever the node answers: the walk goes on below unknown hashes only and ends
  at the first known one, and with an honest node the list is linked and starts (before it is
  reversed) with the asked hash.
\<close>

definition run_ok ::
    "(block_header \<Rightarrow> block_hash) \<Rightarrow> header_list \<Rightarrow> block_hash \<Rightarrow> bool \<Rightarrow> block_header list \<Rightarrow> bool" where
  "run_ok bh hl b checked run \<longleftrightarrow>
     known hl (if run = [] then b else prev_blockhash (last run)) \<and> (run \<noteq> [] \<longrightarrow> \<not> known hl b) \<and>
     (\<forall>h \<in> set (butlast run). \<not> known hl (prev_blockhash h)) \<and>
     (checked \<longrightarrow> linked bh (rev run) \<and> (run \<noteq> [] \<longrightarrow> bh (hd run) = b))"

lemma run_ok_Cons:
  assumes "run_ok bh hl (prev_blockhash h) checked run" "checked \<longrightarrow> bh h = b" "\<not> known hl b"
  shows "run_ok bh hl b checked (h # run)"
  using assms by (cases run) (auto simp: run_ok_def adjacent_append adjacent_Cons)

lemma new_headers_loop_run:
  "new_headers_loop J B send hl b acc d = Some y \<Longrightarrow>
   fst y = Inr hs \<longrightarrow>
   (\<exists>run. hs = acc @ run \<and> run_ok (block_hash_of B) hl b (honest J B send P \<and> P d) run)"
proof (induction J B send hl b acc d y rule: new_headers_loop_induct)
  case (turn loop J B send hl b acc d y)
  show ?case
  proof (cases "known hl b")
    case True
    with turn.hyps have "y = (Inr acc, d)"
      by (simp add: known_def split: if_splits)
    with True show ?thesis
      by (intro impI exI[of _ "[]"]) (simp add: run_ok_def)
  next
    case False
    show ?thesis
    proof (cases "getblockheader J B send b d")
      case (Pair r d1)
      show ?thesis
      proof (cases r)
        case (Inl e)
        with turn.hyps False Pair show ?thesis
          by (cases e) (auto simp: known_def map_err_act_def)
      next
        case (Inr h)
        with turn.hyps False Pair have "loop J B send hl (prev_blockhash h) (acc @ [h]) d1 = Some y"
          by (auto simp: known_def map_err_act_def)
        note unknown = False
        show ?thesis
        proof
          assume "fst y = Inr hs"
          with turn.IH[OF \<open>loop _ _ _ _ _ _ _ = Some y\<close>] obtain run where hs: "hs = (acc @ [h]) @ run"
            and ok: "run_ok (block_hash_of B) hl (prev_blockhash h) (honest J B send P \<and> P d1) run"
            by blast
          have "run_ok (block_hash_of B) hl b (honest J B send P \<and> P d) (h # run)"
          proof (cases "honest J B send P \<and> P d")
            case True
            then have "P d1 \<and> block_hash_of B h = b"
              using Pair Inr by (auto simp: honest_def)
            with True ok unknown show ?thesis by (intro run_ok_Cons) auto
          next
            case False
            with ok unknown show ?thesis by (cases run) (auto simp: run_ok_def)
          qed
          with hs show "\<exists>run. hs = acc @ run \<and>
              run_ok (block_hash_of B) hl b (honest J B send P \<and> P d) run"
            by (intro exI[of _ "h # run"]) simp
        qed
      qed
    qed
  qed
qed

lemma get_new_headers_run:
  assumes "get_new_headers J B send hl best d = Some (Inr hs, d')" "headers hl \<noteq> []"
  shows "run_ok (block_hash_of B) hl best (honest J B send P \<and> P d) (rev hs)"
proof -
  obtain run d1 where l: "new_headers_loop J B send hl best [] d = Some (Inr run, d1)"
    and hs: "hs = rev run"
    using assms by (auto simp: get_new_headers_def res_simps)
  from new_headers_loop_run[OF l, of run P] show ?thesis by (simp add: hs)
qed

text \<open>With an honest node, no returned header is that of a known block.\<close>

lemma run_ok_unknown:
  assumes "run_ok bh hl b checked (rev hs)" "checked" "h \<in> set hs"
  shows "\<not> known hl (bh h)"
proof -
  obtain i where i: "i < length hs" "h = hs ! i" using assms(3) by (auto simp: in_set_conv_nth)
  have run: "linked bh hs" "bh (last hs) = b" "\<not> known hl b" "\<forall>h \<in> set (tl hs). \<not> known hl (prev_blockhash h)"
    using assms i(1) by (auto simp: run_ok_def hd_rev butlast_rev)
  show ?thesis
  proof (cases "Suc i < length hs")
    case True
    then have "hs ! Suc i \<in> set (tl hs)" by (cases hs) auto
    with run(4) run(1) True i(2) show ?thesis by (auto simp: adjacent_iff)
  next
    case False
    then have "h = last hs" using i by (cases hs rule: rev_cases) (auto simp: nth_append split: if_splits)
    with run(2,3) show ?thesis by simp
  qed
qed

text \<open>Where the headers that an honest node delivers end.\<close>

lemma get_new_headers_ends:
  assumes "get_new_headers J B send hl best d = Some (Inr hs, d')" "honest J B send P" "P d"
  shows "if hs = [] then known hl best else block_hash_of B (last hs) = best"
proof (cases "headers hl = []")
  case True
  with assms(1) have "get_all_headers J B send best d = (Inr hs, d')"
    by (simp add: get_new_headers_def)
  from get_all_headers_Inr[OF this] show ?thesis by simp
next
  case False
  from get_new_headers_run[OF assms(1) this, of P] assms(2,3) show ?thesis
    by (auto simp: run_ok_def hd_rev)
qed

text \<open>The walk down a chain the node serves ends in the chain's topmost known block.\<close>

lemma new_headers_loop_serves:
  assumes "serves J B send P hs" "P d" "linked (block_hash_of B) hs" "hs \<noteq> []"
    "prev_blockhash (hd hs) = null_hash"
  shows "\<exists>k d'. k \<le> length hs \<and>
    new_headers_loop J B send hl (block_hash_of B (last hs)) acc d =
      Some (Inr (acc @ rev (drop k hs)), d') \<and>
    (k = 0 \<or> known hl (block_hash_of B (hs ! (k - 1)))) \<and>
    (\<forall>h \<in> set (drop k hs). \<not> known hl (block_hash_of B h))"
  using assms
proof (induction hs arbitrary: acc d rule: rev_induct)
  case (snoc h hs)
  show ?case
  proof (cases "known hl (block_hash_of B h)")
    case True
    then show ?thesis
      by (intro exI[of _ "Suc (length hs)"]) (auto simp: new_headers_loop_known)
  next
    case False
    obtain d1 where d1: "P d1" "getblockheader J B send (block_hash_of B h) d = (Inr h, d1)"
      using snoc.prems by (auto simp: serves_def)
    then have step: "new_headers_loop J B send hl (block_hash_of B h) acc d =
        new_headers_loop J B send hl (prev_blockhash h) (acc @ [h]) d1"
      using False by (simp add: new_headers_loop_step map_err_act_def)
    show ?thesis
    proof (cases "hs = []")
      case True
      then have "known hl (prev_blockhash h)" using snoc.prems by (simp add: known_def)
      with True step False show ?thesis
        by (intro exI[of _ 0]) (auto simp: new_headers_loop_known)
    next
      case ne: False
      then have pv: "prev_blockhash h = block_hash_of B (last hs)"
        and pre: "serves J B send P hs" "linked (block_hash_of B) hs"
          "prev_blockhash (hd hs) = null_hash"
        using snoc.prems by (auto simp: adjacent_append serves_def)
      obtain k d' where k: "k \<le> length hs"
        "new_headers_loop J B send hl (block_hash_of B (last hs)) (acc @ [h]) d1 =
           Some (Inr ((acc @ [h]) @ rev (drop k hs)), d')"
        "k = 0 \<or> known hl (block_hash_of B (hs ! (k - 1)))"
        "\<forall>h \<in> set (drop k hs). \<not> known hl (block_hash_of B h)"
        using snoc.IH[OF pre(1) d1(1) pre(2) ne pre(3)] by blast
      with step pv False show ?thesis
        by (intro exI[of _ k] exI[of _ d']) (auto simp: nth_append)
    qed
  qed
qed simp

text \<open>
  If every answer leads to another unknown block the walk never returns: \<open>Q\<close> is a set of
  situations (hash asked for, client state) closed under the answers.
\<close>

lemma new_headers_loop_diverges:
  assumes step: "\<And>b d. Q b d \<Longrightarrow>
      \<not> known hl b \<and> (\<exists>h d'. getblockheader J B send b d = (Inr h, d') \<and> Q (prev_blockhash h) d')"
  shows "Q b d \<Longrightarrow> new_headers_loop J B send hl b acc d = None"
proof -
  have "J' = J \<and> B' = B \<and> send' = send \<and> hl' = hl \<longrightarrow> \<not> Q b d"
    if "new_headers_loop J' B' send' hl' b acc d = Some y" for J' B' send' hl' acc y
    using that
  proof (induction J' B' send' hl' b acc d y rule: new_headers_loop_induct)
    case (turn loop J' B' send' hl' b acc d y)
    show ?case
    proof (intro impI notI, elim conjE)
      assume eq: "J' = J" "B' = B" "send' = send" "hl' = hl" and "Q b d"
      with step obtain h d' where h: "\<not> known hl b" "getblockheader J B send b d = (Inr h, d')"
        "Q (prev_blockhash h) d'" by blast
      with turn.hyps eq have "loop J B send hl (prev_blockhash h) (acc @ [h]) d' = Some y"
        by (auto simp: known_def map_err_act_def)
      from turn.IH[OF this] h(3) show False by simp
    qed
  qed
  then show "Q b d \<Longrightarrow> new_headers_loop J B send hl b acc d = None"
    by (cases "new_headers_loop J B send hl b acc d") auto
qed

end
