(* ===== verification/Sample_Node.thy ===== *)
theory Sample_Node
  imports Daemon_Facts
begin

text \<open>
  A concrete JSON library, Bitcoin library and node for the witnesses. The library knows the
  four sample blocks of \<open>Header_List\<close>: a hash is printed as one letter, a header is two
  bytes (its nonce and the first byte of its parent's hash).
\<close>

datatype js =
    JNull
  | JBool bool
  | JNum u64
  | JStr string
  | JArr "js list"
  | JObj "(string \<times> js) list"

fun js_get :: "js \<Rightarrow> string \<Rightarrow> js option" where
  "js_get (JObj fs) k = map_of fs k"
| "js_get _ k = None"

definition js_api :: "js json_api" where
  "js_api = \<lparr>
     jis_object = (\<lambda>v. case v of JObj _ \<Rightarrow> True | _ \<Rightarrow> False),
     jget = js_get,
     jis_null = (\<lambda>v. v = JNull),
     jas_i64 = (\<lambda>v. case v of JNum n \<Rightarrow> if uint n < 2 ^ 63 then Some (uint n) else None | _ \<Rightarrow> None),
     jas_u64 = (\<lambda>v. case v of JNum n \<Rightarrow> Some n | _ \<Rightarrow> None),
     jas_str = (\<lambda>v. case v of JStr s \<Rightarrow> Some s | _ \<Rightarrow> None),
     jas_bool = (\<lambda>v. case v of JBool b \<Rightarrow> Some b | _ \<Rightarrow> None),
     jas_array = (\<lambda>v. case v of JArr vs \<Rightarrow> Some vs | _ \<Rightarrow> None),
     jeq_u64 = (\<lambda>v n. v = JNum n),
     jnull = JNull, jstr = JStr, ju64 = JNum, jbool = JBool, jarr = JArr, jobj = JObj,
     jset = (\<lambda>v k x. case v of JObj fs \<Rightarrow> Some (JObj (AList.update k x fs)) | JNull \<Rightarrow> Some (JObj [(k, x)])
        | _ \<Rightarrow> None)\<rparr>"

lemma js_api_simps [simp]:
  "jis_object js_api v = (case v of JObj _ \<Rightarrow> True | _ \<Rightarrow> False)"
  "jget js_api = js_get"
  "jis_null js_api v = (v = JNull)"
  "jas_i64 js_api v =
     (case v of JNum n \<Rightarrow> if uint n < 2 ^ 63 then Some (uint n) else None | _ \<Rightarrow> None)"
  "jas_u64 js_api v = (case v of JNum n \<Rightarrow> Some n | _ \<Rightarrow> None)"
  "jas_str js_api v = (case v of JStr s \<Rightarrow> Some s | _ \<Rightarrow> None)"
  "jas_bool js_api v = (case v of JBool b \<Rightarrow> Some b | _ \<Rightarrow> None)"
  "jas_array js_api v = (case v of JArr vs \<Rightarrow> Some vs | _ \<Rightarrow> None)"
  "jeq_u64 js_api v n = (v = JNum n)"
  "jnull js_api = JNull" "jstr js_api = JStr" "ju64 js_api = JNum" "jbool js_api = JBool"
  "jarr js_api = JArr" "jobj js_api = JObj"
  "jset js_api v k x = (case v of JObj fs \<Rightarrow> Some (JObj (AList.update k x fs)) | JNull \<Rightarrow> Some (JObj [(k, x)])
     | _ \<Rightarrow> None)"
  by (simp_all add: js_api_def)

definition sample_show :: "bytes \<Rightarrow> string" where
  "sample_show h =
     (if h = 1 # replicate 31 0 then ''a'' else if h = 2 # replicate 31 0 then ''b''
      else if h = 3 # replicate 31 0 then ''c'' else if h = 4 # replicate 31 0 then ''d''
      else if h = 5 # replicate 31 0 then ''e'' else ''x'')"

definition sample_parse :: "string \<Rightarrow> bytes option" where
  "sample_parse s =
     map_option (\<lambda>n. n # replicate 31 0)
       (map_of [(''a'', 1), (''b'', 2), (''c'', 3), (''d'', 4), (''e'', 5)] s)"

definition sample_hex :: "string \<Rightarrow> bytes option" where
  "sample_hex s = map_of [(''ha'', [1, 0]), (''hb'', [2, 1]), (''hc'', [3, 2]), (''hd'', [4, 1]),
     (''he'', [5, 5])] s"

fun sample_de_header :: "bytes \<Rightarrow> block_header option" where
  "sample_de_header (n # p # _) = Some (sample_header (ucast n) (p # replicate 31 0))"
| "sample_de_header _ = None"

definition sample_btc :: "(unit, block_hash list) bitcoin_api" where
  "sample_btc = \<lparr>
     block_hash_of = sample_hash, show_hash = sample_show, hash_from_str = sample_parse,
     hex_decode = sample_hex, de_header = sample_de_header,
     de_merkleblock = (\<lambda>bs. map_option (\<lambda>h. \<lparr>mb_header = h, mb_txn = []\<rparr>) (sample_de_header bs)),
     dec_header = (\<lambda>bs. case bs of
          n # p # r \<Rightarrow> Inr (sample_header (ucast n) (p # replicate 31 0), r) | _ \<Rightarrow> Inl ''eof''),
     dec_tx = (\<lambda>bs. Inr ((), bs)),
     dec_hash = (\<lambda>bs. case bs of b # r \<Rightarrow> Inr (b # replicate 31 0, r) | _ \<Rightarrow> Inl ''eof''),
     dec_varint = (\<lambda>bs. case bs of b # r \<Rightarrow> Inr (ucast b, r) | _ \<Rightarrow> Inl ''eof''),
     dec_i32 = (\<lambda>bs. case bs of b # r \<Rightarrow> Inr (ucast b, r) | _ \<Rightarrow> Inl ''eof''),
     dec_pmt = (\<lambda>bs. Inr ([], bs))\<rparr>"

lemma sample_btc_simps [simp]:
  "block_hash_of sample_btc = sample_hash" "show_hash sample_btc = sample_show"
  "hash_from_str sample_btc = sample_parse" "hex_decode sample_btc = sample_hex"
  "de_header sample_btc = sample_de_header"
  by (simp_all add: sample_btc_def)

text \<open>
  The node answers every request of a batch under its id: \<open>getblockheader\<close> with the header of
  the asked block (verbosely with the tip height), \<open>getblockhash\<close> with the hash of the chain's
  block at that height. \<open>e\<close> is a block that names itself as its parent.
\<close>

fun sample_answer :: "string \<Rightarrow> js \<Rightarrow> js" where
  "sample_answer m (JArr [JStr h, JBool False]) = JStr (''h'' @ h)"
| "sample_answer m (JArr [JStr h]) = JObj [(''height'', JNum (if h = ''a'' then 0 else 1))]"
| "sample_answer m (JArr [JNum n]) = JStr (if n = 0 then ''a'' else if n = 1 then ''b'' else ''c'')"
| "sample_answer m p = JStr ''c''"

fun sample_reply :: "js \<Rightarrow> js" where
  "sample_reply (JObj [_, (_, JStr m), (_, p), (_, i)]) =
     JObj [(''id'', i), (''result'', sample_answer m p)]"
| "sample_reply v = v"

fun sample_send :: "(unit, js) transport" where
  "sample_send w (JArr reqs) = (Inr (JArr (map sample_reply reqs)), w)"
| "sample_send w v = (Inr v, w)"

definition sample_client :: "network \<Rightarrow> unit daemon" where
  "sample_client n = \<lparr>dm_network = n, dm_message_id = 0, dm_node = ()\<rparr>"

lemma js_no_rpc_error: "js_get v ''error'' = None \<Longrightarrow> no_rpc_error js_api v"
  by (simp add: no_rpc_error_def)

lemma sample_request:
  "request js_api sample_send m p d =
     (Inr (sample_answer m p), d\<lparr>dm_message_id := dm_message_id d + 1, dm_node := ()\<rparr>)"
  unfolding request_Inr
  by (simp add: mk_request_def reply_value_def no_rpc_error_def)

lemma sample_getblockheader:
  assumes "dm_network d = Bitcoin" "sample_hex (''h'' @ sample_show b) = Some [n, p]"
  shows "getblockheader js_api sample_btc sample_send b d =
    (Inr (sample_header (ucast n) (p # replicate 31 0)),
     d\<lparr>dm_message_id := dm_message_id d + 1, dm_node := ()\<rparr>)"
  using assms
  by (simp add: getblockheader_def bind_act_def sample_request header_for_def
      header_from_value_def)

lemma sample_getblockheader_unknown:
  assumes "dm_network d = Bitcoin" "sample_show b = ''x''"
  shows "getblockheader js_api sample_btc sample_send b d =
    (Inl (Err (NonHex ''header'')), d\<lparr>dm_message_id := dm_message_id d + 1, dm_node := ()\<rparr>)"
  using assms
  by (simp add: getblockheader_def bind_act_def sample_request header_for_def
      header_from_value_def sample_hex_def)

abbreviation on_bitcoin :: "unit daemon \<Rightarrow> bool" where
  "on_bitcoin d \<equiv> dm_network d = Bitcoin"

lemma sample_serves: "serves js_api sample_btc sample_send on_bitcoin sample_headers"
  unfolding serves_def
  by (auto simp: sample_headers_def sample_hash_def sample_header_def sample_show_def
      sample_hex_def sample_getblockheader null_hash_Cons)

lemma sample_hex_show:
  "n \<in> {1, 2, 3, 4, 5} \<Longrightarrow> \<exists>p. sample_hex (''h'' @ sample_show (n # replicate 31 0)) = Some [n, p]"
  by (elim insertE) (simp_all add: sample_show_def sample_hex_def)

lemma sample_honest: "honest js_api sample_btc sample_send on_bitcoin"
  unfolding honest_def
proof (intro allI impI)
  fix b d r d'
  assume d: "on_bitcoin d" and r: "getblockheader js_api sample_btc sample_send b d = (r, d')"
  show "on_bitcoin d' \<and> (\<forall>h. r = Inr h \<longrightarrow> block_hash_of sample_btc h = b)"
  proof (cases "b \<in> (\<lambda>n. n # replicate 31 0) ` {1, 2, 3, 4, 5}")
    case True
    then obtain n where n: "b = n # replicate 31 0" "n \<in> {1, 2, 3, 4, 5}" by blast
    then obtain p where "sample_hex (''h'' @ sample_show b) = Some [n, p]"
      using sample_hex_show by blast
    moreover have "ucast (ucast n :: u32) = n" using n(2) by auto
    ultimately show ?thesis
      using sample_getblockheader[OF d] r d n(1) by (auto simp: sample_hash_def sample_header_def)
  next
    case False
    then have "sample_show b = ''x''" by (simp add: sample_show_def)
    from sample_getblockheader_unknown[OF d this] r d show ?thesis by auto
  qed
qed

text \<open>A list that holds the genesis block of the sample chain only.\<close>

lemma sample_linked:
  "linked sample_hash sample_headers" "sample_headers \<noteq> []"
  "prev_blockhash (hd sample_headers) = null_hash"
  by (simp_all add: sample_defs adjacent_Cons null_hash_Cons)

definition sample_genesis :: header_list where
  "sample_genesis = (let es = number_headers sample_hash 0 [sample_header 1 null_hash]
     in \<lparr>headers = es, heights = index_of es, hl_tip = he_hash (last es)\<rparr>)"

lemma sample_genesis_eq:
  "headers sample_genesis =
     [\<lparr>he_height = 0, he_hash = 1 # replicate 31 0, he_header = sample_header 1 null_hash\<rparr>]"
  "heights sample_genesis = [1 # replicate 31 0 \<mapsto> 0]"
  "hl_tip sample_genesis = 1 # replicate 31 0"
  by (simp_all add: sample_genesis_def Let_def number_headers_def index_of_def sample_hash_def
      sample_header_def)

lemma sample_known:
  "known sample_genesis (n # replicate 31 0) \<longleftrightarrow> n = 0 \<or> n = 1"
  by (auto simp: known_def header_by_blockhash_def sample_genesis_eq null_hash_Cons)

end
