(* ===== verification/Daemon_Properties.thy ===== *)
theory Daemon_Properties
  imports Sample_Node
begin

text \<open>
  The properties of the JSON-RPC client, each with a witness on the sample node.
\<close>

text \<open>
  C20: a call of the node succeeds with a value exactly if the transport delivers an array of
  one reply, an object without an error code that carries the call's own id (the incremented
  counter) and that value as its result.
\<close>

theorem request_accepts:
  "request J send method params d = (Inr v, d') \<longleftrightarrow>
     (\<exists>replies w reply.
        send (dm_node d) (jarr J [mk_request J method (dm_message_id d + 1) params]) = (Inr replies, w) \<and>
        jas_array J replies = Some [reply] \<and> jis_object J reply \<and> no_rpc_error J reply \<and>
        map_option (\<lambda>i. jeq_u64 J i (dm_message_id d + 1)) (jget J reply ''id'') = Some True \<and>
        jget J reply ''result'' = Some v \<and>
        d' = d\<lparr>dm_message_id := dm_message_id d + 1, dm_node := w\<rparr>)"
  by (force simp: request_Inr reply_value_def split: option.splits if_splits)

text \<open>
  C39: the assertion in \<open>request\<close> is in the node's hands: the call panics exactly if the node
  answers with an array of valid replies that are not one, for example the empty array.
\<close>

theorem request_panics:
  "(\<exists>site d'. request J send method params d = (Inl (Panic site), d')) \<longleftrightarrow>
     (\<exists>replies w rs.
        send (dm_node d) (jarr J [mk_request J method (dm_message_id d + 1) params]) = (Inr replies, w) \<and>
        jas_array J replies = Some rs \<and> length rs \<noteq> 1 \<and>
        (\<forall>r \<in> set rs. \<exists>v. parse_jsonrpc_reply J r method (dm_message_id d + 1) = Inr v))"
  unfolding request_panic parse_jsonrpc_reply_Inr by simp

theorem request_panics_witness:
  "\<exists>site d'. request js_api (\<lambda>w v. (Inr (JArr []), w)) ''getbestblockhash'' (JArr [])
     (sample_client Bitcoin) = (Inl (Panic site), d')"
  by (rule request_panics[THEN iffD2]) simp

text \<open>
  the initial download yields a chain: headers that are linked from the zero hash up to the
  requested tip, or the call does not return normally.
\<close>

lemma get_all_headers_chain:
  assumes "get_all_headers J B send tip d = (Inr hs, d')"
  shows "hs \<noteq> [] \<and> linked (block_hash_of B) hs \<and> prev_blockhash (hd hs) = null_hash \<and>
    block_hash_of B (last hs) = tip"
  using assms by (rule get_all_headers_Inr)

lemma get_all_headers_chain_witness:
  "\<exists>hs. fst (get_all_headers js_api sample_btc sample_send (1 # replicate 31 0)
       (sample_client Bitcoin)) = Inr hs \<and> sample_hash (last hs) = 1 # replicate 31 0"
proof -
  let ?d = "sample_client Bitcoin"
  let ?r = "get_all_headers js_api sample_btc sample_send (1 # replicate 31 0) ?d"
  have "fst ?r = Inr [sample_header 1 null_hash]"
    by (simp add: get_all_headers_def bind_act_def sample_request sample_show_def chunks_short
        getblockheaders_def requests_def handle_request_batch_def counter_next_def mk_request_def
        parse_jsonrpc_reply_def header_for_def header_from_value_def sample_client_def
        sample_hex_def null_hash_Cons sample_hash_def sample_header_def)
  then have "?r = (Inr [sample_header 1 null_hash], snd ?r)" by (cases ?r) simp
  from get_all_headers_chain[OF this] show ?thesis
    using \<open>fst ?r = _\<close> by simp
qed

text \<open>
  C19: an update never invents a connection: whatever the node answers, the walk that \<open>get_new_headers\<close> makes
  for a non-empty index ends at the first hash that is that of an indexed block or zero. So none of the
  returned headers but the first has an indexed predecessor, and the first one has, or it has the
  predecessor zero of a genesis block; no header is returned exactly if the best block is itself
  indexed (or zero). When the node only returns headers with the requested hash, they
  form a linked run of blocks not yet indexed, ending in the best block.
\<close>

theorem get_new_headers_sound:
  assumes "get_new_headers J B send hl best d = Some (Inr hs, d')" "headers hl \<noteq> []"
    and "ends = (\<lambda>b. b = null_hash \<or> header_by_blockhash hl b \<noteq> None)"
  shows "(hs = [] \<longleftrightarrow> ends best) \<and> (hs \<noteq> [] \<longrightarrow> ends (prev_blockhash (hd hs))) \<and>
    (\<forall>h \<in> set (tl hs). \<not> ends (prev_blockhash h)) \<and>
    (honest J B send P \<and> P d \<longrightarrow> linked (block_hash_of B) hs \<and>
       (hs \<noteq> [] \<longrightarrow> block_hash_of B (last hs) = best) \<and>
       (\<forall>h \<in> set hs. header_by_blockhash hl (block_hash_of B h) = None))"
proof -
  have ends: "known hl = ends" by (intro ext) (simp add: known_def assms(3))
  have run: "run_ok (block_hash_of B) hl best (honest J B send P \<and> P d) (rev hs)"
    by (rule get_new_headers_run[OF assms(1,2)])
  have "\<forall>h \<in> set hs. header_by_blockhash hl (block_hash_of B h) = None" if "honest J B send P" "P d"
    using run_ok_unknown[OF run] that by (auto simp: known_def)
  with run show ?thesis
    unfolding ends[symmetric] by (cases hs) (auto simp: run_ok_def hd_rev last_rev butlast_rev)
qed

text \<open>
  C18: against a node that serves a chain from the zero hash up to the best block the update
  returns, with exactly the part of the chain above its topmost indexed block (the whole
  chain if none is indexed), in ascending order.
\<close>

theorem get_new_headers_returns:
  assumes "serves J B send P hs" "P d" "linked (block_hash_of B) hs" "hs \<noteq> []"
    "prev_blockhash (hd hs) = null_hash" "headers hl \<noteq> []"
  shows "\<exists>k d'. k \<le> length hs \<and>
    get_new_headers J B send hl (block_hash_of B (last hs)) d = Some (Inr (drop k hs), d') \<and>
    (k = 0 \<or> known hl (block_hash_of B (hs ! (k - 1)))) \<and>
    (\<forall>h \<in> set (drop k hs). \<not> known hl (block_hash_of B h))"
  using new_headers_loop_serves[OF assms(1-5), of hl "[]"] assms(6)
  by (auto simp: get_new_headers_def)

theorem get_new_headers_returns_witness:
  "\<exists>k d'. k \<le> length sample_headers \<and>
    get_new_headers js_api sample_btc sample_send sample_genesis (block_hash_of sample_btc (last sample_headers))
      (sample_client Bitcoin) = Some (Inr (drop k sample_headers), d') \<and>
    (k = 0 \<or> known sample_genesis (block_hash_of sample_btc (sample_headers ! (k - 1)))) \<and>
    (\<forall>h \<in> set (drop k sample_headers). \<not> known sample_genesis (block_hash_of sample_btc h))"
  using get_new_headers_returns[OF sample_serves, of "sample_client Bitcoin" sample_genesis]
  by (simp add: sample_linked sample_client_def sample_genesis_eq)

theorem get_new_headers_sound_witness:
  "\<exists>hs d'. get_new_headers js_api sample_btc sample_send sample_genesis (2 # replicate 31 0)
      (sample_client Bitcoin) = Some (Inr hs, d') \<and> hs \<noteq> [] \<and>
    header_by_blockhash sample_genesis (prev_blockhash (hd hs)) \<noteq> None \<and>
    (\<forall>h \<in> set hs. header_by_blockhash sample_genesis (sample_hash h) = None)"
proof -
  have "\<exists>d'. get_new_headers js_api sample_btc sample_send sample_genesis (2 # replicate 31 0)
      (sample_client Bitcoin) = Some (Inr [sample_header 2 (1 # replicate 31 0)], d')"
    by (simp add: get_new_headers_def sample_genesis_eq new_headers_loop_step sample_known
        sample_getblockheader sample_client_def sample_show_def sample_hex_def map_err_act_def
        new_headers_loop_known sample_header_def)
  then obtain d' where g: "get_new_headers js_api sample_btc sample_send sample_genesis
      (2 # replicate 31 0) (sample_client Bitcoin) = Some (Inr [sample_header 2 (1 # replicate 31 0)], d')" by blast
  let ?hs = "[sample_header 2 (1 # replicate 31 0)]"
  have c: "on_bitcoin (sample_client Bitcoin)" and ne: "headers sample_genesis \<noteq> []"
    by (simp_all add: sample_client_def sample_genesis_eq)
  have "prev_blockhash (hd ?hs) \<noteq> null_hash" by (simp add: sample_header_def null_hash_Cons)
  with get_new_headers_sound[OF g ne refl, of on_bitcoin] sample_honest c
  have "header_by_blockhash sample_genesis (prev_blockhash (hd ?hs)) \<noteq> None"
    "\<forall>h \<in> set ?hs. header_by_blockhash sample_genesis (sample_hash h) = None" by simp_all
  with g show ?thesis by blast
qed

text \<open>
  C40: the node can keep the update from ever returning, because the header it answers with is
  not checked against the requested hash: if each answer names another hash that is not
  indexed (\<open>Q\<close> holds of the pair of hash and client), the walk runs forever.
\<close>

theorem get_new_headers_diverges:
  assumes "\<And>b d. Q b d \<Longrightarrow> \<not> known hl b \<and>
      (\<exists>h d'. getblockheader J B send b d = (Inr h, d') \<and> Q (prev_blockhash h) d')"
    and "Q best d" "headers hl \<noteq> []"
  shows "get_new_headers J B send hl best d = None"
  using new_headers_loop_diverges[of Q, OF assms(1,2)] assms(3)
  by (simp add: get_new_headers_def)

theorem get_new_headers_diverges_witness:
  "get_new_headers js_api sample_btc sample_send sample_genesis (5 # replicate 31 0)
     (sample_client Bitcoin) = None"
  by (rule get_new_headers_diverges
      [where Q = "\<lambda>b d. b = 5 # replicate 31 0 \<and> dm_network d = Bitcoin"])
    (auto simp: sample_known sample_getblockheader sample_show_def sample_hex_def sample_header_def
      sample_client_def sample_genesis_eq)

end
