(* ===== verification/Store.thy ===== *)
theory Store
  imports Header_List
begin

text \<open>
  \<open>store.rs\<close>: the persistent side of the header index. A RocksDB database holds, sealed, a
  row \<open>b\<close> + hash with the header and a row \<open>D\<close> + hash (block done) for every synced block, the
  tip under \<open>t\<close> and the format version under \<open>V\<close>; the store keeps in memory the set of synced
  hashes and the header list that are loaded from it. RocksDB, the serialisation libraries
  and the sealing of the enclave are the arguments \<open>K\<close> and \<open>C\<close>; a failing call of theirs
  that the source unwraps is a panic.
\<close>

subsection \<open>Interfaces\<close>

text \<open>\<open>rocksdb::WriteOptions\<close> as far as the source sets it: sync to disk, and no write-ahead log.\<close>

record write_options =
  wo_sync :: bool
  wo_disable_wal :: bool

datatype db_flush = Disable | Enable

text \<open>
  A RocksDB database of type \<open>'db\<close>. \<open>kv_get\<close> returns None on an I/O error, \<open>kv_write\<close> applies
  a batch of puts with some options, \<open>kv_from\<close> is what an iterator started at a key yields (None for an error
  item), \<open>kv_down\<close> what a raw iterator placed by \<open>seek_for_prev\<close> yields going backwards.
\<close>

record 'db kv_api =
  kv_get :: "'db \<Rightarrow> bytes \<Rightarrow> bytes option option"
  kv_write :: "write_options \<Rightarrow> 'db \<Rightarrow> (bytes \<times> bytes) list \<Rightarrow> 'db option"
  kv_from :: "'db \<Rightarrow> bytes \<Rightarrow> (bytes \<times> bytes) option list"
  kv_down :: "'db \<Rightarrow> bytes \<Rightarrow> (bytes \<times> bytes) list"

record codec =
  seal :: "bytes \<Rightarrow> bytes option"
  unseal :: "bytes \<Rightarrow> bytes option"
  ser_u32 :: "u32 \<Rightarrow> bytes"
  ser_key :: "u8 \<times> bytes \<Rightarrow> bytes"
  de_key :: "bytes \<Rightarrow> (u8 \<times> bytes) option"
  ser_header :: "block_header \<Rightarrow> bytes"
  row_header :: "bytes \<Rightarrow> block_header option"
  ser_hash :: "block_hash \<Rightarrow> bytes"
  de_hash :: "bytes \<Rightarrow> block_hash option"

subsection \<open>The database\<close>

definition DB_VERSION :: u32 where
  "DB_VERSION = 2"

record db_row =
  row_key :: bytes
  row_value :: bytes

definition starts_with :: "bytes \<Rightarrow> bytes \<Rightarrow> bool" where
  "starts_with prefix key \<longleftrightarrow> take (length prefix) key = prefix"

definition seal_data :: "codec \<Rightarrow> bytes \<Rightarrow> ('e, bytes) res" where
  "seal_data C value = unwrap_res ''sealing'' (seal C value)"

definition unseal_data :: "codec \<Rightarrow> bytes \<Rightarrow> ('e, bytes) res" where
  "unseal_data C value = unwrap_res ''unsealing'' (unseal C value)"

text \<open>The rows a \<open>ScanIterator\<close> yields: up to an error item or a key without the prefix.\<close>

fun scan_rows :: "codec \<Rightarrow> bytes \<Rightarrow> (bytes \<times> bytes) option list \<Rightarrow> ('e, db_row list) res" where
  "scan_rows C prefix [] = Inr []"
| "scan_rows C prefix (None # items) = Inr []"
| "scan_rows C prefix (Some (key, value) # items) =
     (if \<not> starts_with prefix key then Inr []
      else bind_res (unseal_data C value) (\<lambda>v.
           bind_res (scan_rows C prefix items) (\<lambda>rows.
             Inr (\<lparr>row_key = key, row_value = v\<rparr> # rows))))"

text \<open>A \<open>ReverseScanIterator\<close>: up to a key without the prefix, from a raw iterator.\<close>

fun scan_reverse_rows :: "codec \<Rightarrow> bytes \<Rightarrow> (bytes \<times> bytes) list \<Rightarrow> ('e, db_row list) res" where
  "scan_reverse_rows C prefix [] = Inr []"
| "scan_reverse_rows C prefix ((key, value) # items) =
     (if \<not> starts_with prefix key then Inr []
      else bind_res (unseal_data C value) (\<lambda>v.
           bind_res (scan_reverse_rows C prefix items) (\<lambda>rows.
             Inr (\<lparr>row_key = key, row_value = v\<rparr> # rows))))"

definition iter_scan :: "'db kv_api \<Rightarrow> codec \<Rightarrow> 'db \<Rightarrow> bytes \<Rightarrow> ('e, db_row list) res" where
  "iter_scan K C db prefix = scan_rows C prefix (kv_from K db prefix)"

definition iter_scan_from :: "'db kv_api \<Rightarrow> codec \<Rightarrow> 'db \<Rightarrow> bytes \<Rightarrow> bytes \<Rightarrow> ('e, db_row list) res" where
  "iter_scan_from K C db prefix start_at = scan_rows C prefix (kv_from K db start_at)"

definition iter_scan_reverse :: "'db kv_api \<Rightarrow> codec \<Rightarrow> 'db \<Rightarrow> bytes \<Rightarrow> bytes \<Rightarrow> ('e, db_row list) res" where
  "iter_scan_reverse K C db prefix prefix_max = scan_reverse_rows C prefix (kv_down K db prefix_max)"

fun seal_rows :: "codec \<Rightarrow> db_row list \<Rightarrow> ('e, (bytes \<times> bytes) list) res" where
  "seal_rows C [] = Inr []"
| "seal_rows C (row # rows) =
     bind_res (seal_data C (row_value row)) (\<lambda>v.
     bind_res (seal_rows C rows) (\<lambda>batch. Inr ((row_key row, v) # batch)))"

definition default_options :: write_options where
  "default_options = \<lparr>wo_sync = False, wo_disable_wal = False\<rparr>"

definition flush_options :: "db_flush \<Rightarrow> write_options" where
  "flush_options flush =
     (let do_flush = (case flush of Enable \<Rightarrow> True | Disable \<Rightarrow> False)
      in default_options\<lparr>wo_sync := do_flush, wo_disable_wal := \<not> do_flush\<rparr>)"

definition write_batch :: "'db kv_api \<Rightarrow> write_options \<Rightarrow> string \<Rightarrow> (bytes \<times> bytes) list \<Rightarrow> ('db, 'e, unit) act" where
  "write_batch K opts site batch db =
     (case kv_write K opts db batch of None \<Rightarrow> (Inl (Panic site), db) | Some db' \<Rightarrow> (Inr (), db'))"

definition db_write :: "'db kv_api \<Rightarrow> codec \<Rightarrow> db_row list \<Rightarrow> db_flush \<Rightarrow> ('db, 'e, unit) act" where
  "db_write K C rows flush =
     bind_act (ret_act (seal_rows C (sort_key row_key rows))) (\<lambda>batch. write_batch K (flush_options flush) ''write'' batch)"

definition db_put :: "'db kv_api \<Rightarrow> codec \<Rightarrow> bytes \<Rightarrow> bytes \<Rightarrow> ('db, 'e, unit) act" where
  "db_put K C key value =
     bind_act (ret_act (seal_data C value)) (\<lambda>v. write_batch K default_options ''put'' [(key, v)])"

definition db_put_sync :: "'db kv_api \<Rightarrow> codec \<Rightarrow> bytes \<Rightarrow> bytes \<Rightarrow> ('db, 'e, unit) act" where
  "db_put_sync K C key value =
     bind_act (ret_act (seal_data C value)) (\<lambda>v. write_batch K (default_options\<lparr>wo_sync := True\<rparr>) ''put_sync'' [(key, v)])"

definition db_get :: "'db kv_api \<Rightarrow> codec \<Rightarrow> 'db \<Rightarrow> bytes \<Rightarrow> ('e, bytes option) res" where
  "db_get K C db key =
     bind_res (unwrap_res ''get'' (kv_get K db key)) (\<lambda>value.
       case value of
         None \<Rightarrow> Inr None
       | Some v \<Rightarrow> bind_res (unseal_data C v) (\<lambda>x. Inr (Some x)))"

definition verify_compatibility :: "'db kv_api \<Rightarrow> codec \<Rightarrow> ('db, 'e, unit) act" where
  "verify_compatibility K C db =
     (let compatibility_bytes = ser_u32 C DB_VERSION
      in case db_get K C db [0x56] of
           Inl f \<Rightarrow> (Inl f, db)
         | Inr None \<Rightarrow> db_put K C [0x56] compatibility_bytes db
         | Inr (Some x) \<Rightarrow>
             if x \<noteq> compatibility_bytes then (Inl (Panic ''Incompatible database found''), db)
             else (Inr (), db))"

subsection \<open>Rows\<close>

record block_row =
  br_code :: u8
  br_hash :: bytes
  br_value :: bytes

definition full_hash :: "bytes \<Rightarrow> ('e, bytes) res" where
  "full_hash hash =
     bind_res (assert_res ''full_hash'' (32 \<le> length hash)) (\<lambda>_. Inr (take 32 hash))"

definition first_sync_header :: "codec \<Rightarrow> header_entry \<Rightarrow> ('e, block_row) res" where
  "first_sync_header C header_entry =
     bind_res (full_hash (he_hash header_entry)) (\<lambda>hash.
       Inr \<lparr>br_code = 0x62, br_hash = hash, br_value = ser_header C (he_header header_entry)\<rparr>)"

definition new_done :: "bytes \<Rightarrow> block_row" where
  "new_done hash = \<lparr>br_code = 0x44, br_hash = hash, br_value = []\<rparr>"

definition header_sync_filter :: bytes where
  "header_sync_filter = [0x62]"

definition done_filter :: bytes where
  "done_filter = [0x44]"

definition into_row :: "codec \<Rightarrow> block_row \<Rightarrow> db_row" where
  "into_row C r = \<lparr>row_key = ser_key C (br_code r, br_hash r), row_value = br_value r\<rparr>"

definition from_row :: "codec \<Rightarrow> db_row \<Rightarrow> ('e, block_row) res" where
  "from_row C row =
     bind_res (unwrap_res ''from_row'' (de_key C (row_key row))) (\<lambda>(code, hash).
       Inr \<lparr>br_code = code, br_hash = hash, br_value = row_value row\<rparr>)"

fun add_sync_headers :: "codec \<Rightarrow> header_entry list \<Rightarrow> ('e, db_row list) res" where
  "add_sync_headers C [] = Inr []"
| "add_sync_headers C (v # vs) =
     bind_res (full_hash (he_hash v)) (\<lambda>blockhash.
     bind_res (first_sync_header C v) (\<lambda>header_row.
     bind_res (add_sync_headers C vs) (\<lambda>rows.
       Inr (into_row C header_row # into_row C (new_done blockhash) # rows))))"

text \<open>The iterator chains of the two loaders, one row after the other.\<close>

fun blockhashes_of_rows :: "codec \<Rightarrow> db_row list \<Rightarrow> ('e, block_hash list) res" where
  "blockhashes_of_rows C [] = Inr []"
| "blockhashes_of_rows C (row # rows) =
     bind_res (from_row C row) (\<lambda>r.
     bind_res (unwrap_res ''failed to parse BlockHash'' (de_hash C (br_hash r))) (\<lambda>hash.
     bind_res (blockhashes_of_rows C rows) (\<lambda>hashes. Inr (hash # hashes))))"

definition load_blockhashes :: "'db kv_api \<Rightarrow> codec \<Rightarrow> 'db \<Rightarrow> bytes \<Rightarrow> ('e, block_hash set) res" where
  "load_blockhashes K C db prefix =
     bind_res (iter_scan K C db prefix) (\<lambda>rows.
     bind_res (blockhashes_of_rows C rows) (\<lambda>hashes. Inr (set hashes)))"

fun headers_of_rows :: "codec \<Rightarrow> db_row list \<Rightarrow> ('e, (block_hash \<times> block_header) list) res" where
  "headers_of_rows C [] = Inr []"
| "headers_of_rows C (row # rows) =
     bind_res (from_row C row) (\<lambda>r.
     bind_res (unwrap_res ''failed to parse BlockHash'' (de_hash C (br_hash r))) (\<lambda>key.
     bind_res (unwrap_res ''failed to parse BlockHeader'' (row_header C (br_value r))) (\<lambda>value.
     bind_res (headers_of_rows C rows) (\<lambda>m. Inr ((key, value) # m)))))"

definition load_sync_blockheaders ::
    "'db kv_api \<Rightarrow> codec \<Rightarrow> 'db \<Rightarrow> ('e, (block_hash \<times> block_header) list) res" where
  "load_sync_blockheaders K C db =
     bind_res (iter_scan K C db header_sync_filter) (headers_of_rows C)"

subsection \<open>The store\<close>

text \<open>\<open>RELOAD\<close> is the process-wide flag that makes the server refuse requests.\<close>

record 'db store =
  sync_db :: 'db
  synced_blockhashes :: "block_hash set"
  sync_headers :: header_list
  RELOAD :: bool

definition load_sync_headers ::
    "'db kv_api \<Rightarrow> codec \<Rightarrow> (block_header \<Rightarrow> block_hash) \<Rightarrow> 'db \<Rightarrow> ('e, header_list) res" where
  "load_sync_headers K C bh db =
     bind_res (db_get K C db [0x74]) (\<lambda>t.
       case t of
         None \<Rightarrow> Inr hl_empty
       | Some tip_bytes \<Rightarrow>
           bind_res (unwrap_res ''invalid chain tip in t'' (de_hash C tip_bytes)) (\<lambda>tip_hash.
           bind_res (load_sync_blockheaders K C db) (\<lambda>headers_map.
             hl_new bh headers_map tip_hash)))"

definition store_open ::
    "'db kv_api \<Rightarrow> codec \<Rightarrow> (block_header \<Rightarrow> block_hash) \<Rightarrow> 'db \<Rightarrow> ('e, 'db store) res" where
  "store_open K C bh raw =
     (case verify_compatibility K C raw of
        (Inl f, _) \<Rightarrow> Inl f
      | (Inr _, db) \<Rightarrow>
          bind_res (load_blockhashes K C db done_filter) (\<lambda>hashes.
          bind_res (load_sync_headers K C bh db) (\<lambda>hl.
            Inr \<lparr>sync_db = db, synced_blockhashes = hashes, sync_headers = hl, RELOAD = False\<rparr>)))"

definition reload_store ::
    "'db kv_api \<Rightarrow> codec \<Rightarrow> (block_header \<Rightarrow> block_hash) \<Rightarrow> ('db store, 'e, unit) act" where
  "reload_store K C bh s =
     (let s = s\<lparr>RELOAD := True\<rparr>
      in case load_blockhashes K C (sync_db s) done_filter of
           Inl f \<Rightarrow> (Inl f, s)
         | Inr hashes \<Rightarrow>
             (case load_sync_headers K C bh (sync_db s) of
                Inl f \<Rightarrow> (Inl f, s)
              | Inr hl \<Rightarrow>
                  (Inr (), s\<lparr>synced_blockhashes := hashes, sync_headers := hl, RELOAD := False\<rparr>)))"

definition on_db :: "('db, 'e, 'a) act \<Rightarrow> ('db store, 'e, 'a) act" where
  "on_db m s = (case m (sync_db s) of (r, db) \<Rightarrow> (r, s\<lparr>sync_db := db\<rparr>))"

end
