(* ===== verification/Store_Facts.thy ===== *)
theory Store_Facts
  imports Store
begin

text \<open>
  What the libraries promise the store (\<open>kv_ok\<close>, \<open>codec_ok\<close>), the contents of the database as a
  map from keys to unsealed values (\<open>db_map\<close>), the store's invariant, and the two facts about
  it: loading restores the in-memory state, and writing rows extends the map by them.
\<close>

subsection \<open>Documented behaviour of the libraries\<close>

definition kv_contents :: "'db kv_api \<Rightarrow> 'db \<Rightarrow> bytes \<Rightarrow> bytes option" where
  "kv_contents K db k = (case kv_get K db k of None \<Rightarrow> None | Some v \<Rightarrow> v)"

definition puts :: "(bytes \<Rightarrow> bytes option) \<Rightarrow> (bytes \<times> bytes) list \<Rightarrow> bytes \<Rightarrow> bytes option" where
  "puts m batch = foldl (\<lambda>m (k, v). m(k \<mapsto> v)) m batch"

text \<open>
  A healthy disk: gets and writes succeed, a batch applies its puts in order, and an iterator
  yields the present keys from its start on in ascending order.
\<close>

definition kv_ok :: "'db kv_api \<Rightarrow> bool" where
  "kv_ok K \<longleftrightarrow>
     (\<forall>db k. kv_get K db k \<noteq> None) \<and>
     (\<forall>opts db batch. \<exists>db'. kv_write K opts db batch = Some db' \<and>
        kv_contents K db' = puts (kv_contents K db) batch) \<and>
     (\<forall>db start. \<exists>xs. kv_from K db start = map Some xs \<and> sorted_wrt (<) (map fst xs) \<and>
        (\<forall>k v. (k, v) \<in> set xs \<longleftrightarrow> start \<le> k \<and> kv_contents K db k = Some v))"

text \<open>
  Unsealing undoes sealing, and decoding undoes encoding for keys of 32-byte hashes, for hashes
  and for the headers of \<open>U\<close>; a key is its code followed by the hash.
\<close>

definition codec_ok :: "codec \<Rightarrow> block_header set \<Rightarrow> bool" where
  "codec_ok C U \<longleftrightarrow>
     (\<forall>v. \<exists>w. seal C v = Some w \<and> unseal C w = Some v) \<and>
     (\<forall>c h. length h = 32 \<longrightarrow> ser_key C (c, h) = c # h \<and> de_key C (c # h) = Some (c, h)) \<and>
     (\<forall>h. length h = 32 \<longrightarrow> de_hash C h = Some h \<and> de_hash C (ser_hash C h) = Some h) \<and>
     (\<forall>h \<in> U. row_header C (ser_header C h) = Some h)"

lemma kv_okD:
  assumes "kv_ok K"
  shows "kv_get K db k = Some (kv_contents K db k)"
    and "\<exists>db'. kv_write K opts db batch = Some db' \<and> kv_contents K db' = puts (kv_contents K db) batch"
    and "\<exists>xs. kv_from K db start = map Some xs \<and> sorted_wrt (<) (map fst xs) \<and>
        (\<forall>k v. (k, v) \<in> set xs \<longleftrightarrow> start \<le> k \<and> kv_contents K db k = Some v)"
  using assms by (auto simp: kv_ok_def kv_contents_def split: option.splits)

lemma codec_okD:
  assumes "codec_ok C U"
  shows "\<exists>w. seal C v = Some w \<and> unseal C w = Some v"
    and "length h = 32 \<Longrightarrow> ser_key C (c, h) = c # h"
    and "length h = 32 \<Longrightarrow> de_key C (c # h) = Some (c, h)"
    and "length h = 32 \<Longrightarrow> de_hash C h = Some h"
    and "length h = 32 \<Longrightarrow> de_hash C (ser_hash C h) = Some h"
    and "x \<in> U \<Longrightarrow> row_header C (ser_header C x) = Some x"
  using assms by (auto simp: codec_ok_def)

lemma length_null_hash [simp]: "length null_hash = 32"
  by (simp add: null_hash_def)

subsection \<open>The database as a map\<close>

text \<open>Every stored value was sealed by this enclave.\<close>

definition sealed :: "'db kv_api \<Rightarrow> codec \<Rightarrow> 'db \<Rightarrow> bool" where
  "sealed K C db \<longleftrightarrow> (\<forall>k w. kv_contents K db k = Some w \<longrightarrow> unseal C w \<noteq> None)"

definition db_map :: "'db kv_api \<Rightarrow> codec \<Rightarrow> 'db \<Rightarrow> bytes \<Rightarrow> bytes option" where
  "db_map K C db k = Option.bind (kv_contents K db k) (unseal C)"

lemma db_get_eq:
  assumes "kv_ok K" "sealed K C db"
  shows "db_get K C db k = Inr (db_map K C db k)"
proof (cases "kv_contents K db k")
  case (Some w)
  then obtain v where "unseal C w = Some v" using assms(2) by (auto simp: sealed_def)
  with Some assms(1) show ?thesis by (simp add: db_get_def kv_okD db_map_def unseal_data_def)
qed (use assms(1) in \<open>simp add: db_get_def kv_okD db_map_def\<close>)

lemma seal_rows_ok:
  assumes "codec_ok C U"
  shows "\<exists>batch. seal_rows C rows = Inr batch \<and> map fst batch = map row_key rows \<and>
    map (\<lambda>(k, w). unseal C w) batch = map (\<lambda>r. Some (row_value r)) rows"
proof (induction rows)
  case (Cons r rows)
  from codec_okD(1)[OF assms, of "row_value r"] Cons.IH show ?case
    by (auto simp: seal_data_def)
qed simp

text \<open>
  \<open>written m R m'\<close>: the map \<open>m'\<close> is \<open>m\<close> with the rows of the set \<open>R\<close> put; \<open>rows_fun R\<close>: rows with
  the same key have the same value, so the order of the puts does not matter.
\<close>

definition written :: "(bytes \<Rightarrow> bytes option) \<Rightarrow> db_row set \<Rightarrow> (bytes \<Rightarrow> bytes option) \<Rightarrow> bool" where
  "written m R m' \<longleftrightarrow> (\<forall>k v. m' k = Some v \<longleftrightarrow>
     (\<exists>r \<in> R. row_key r = k \<and> row_value r = v) \<or> m k = Some v \<and> (\<forall>r \<in> R. row_key r \<noteq> k))"

definition rows_fun :: "db_row set \<Rightarrow> bool" where
  "rows_fun R \<longleftrightarrow> (\<forall>r \<in> R. \<forall>r' \<in> R. row_key r = row_key r' \<longrightarrow> row_value r = row_value r')"

lemma written_empty [simp]: "written m {} m"
  by (simp add: written_def)

lemma writtenD:
  "written m R m' \<Longrightarrow> m' k = Some v \<longleftrightarrow>
     (\<exists>r \<in> R. row_key r = k \<and> row_value r = v) \<or> m k = Some v \<and> (\<forall>r \<in> R. row_key r \<noteq> k)"
  unfolding written_def by (elim allE)

lemma written_Un:
  assumes "written m R m'" "written m' R' m''" "rows_fun (R \<union> R')"
  shows "written m (R \<union> R') m''"
  unfolding written_def writtenD[OF assms(2)] writtenD[OF assms(1)]
proof (intro allI)
  fix k v
  show "(\<exists>r \<in> R'. row_key r = k \<and> row_value r = v) \<or>
      ((\<exists>r \<in> R. row_key r = k \<and> row_value r = v) \<or> m k = Some v \<and> (\<forall>r \<in> R. row_key r \<noteq> k)) \<and>
      (\<forall>r \<in> R'. row_key r \<noteq> k) \<longleftrightarrow>
    (\<exists>r \<in> R \<union> R'. row_key r = k \<and> row_value r = v) \<or> m k = Some v \<and> (\<forall>r \<in> R \<union> R'. row_key r \<noteq> k)"
  proof (cases "\<exists>r' \<in> R'. row_key r' = k")
    case True
    then obtain r' where r': "r' \<in> R'" "row_key r' = k" by blast
    have "\<forall>r \<in> R \<union> R'. row_key r = k \<longrightarrow> row_value r = row_value r'"
      using assms(3) r' unfolding rows_fun_def by (metis UnI2)
    moreover from r' have "(\<forall>r \<in> R'. row_key r \<noteq> k) = False" "(\<forall>r \<in> R \<union> R'. row_key r \<noteq> k) = False"
      by blast+
    ultimately show ?thesis using r' unfolding Ball_def Bex_def by simp (metis UnI1 UnI2)
  next
    case False
    then show ?thesis by blast
  qed
qed

lemma written_unique:
  assumes "written m R m1" "written m R m2"
  shows "m1 = m2"
proof
  fix k
  have "m1 k = Some v \<longleftrightarrow> m2 k = Some v" for v
    unfolding writtenD[OF assms(1)] writtenD[OF assms(2)] ..
  then show "m1 k = m2 k" by (metis not_None_eq)
qed

lemma written_put: "written m {\<lparr>row_key = k, row_value = v\<rparr>} (m(k \<mapsto> v))"
  by (auto simp: written_def)

lemma rows_fun_subset: "rows_fun R \<Longrightarrow> R' \<subseteq> R \<Longrightarrow> rows_fun R'"
  by (auto simp: rows_fun_def)

lemma puts_Cons: "puts m ((k, v) # batch) = puts (m(k \<mapsto> v)) batch"
  by (simp add: puts_def)

lemma puts_written:
  assumes "map fst batch = map row_key rows"
    "map (\<lambda>(k, w). unseal C w) batch = map (\<lambda>r. Some (row_value r)) rows"
    "\<forall>k w. m k = Some w \<longrightarrow> unseal C w \<noteq> None" "rows_fun (set rows)"
  shows "(\<forall>k w. puts m batch k = Some w \<longrightarrow> unseal C w \<noteq> None) \<and>
    written (\<lambda>k. Option.bind (m k) (unseal C)) (set rows) (\<lambda>k. Option.bind (puts m batch k) (unseal C))"
  using assms
proof (induction rows arbitrary: batch m)
  case (Cons r rows)
  then obtain w batch' where b: "batch = (row_key r, w) # batch'" "unseal C w = Some (row_value r)"
    "map fst batch' = map row_key rows"
    "map (\<lambda>(k, w). unseal C w) batch' = map (\<lambda>r. Some (row_value r)) rows"
    by (auto simp: map_eq_Cons_conv)
  let ?m = "m(row_key r \<mapsto> w)"
  have "\<forall>k w. ?m k = Some w \<longrightarrow> unseal C w \<noteq> None" "rows_fun (set rows)"
    using Cons.prems(3) b(2) rows_fun_subset[OF Cons.prems(4)] by (auto simp: subset_insertI)
  from Cons.IH[OF b(3,4) this] have IH: "\<forall>k w. puts ?m batch' k = Some w \<longrightarrow> unseal C w \<noteq> None"
    "written (\<lambda>k. Option.bind (?m k) (unseal C)) (set rows)
       (\<lambda>k. Option.bind (puts ?m batch' k) (unseal C))" by blast+
  have "written (\<lambda>k. Option.bind (m k) (unseal C)) {r} (\<lambda>k. Option.bind (?m k) (unseal C))"
    using b(2) by (auto simp: written_def)
  from written_Un[OF this IH(2)] IH(1) Cons.prems(4) show ?case
    by (simp add: b(1) puts_Cons)
qed (simp add: puts_def)

lemma write_batch_written:
  assumes "kv_ok K" "sealed K C db" "rows_fun (set rows)"
    "map fst batch = map row_key rows"
    "map (\<lambda>(k, w). unseal C w) batch = map (\<lambda>r. Some (row_value r)) rows"
  shows "\<exists>db'. write_batch K opts site batch db = (Inr () :: ('e, unit) res, db') \<and> sealed K C db' \<and>
    written (db_map K C db) (set rows) (db_map K C db')"
proof -
  obtain db' where db': "kv_write K opts db batch = Some db'"
    "kv_contents K db' = puts (kv_contents K db) batch"
    using kv_okD(2)[OF assms(1)] by blast
  from puts_written[OF assms(4,5) _ assms(3), of "kv_contents K db"] assms(2) db' show ?thesis
    by (auto simp: write_batch_def sealed_def db_map_def[abs_def])
qed

lemma db_write_written:
  assumes "kv_ok K" "codec_ok C U" "sealed K C db" "rows_fun (set rows)"
  shows "\<exists>db'. db_write K C rows flush db = (Inr () :: ('e, unit) res, db') \<and> sealed K C db' \<and>
    written (db_map K C db) (set rows) (db_map K C db')"
proof -
  let ?rows = "sort_key row_key rows"
  obtain batch where b: "seal_rows C ?rows = (Inr batch :: ('e, (bytes \<times> bytes) list) res)"
    "map fst batch = map row_key ?rows"
    "map (\<lambda>(k, w). unseal C w) batch = map (\<lambda>r. Some (row_value r)) ?rows"
    using seal_rows_ok[OF assms(2), of ?rows] by blast
  obtain db' where "write_batch K (flush_options flush) ''write'' batch db = (Inr () :: ('e, unit) res, db')"
    "sealed K C db'" "written (db_map K C db) (set rows) (db_map K C db')"
    using write_batch_written[OF assms(1,3) _ b(2,3)] assms(4) by auto
  with b(1) show ?thesis by (simp add: db_write_def bind_act_def)
qed

lemma db_put_map:
  assumes "kv_ok K" "codec_ok C U" "sealed K C db"
  shows "\<exists>db'. db_put K C k v db = (Inr () :: ('e, unit) res, db') \<and> sealed K C db' \<and>
      db_map K C db' = (db_map K C db)(k \<mapsto> v)"
    and "\<exists>db'. db_put_sync K C k v db = (Inr () :: ('e, unit) res, db') \<and> sealed K C db' \<and>
      db_map K C db' = (db_map K C db)(k \<mapsto> v)"
proof -
  obtain w where w: "seal C v = Some w" "unseal C w = Some v"
    using codec_okD(1)[OF assms(2)] by blast
  let ?row = "\<lparr>row_key = k, row_value = v\<rparr>"
  have *: "\<exists>db'. write_batch K opts site [(k, w)] db = (Inr () :: ('e, unit) res, db') \<and> sealed K C db' \<and>
      db_map K C db' = (db_map K C db)(k \<mapsto> v)" for opts site
  proof -
    from write_batch_written[OF assms(1,3), of "[?row]" "[(k, w)]" opts site] w
    obtain db' where "write_batch K opts site [(k, w)] db = (Inr () :: ('e, unit) res, db')" "sealed K C db'"
      "written (db_map K C db) {?row} (db_map K C db')"
      by (auto simp: rows_fun_def)
    moreover from this(3) have "db_map K C db' = (db_map K C db)(k \<mapsto> v)"
      by (rule written_unique[OF _ written_put])
    ultimately show ?thesis by blast
  qed
  from * w show "\<exists>db'. db_put K C k v db = (Inr () :: ('e, unit) res, db') \<and> sealed K C db' \<and>
      db_map K C db' = (db_map K C db)(k \<mapsto> v)"
    and "\<exists>db'. db_put_sync K C k v db = (Inr () :: ('e, unit) res, db') \<and> sealed K C db' \<and>
      db_map K C db' = (db_map K C db)(k \<mapsto> v)"
    by (simp_all add: db_put_def db_put_sync_def bind_act_def seal_data_def)
qed

subsection \<open>Scans\<close>

lemma starts_with_byte: "starts_with [p] k \<longleftrightarrow> (\<exists>t. k = p # t)"
  by (cases k) (auto simp: starts_with_def)

text \<open>In ascending order the keys with a one-byte prefix come first among those not below it.\<close>

lemma no_prefix_after:
  assumes "[p] \<le> k" "\<not> starts_with [p] k" "k < k'"
  shows "\<not> starts_with [p] k'"
proof -
  from assms(1,2) obtain q t where k: "k = q # t" "p < q"
    by (cases k) (auto simp: starts_with_byte)
  with assms(3) show ?thesis
    by (cases k') (auto simp: starts_with_byte)
qed

lemma scan_rows_sorted:
  assumes "sorted_wrt (<) (map fst xs)" "\<forall>(k, w) \<in> set xs. [p] \<le> k \<and> unseal C w \<noteq> None"
  shows "\<exists>rows. scan_rows C [p] (map Some xs) = (Inr rows :: ('e, db_row list) res) \<and>
    distinct (map row_key rows) \<and> (\<forall>r. r \<in> set rows \<longleftrightarrow>
      (\<exists>w. (row_key r, w) \<in> set xs \<and> unseal C w = Some (row_value r) \<and> starts_with [p] (row_key r)))"
  using assms
proof (induction xs)
  case (Cons x xs)
  obtain k w where x: "x = (k, w)" by force
  obtain v where v: "unseal C w = Some v" using Cons.prems x by auto
  obtain rows where IH: "scan_rows C [p] (map Some xs) = (Inr rows :: ('e, db_row list) res)"
    "distinct (map row_key rows)" "\<forall>r. r \<in> set rows \<longleftrightarrow>
      (\<exists>w. (row_key r, w) \<in> set xs \<and> unseal C w = Some (row_value r) \<and> starts_with [p] (row_key r))"
    using Cons.IH Cons.prems by auto
  have gt: "\<forall>(k', w') \<in> set xs. k < k'" using Cons.prems(1) x by auto
  show ?case
  proof (cases "starts_with [p] k")
    case True
    have new: "r \<in> set (\<lparr>row_key = k, row_value = v\<rparr> # rows) \<longleftrightarrow>
        (\<exists>w'. (row_key r, w') \<in> set (x # xs) \<and> unseal C w' = Some (row_value r) \<and>
          starts_with [p] (row_key r))" for r
      using IH(3) gt True v x by (cases r) (auto split: prod.splits)
    have "k \<notin> row_key ` set rows"
      using IH(3) gt by fastforce
    with True v IH(1,2) x new show ?thesis
      by (intro exI[of _ "\<lparr>row_key = k, row_value = v\<rparr> # rows"])
        (simp add: unseal_data_def del: set_simps)
  next
    case False
    have "\<not> starts_with [p] k'" if "(k', w') \<in> set (x # xs)" for k' w'
      using that Cons.prems(2) False gt no_prefix_after[of p k k'] x by auto
    with False x show ?thesis by (intro exI[of _ "[]"]) auto
  qed
qed simp

lemma iter_scan_byte:
  assumes "kv_ok K" "sealed K C db"
  shows "\<exists>rows. iter_scan K C db [p] = (Inr rows :: ('e, db_row list) res) \<and>
    distinct (map row_key rows) \<and>
    (\<forall>r. r \<in> set rows \<longleftrightarrow> (\<exists>h. row_key r = p # h) \<and> db_map K C db (row_key r) = Some (row_value r))"
proof -
  obtain xs where xs: "kv_from K db [p] = map Some xs" "sorted_wrt (<) (map fst xs)"
    "\<forall>k v. (k, v) \<in> set xs \<longleftrightarrow> [p] \<le> k \<and> kv_contents K db k = Some v"
    using kv_okD(3)[OF assms(1)] by blast
  then have "\<forall>(k, w) \<in> set xs. [p] \<le> k \<and> unseal C w \<noteq> None"
    using assms(2) by (auto simp: sealed_def)
  from scan_rows_sorted[OF xs(2) this] obtain rows where
    rows: "scan_rows C [p] (map Some xs) = (Inr rows :: ('e, db_row list) res)"
    "distinct (map row_key rows)" "\<forall>r. r \<in> set rows \<longleftrightarrow>
      (\<exists>w. (row_key r, w) \<in> set xs \<and> unseal C w = Some (row_value r) \<and> starts_with [p] (row_key r))"
    by blast
  have "r \<in> set rows \<longleftrightarrow> (\<exists>h. row_key r = p # h) \<and> db_map K C db (row_key r) = Some (row_value r)" for r
    using rows(3) xs(3) by (auto simp: db_map_def starts_with_byte bind_eq_Some_conv)
  with rows xs(1) show ?thesis by (auto simp: iter_scan_def)
qed

subsection \<open>The invariant of the store\<close>

text \<open>
  \<open>db_inv\<close>: the rows of the database are exactly a done row and a header row for each synced
  hash. \<open>anchored\<close>: a hash is the tip of a chain of synced blocks down to the zero hash.
  \<open>list_inv\<close>: the header list is a chain of synced blocks. \<open>store_inv\<close> puts them together:
  every synced hash is anchored, the tip row is the list's tip, no reload is going on.
\<close>

definition db_inv ::
    "codec \<Rightarrow> (block_header \<Rightarrow> block_hash) \<Rightarrow> block_header set \<Rightarrow> (bytes \<Rightarrow> bytes option)
      \<Rightarrow> block_hash set \<Rightarrow> bool" where
  "db_inv C bh U M synced \<longleftrightarrow> synced \<subseteq> bh ` U \<and> M [0x56] = Some (ser_u32 C DB_VERSION) \<and>
     (\<forall>h v. M (0x44 # h) = Some v \<longleftrightarrow> h \<in> synced \<and> v = []) \<and>
     (\<forall>h v. M (0x62 # h) = Some v \<longleftrightarrow> h \<in> synced \<and> (\<exists>x \<in> U. bh x = h \<and> v = ser_header C x))"

definition chain_of ::
    "(block_header \<Rightarrow> block_hash) \<Rightarrow> block_header set \<Rightarrow> block_hash set \<Rightarrow> header_entry list \<Rightarrow> bool" where
  "chain_of bh U synced es \<longleftrightarrow>
     chain_ok bh es \<and> he_header ` set es \<subseteq> U \<and> he_hash ` set es \<subseteq> synced"

definition anchored ::
    "(block_header \<Rightarrow> block_hash) \<Rightarrow> block_header set \<Rightarrow> block_hash set \<Rightarrow> block_hash \<Rightarrow> bool" where
  "anchored bh U synced t \<longleftrightarrow> (\<exists>es. chain_of bh U synced es \<and> prev_hash_at es (length es) = t)"

definition list_inv ::
    "(block_header \<Rightarrow> block_hash) \<Rightarrow> block_header set \<Rightarrow> block_hash set \<Rightarrow> header_list \<Rightarrow> bool" where
  "list_inv bh U synced hl \<longleftrightarrow> hl_inv bh hl \<and> hl_indexed hl \<and> chain_of bh U synced (headers hl)"

definition hashes_ok :: "(block_header \<Rightarrow> block_hash) \<Rightarrow> block_header set \<Rightarrow> bool" where
  "hashes_ok bh U \<longleftrightarrow> hash_ok bh U \<and> (\<forall>x \<in> U. length (bh x) = 32)"

definition store_inv ::
    "'db kv_api \<Rightarrow> codec \<Rightarrow> (block_header \<Rightarrow> block_hash) \<Rightarrow> block_header set \<Rightarrow> 'db store \<Rightarrow> bool" where
  "store_inv K C bh U s \<longleftrightarrow>
     sealed K C (sync_db s) \<and> db_inv C bh U (db_map K C (sync_db s)) (synced_blockhashes s) \<and>
     (\<forall>h \<in> synced_blockhashes s. anchored bh U (synced_blockhashes s) h) \<and>
     list_inv bh U (synced_blockhashes s) (sync_headers s) \<and>
     (db_map K C (sync_db s) [0x74] = Some (ser_hash C (hl_tip (sync_headers s))) \<or>
      db_map K C (sync_db s) [0x74] = None \<and> headers (sync_headers s) = []) \<and>
     \<not> RELOAD s"

subsection \<open>Loading\<close>

lemma hashes_okD:
  "hashes_ok bh U \<Longrightarrow> hash_ok bh U"
  "hashes_ok bh U \<Longrightarrow> x \<in> U \<Longrightarrow> length (bh x) = 32"
  by (simp_all add: hashes_ok_def)

lemma blockhashes_of_rows_ok:
  assumes "codec_ok C U" "\<forall>r \<in> set rows. \<exists>h. length h = 32 \<and> row_key r = c # h"
  shows "\<exists>hashes. blockhashes_of_rows C rows = (Inr hashes :: ('e, block_hash list) res) \<and>
    set hashes = {h. c # h \<in> row_key ` set rows}"
  using assms(2)
proof (induction rows)
  case (Cons r rows)
  then obtain h hashes where h: "length h = 32" "row_key r = c # h"
    and IH: "blockhashes_of_rows C rows = (Inr hashes :: ('e, block_hash list) res)"
      "set hashes = {h. c # h \<in> row_key ` set rows}"
    by auto
  then show ?case
    using codec_okD[OF assms(1)] by (auto simp: from_row_def)
qed simp

lemma load_blockhashes_ok:
  assumes "kv_ok K" "codec_ok C U" "hashes_ok bh U" "sealed K C db"
    "db_inv C bh U (db_map K C db) synced"
  shows "load_blockhashes K C db done_filter = (Inr synced :: ('e, block_hash set) res)"
proof -
  obtain rows where rows: "iter_scan K C db [0x44] = (Inr rows :: ('e, db_row list) res)"
    "\<forall>r. r \<in> set rows \<longleftrightarrow> (\<exists>h. row_key r = 0x44 # h) \<and> db_map K C db (row_key r) = Some (row_value r)"
    using iter_scan_byte[OF assms(1,4)] by blast
  have sub: "synced \<subseteq> bh ` U" and
    dn: "\<And>h v. db_map K C db (0x44 # h) = Some v \<longleftrightarrow> h \<in> synced \<and> v = []"
    using assms(5) by (simp_all add: db_inv_def)
  have "\<forall>r \<in> set rows. \<exists>h. length h = 32 \<and> row_key r = 0x44 # h"
  proof
    fix r assume "r \<in> set rows"
    then obtain h where h: "row_key r = 0x44 # h" "h \<in> synced" using rows(2) dn by force
    with sub hashes_okD(2)[OF assms(3)] show "\<exists>h. length h = 32 \<and> row_key r = 0x44 # h" by auto
  qed
  from blockhashes_of_rows_ok[OF assms(2) this] obtain hashes where
    hashes: "blockhashes_of_rows C rows = (Inr hashes :: ('e, block_hash list) res)"
      "set hashes = {h. 0x44 # h \<in> row_key ` set rows}" by blast
  have "0x44 # h \<in> row_key ` set rows \<longleftrightarrow> h \<in> synced" for h
  proof
    assume "0x44 # h \<in> row_key ` set rows"
    then obtain r where "r \<in> set rows" "row_key r = 0x44 # h" by auto
    then show "h \<in> synced" using rows(2) dn by force
  next
    assume "h \<in> synced"
    then have "\<lparr>row_key = 0x44 # h, row_value = []\<rparr> \<in> set rows" using rows(2) dn by simp
    then show "0x44 # h \<in> row_key ` set rows" by force
  qed
  with rows(1) hashes show ?thesis by (simp add: load_blockhashes_def done_filter_def)
qed

lemma headers_of_rows_ok:
  assumes "codec_ok C U" "hashes_ok bh U"
    "\<forall>r \<in> set rows. \<exists>x \<in> U. r = \<lparr>row_key = 0x62 # bh x, row_value = ser_header C x\<rparr>"
  shows "\<exists>m. headers_of_rows C rows = (Inr m :: ('e, (block_hash \<times> block_header) list) res) \<and>
    set m = (\<lambda>x. (bh x, x)) ` {x \<in> U. \<lparr>row_key = 0x62 # bh x, row_value = ser_header C x\<rparr> \<in> set rows}"
  using assms(3)
proof (induction rows)
  case (Cons r rows)
  then obtain x m where x: "x \<in> U" "r = \<lparr>row_key = 0x62 # bh x, row_value = ser_header C x\<rparr>"
    and IH: "headers_of_rows C rows = (Inr m :: ('e, (block_hash \<times> block_header) list) res)"
      "set m = (\<lambda>x. (bh x, x)) ` {x \<in> U. \<lparr>row_key = 0x62 # bh x, row_value = ser_header C x\<rparr> \<in> set rows}"
    by auto
  have inj: "y = x" if "y \<in> U" "bh y = bh x" for y
    using hash_okD(1)[OF hashes_okD(1)[OF assms(2)]] that x(1) by blast
  have "headers_of_rows C (r # rows) = (Inr ((bh x, x) # m) :: ('e, (block_hash \<times> block_header) list) res)"
    using x IH(1) codec_okD[OF assms(1)] hashes_okD(2)[OF assms(2)] by (simp add: from_row_def)
  with IH(2) x inj show ?case by auto
qed simp

lemma load_sync_blockheaders_ok:
  assumes "kv_ok K" "codec_ok C U" "hashes_ok bh U" "sealed K C db"
    "db_inv C bh U (db_map K C db) synced"
  shows "\<exists>m. load_sync_blockheaders K C db = (Inr m :: ('e, (block_hash \<times> block_header) list) res) \<and>
    (\<forall>x \<in> U. bh x \<in> synced \<longrightarrow> map_of m (bh x) = Some x) \<and> fst ` set m \<subseteq> synced"
proof -
  obtain rows where rows: "iter_scan K C db [0x62] = (Inr rows :: ('e, db_row list) res)"
    "\<forall>r. r \<in> set rows \<longleftrightarrow> (\<exists>h. row_key r = 0x62 # h) \<and> db_map K C db (row_key r) = Some (row_value r)"
    using iter_scan_byte[OF assms(1,4)] by blast
  have hd: "\<And>h v. db_map K C db (0x62 # h) = Some v \<longleftrightarrow>
      h \<in> synced \<and> (\<exists>x \<in> U. bh x = h \<and> v = ser_header C x)"
    using assms(5) by (simp add: db_inv_def)
  have "\<forall>r \<in> set rows. \<exists>x \<in> U. r = \<lparr>row_key = 0x62 # bh x, row_value = ser_header C x\<rparr>"
  proof
    fix r assume "r \<in> set rows"
    then obtain h x where "row_key r = 0x62 # h" "x \<in> U" "bh x = h" "row_value r = ser_header C x"
      using rows(2) hd by force
    then show "\<exists>x \<in> U. r = \<lparr>row_key = 0x62 # bh x, row_value = ser_header C x\<rparr>"
      by (intro bexI[of _ x]) auto
  qed
  from headers_of_rows_ok[OF assms(2,3) this] obtain m where
    m: "headers_of_rows C rows = (Inr m :: ('e, (block_hash \<times> block_header) list) res)"
      "set m = (\<lambda>x. (bh x, x)) ` {x \<in> U. \<lparr>row_key = 0x62 # bh x, row_value = ser_header C x\<rparr> \<in> set rows}"
    by blast
  have "map_of m (bh x) = Some x" if "x \<in> U" "bh x \<in> synced" for x
  proof -
    have "(bh x, x) \<in> set m" using that m(2) rows(2) hd by auto
    then obtain y where "map_of m (bh x) = Some y" by (metis weak_map_of_SomeI)
    moreover from this have "y \<in> U" "bh y = bh x" using m(2) map_of_SomeD by fastforce+
    ultimately show ?thesis
      using hash_okD(1)[OF hashes_okD(1)[OF assms(3)]] that(1) by blast
  qed
  moreover have "fst ` set m \<subseteq> synced" using m(2) rows(2) hd by auto
  ultimately show ?thesis
    using rows(1) m(1) by (simp add: load_sync_blockheaders_def header_sync_filter_def)
qed

text \<open>From an anchored tip the chain of the tip is loaded.\<close>

lemma load_sync_headers_ok:
  assumes "kv_ok K" "codec_ok C U" "hashes_ok bh U" "sealed K C db"
    "db_inv C bh U (db_map K C db) synced"
    and "db_map K C db [0x74] = Some (ser_hash C t)" "length t = 32" "chain_of bh U synced es"
    "prev_hash_at es (length es) = t"
  shows "load_sync_headers K C bh db =
    (Inr \<lparr>headers = es, heights = index_of es, hl_tip = t\<rparr> :: ('e, header_list) res)"
proof -
  obtain m where m: "load_sync_blockheaders K C db = (Inr m :: ('e, (block_hash \<times> block_header) list) res)"
    "\<forall>x \<in> U. bh x \<in> synced \<longrightarrow> map_of m (bh x) = Some x"
    using load_sync_blockheaders_ok[OF assms(1-5)] by blast
  let ?hl = "\<lparr>headers = es, heights = index_of es, hl_tip = t\<rparr>"
  have ch: "chain_ok bh es" "he_header ` set es \<subseteq> U" "he_hash ` set es \<subseteq> synced"
    using assms(8) by (simp_all add: chain_of_def)
  have "he_hash e = bh (he_header e)" if "e \<in> set es" for e
    using that ch(1) by (auto simp: in_set_conv_nth chain_okD)
  then have "\<forall>e \<in> set es. map_of m (he_hash e) = Some (he_header e)"
    using ch m(2) by (metis image_subset_iff)
  moreover have "hl_inv bh ?hl"
    using ch(1) assms(9) by (auto simp: hl_inv_def prev_hash_at_def last_conv_nth)
  ultimately have "hl_new bh m t = (Inr ?hl :: ('e, header_list) res)"
    using hl_new_rebuild_aux[of bh ?hl m] hash_ok_subset[OF hashes_okD(1)[OF assms(3)] ch(2)] by simp
  moreover have "db_get K C db [0x74] = (Inr (Some (ser_hash C t)) :: ('e, bytes option) res)"
    using assms(6) by (simp add: db_get_eq[OF assms(1,4)])
  ultimately show ?thesis
    using m(1) codec_okD(5)[OF assms(2,7)] by (simp add: load_sync_headers_def)
qed

lemma anchored_length:
  assumes "hashes_ok bh U" "anchored bh U synced t"
  shows "length t = 32"
proof -
  obtain es where es: "chain_ok bh es" "he_header ` set es \<subseteq> U" "prev_hash_at es (length es) = t"
    using assms(2) by (auto simp: anchored_def chain_of_def)
  show ?thesis
  proof (cases "es = []")
    case True
    with es(3) show ?thesis by (simp add: prev_hash_at_def)
  next
    case False
    then have "t = bh (he_header (last es))" "last es \<in> set es"
      using es by (auto simp: prev_hash_at_last last_conv_nth chain_okD)
    with es(2) hashes_okD(2)[OF assms(1)] show ?thesis by blast
  qed
qed

lemma list_inv_anchored:
  "list_inv bh U synced hl \<Longrightarrow> anchored bh U synced (hl_tip hl)"
  by (auto simp: list_inv_def anchored_def hl_tip_prev_hash)

lemma loaded_list_inv:
  assumes "hashes_ok bh U" "chain_of bh U synced es" "prev_hash_at es (length es) = t"
  shows "list_inv bh U synced \<lparr>headers = es, heights = index_of es, hl_tip = t\<rparr>"
proof -
  have c: "chain_ok bh es" "he_header ` set es \<subseteq> U" using assms(2) by (simp_all add: chain_of_def)
  have "distinct (map he_hash es)"
    using chain_hash_distinct[OF c(1) hash_ok_subset[OF hashes_okD(1)[OF assms(1)] c(2)]] .
  then have "\<forall>i < length es. index_of es (he_hash (es ! i)) = Some i"
    using index_of_nth chain_okD(1)[OF c(1)] by simp
  with assms c(1) show ?thesis
    by (auto simp: list_inv_def hl_inv_def hl_indexed_def prev_hash_at_def last_conv_nth)
qed

lemma db_inv_loaded:
  assumes "db_inv C bh U M synced" "k \<noteq> 0x56" "k \<noteq> 0x44" "k \<noteq> 0x62"
  shows "db_inv C bh U (M([k] \<mapsto> v)) synced"
  using assms by (simp add: db_inv_def)

text \<open>A tip row that names no synced block makes every load panic.\<close>

lemma load_sync_headers_missing:
  assumes "kv_ok K" "codec_ok C U" "hashes_ok bh U" "sealed K C db"
    "db_inv C bh U (db_map K C db) synced"
    and "db_map K C db [0x74] = Some (ser_hash C t)" "length t = 32" "t \<notin> synced" "t \<noteq> null_hash"
  shows "load_sync_headers K C bh db =
    (Inl (Panic ''new: missing expected blockhash'') :: ('e, header_list) res)"
proof -
  obtain m where m: "load_sync_blockheaders K C db = (Inr m :: ('e, (block_hash \<times> block_header) list) res)"
    "fst ` set m \<subseteq> synced"
    using load_sync_blockheaders_ok[OF assms(1-5)] by blast
  with assms(8) have "map_of m t = None" by (auto simp: map_of_eq_None_iff)
  with assms(9) have "hl_new bh m t = (Inl (Panic ''new: missing expected blockhash'') :: ('e, header_list) res)"
    by (simp add: hl_new_def walk_map.simps)
  moreover have "db_get K C db [0x74] = (Inr (Some (ser_hash C t)) :: ('e, bytes option) res)"
    using assms(6) by (simp add: db_get_eq[OF assms(1,4)])
  ultimately show ?thesis
    using m(1) codec_okD(5)[OF assms(2,7)] by (simp add: load_sync_headers_def)
qed

lemma store_open_missing:
  assumes "kv_ok K" "codec_ok C U" "hashes_ok bh U" "sealed K C db"
    "db_inv C bh U (db_map K C db) synced"
    and "db_map K C db [0x74] = Some (ser_hash C t)" "length t = 32" "t \<notin> synced" "t \<noteq> null_hash"
  shows "store_open K C bh db = (Inl (Panic ''new: missing expected blockhash'') :: ('e, 'db store) res)"
proof -
  have "db_get K C db [0x56] = (Inr (Some (ser_u32 C DB_VERSION)) :: ('e, bytes option) res)"
    using assms(5) by (simp add: db_get_eq[OF assms(1,4)] db_inv_def)
  then have "verify_compatibility K C db = (Inr () :: ('e, unit) res, db)"
    by (simp add: verify_compatibility_def)
  moreover have "load_blockhashes K C db done_filter = (Inr synced :: ('e, block_hash set) res)"
    using load_blockhashes_ok[OF assms(1-5)] .
  moreover have "load_sync_headers K C bh db =
      (Inl (Panic ''new: missing expected blockhash'') :: ('e, header_list) res)"
    by (rule load_sync_headers_missing[OF assms])
  ultimately show ?thesis by (simp add: store_open_def)
qed

text \<open>Reloading a database whose tip row names an anchored tip succeeds, with that tip.\<close>

lemma reload_store_ok:
  assumes "kv_ok K" "codec_ok C U" "hashes_ok bh U" "sealed K C (sync_db s)"
    "db_inv C bh U (db_map K C (sync_db s)) synced" "\<forall>h \<in> synced. anchored bh U synced h"
    and "db_map K C (sync_db s) [0x74] = Some (ser_hash C t)" "anchored bh U synced t"
  shows "\<exists>s'. reload_store K C bh s = (Inr () :: ('e, unit) res, s') \<and> store_inv K C bh U s' \<and>
    sync_db s' = sync_db s \<and> synced_blockhashes s' = synced \<and> hl_tip (sync_headers s') = t"
proof -
  obtain es where es: "chain_of bh U synced es" "prev_hash_at es (length es) = t"
    using assms(8) by (auto simp: anchored_def)
  let ?hl = "\<lparr>headers = es, heights = index_of es, hl_tip = t\<rparr>"
  have "load_blockhashes K C (sync_db s) done_filter = (Inr synced :: ('e, block_hash set) res)"
    using load_blockhashes_ok[OF assms(1-5)] .
  moreover have "load_sync_headers K C bh (sync_db s) = (Inr ?hl :: ('e, header_list) res)"
    using load_sync_headers_ok[OF assms(1-5,7) anchored_length[OF assms(3,8)] es] .
  ultimately have "reload_store K C bh s = (Inr () :: ('e, unit) res,
      s\<lparr>RELOAD := False, synced_blockhashes := synced, sync_headers := ?hl\<rparr>)"
    by (simp add: reload_store_def Let_def)
  moreover have "list_inv bh U synced ?hl" using loaded_list_inv[OF assms(3) es] .
  ultimately show ?thesis
    using assms(4-7) by (simp add: store_inv_def)
qed

lemma reload_store_missing:
  assumes "kv_ok K" "codec_ok C U" "hashes_ok bh U" "sealed K C (sync_db s)"
    "db_inv C bh U (db_map K C (sync_db s)) synced"
    and "db_map K C (sync_db s) [0x74] = Some (ser_hash C t)" "length t = 32" "t \<notin> synced" "t \<noteq> null_hash"
  shows "reload_store K C bh s =
    (Inl (Panic ''new: missing expected blockhash'') :: ('e, unit) res, s\<lparr>RELOAD := True\<rparr>)"
proof -
  have "load_blockhashes K C (sync_db s) done_filter = (Inr synced :: ('e, block_hash set) res)"
    using load_blockhashes_ok[OF assms(1-5)] .
  moreover have "load_sync_headers K C bh (sync_db s) =
      (Inl (Panic ''new: missing expected blockhash'') :: ('e, header_list) res)"
    by (rule load_sync_headers_missing[OF assms])
  ultimately show ?thesis by (simp add: reload_store_def Let_def)
qed

text \<open>A process that opens the database finds the same blocks and the same chain again.\<close>

lemma store_open_inv:
  assumes "kv_ok K" "codec_ok C U" "hashes_ok bh U" "sealed K C db"
    "db_inv C bh U (db_map K C db) synced" "\<forall>h \<in> synced. anchored bh U synced h"
    and "db_map K C db [0x74] = Some (ser_hash C t)" "anchored bh U synced t"
  shows "\<exists>s. store_open K C bh db = (Inr s :: ('e, 'db store) res) \<and> store_inv K C bh U s \<and>
    sync_db s = db \<and> synced_blockhashes s = synced \<and> hl_tip (sync_headers s) = t"
proof -
  obtain es where es: "chain_of bh U synced es" "prev_hash_at es (length es) = t"
    using assms(8) by (auto simp: anchored_def)
  let ?hl = "\<lparr>headers = es, heights = index_of es, hl_tip = t\<rparr>"
  have "db_get K C db [0x56] = (Inr (Some (ser_u32 C DB_VERSION)) :: ('e, bytes option) res)"
    using assms(5) by (simp add: db_get_eq[OF assms(1,4)] db_inv_def)
  then have "verify_compatibility K C db = (Inr () :: ('e, unit) res, db)"
    by (simp add: verify_compatibility_def)
  moreover have "load_blockhashes K C db done_filter = (Inr synced :: ('e, block_hash set) res)"
    using load_blockhashes_ok[OF assms(1-5)] .
  moreover have "load_sync_headers K C bh db = (Inr ?hl :: ('e, header_list) res)"
    using load_sync_headers_ok[OF assms(1-5,7) anchored_length[OF assms(3,8)] es] .
  ultimately have "store_open K C bh db = (Inr \<lparr>sync_db = db, synced_blockhashes = synced,
      sync_headers = ?hl, RELOAD = False\<rparr> :: ('e, 'db store) res)"
    by (simp add: store_open_def)
  moreover have "list_inv bh U synced ?hl" using loaded_list_inv[OF assms(3) es] .
  ultimately show ?thesis
    using assms(4-7) by (simp add: store_inv_def)
qed

end
