(* ===== verification/Store_Admin.thy ===== *)
theory Store_Admin
  imports Store_Facts
begin

text \<open>
  \<open>store.rs\<close>, the rest: opening a RocksDB database with its options, flushing and compaction, and the rows
  and keys of the format that the node does not write. The library's calls are the argument \<open>A\<close>. Shown:
  maintenance leaves the contents as they are, and the keys of different kinds of rows differ.
\<close>

subsection \<open>Opening\<close>

text \<open>\<open>rocksdb::Options\<close> as far as the source sets it.\<close>

record db_options =
  do_create_if_missing :: bool
  do_max_open_files :: int
  do_compaction_style :: string
  do_compression_type :: string
  do_target_file_size_base :: u64
  do_write_buffer_size :: nat
  do_disable_auto_compactions :: bool
  do_compaction_readahead_size :: nat
  do_parallelism :: int

text \<open>None is a failure of the library.\<close>

record 'db kv_admin =
  ka_options :: db_options
  ka_open :: "db_options \<Rightarrow> string \<Rightarrow> 'db option"
  ka_compact_range :: "'db \<Rightarrow> 'db"
  ka_set_options :: "'db \<Rightarrow> (string \<times> string) list \<Rightarrow> 'db option"
  ka_flush :: "'db \<Rightarrow> 'db option"

definition open_raw_db :: "'db kv_admin \<Rightarrow> string \<Rightarrow> ('e, 'db) res" where
  "open_raw_db A path =
     (let db_opts = (ka_options A)\<lparr>
          do_create_if_missing := True,
          do_max_open_files := 10000,
          do_compaction_style := ''Level'',
          do_compression_type := ''None'',
          do_target_file_size_base := 0x16000000,
          do_write_buffer_size := 0x16000000,
          do_disable_auto_compactions := True,
          do_compaction_readahead_size := 2 ^ 20,
          do_parallelism := 2\<rparr>
      in unwrap_res ''failed to open RocksDB'' (ka_open A db_opts path))"

definition db_open :: "'db kv_api \<Rightarrow> codec \<Rightarrow> 'db kv_admin \<Rightarrow> string \<Rightarrow> ('e, 'db) res" where
  "db_open K C A path =
     bind_res (open_raw_db A path) (\<lambda>db.
       case verify_compatibility K C db of (r, db) \<Rightarrow> bind_res r (\<lambda>_. Inr db))"

text \<open>\<open>Path::join\<close> with a relative name.\<close>

definition path_join :: "string \<Rightarrow> string \<Rightarrow> string" where
  "path_join path name =
     (if path = [] then name else if last path = CHR ''/'' then path @ name else path @ CHR ''/'' # name)"

definition store_open_at_path ::
    "'db kv_api \<Rightarrow> codec \<Rightarrow> (block_header \<Rightarrow> block_hash) \<Rightarrow> 'db kv_admin \<Rightarrow> string \<Rightarrow> ('e, 'db store) res" where
  "store_open_at_path K C bh A path =
     bind_res (db_open K C A (path_join path ''sync'')) (\<lambda>db.
     bind_res (load_blockhashes K C db done_filter) (\<lambda>hashes.
     bind_res (load_sync_headers K C bh db) (\<lambda>hl.
       Inr \<lparr>sync_db = db, synced_blockhashes = hashes, sync_headers = hl, RELOAD = False\<rparr>)))"

text \<open>It is \<open>store_open\<close> of the database that the library opens.\<close>

lemma store_open_at_path_eq:
  "store_open_at_path K C bh A path = bind_res (open_raw_db A (path_join path ''sync'')) (store_open K C bh)"
proof (cases "open_raw_db A (path_join path ''sync'') :: ('a, 'b) res")
  case (Inr db)
  obtain r db' where "verify_compatibility K C db = (r :: ('a, unit) res, db')" by force
  with Inr show ?thesis by (cases r) (simp_all add: store_open_at_path_def db_open_def store_open_def)
qed (simp add: store_open_at_path_def db_open_def)

subsection \<open>Maintenance\<close>

definition db_flush_memtables :: "'db kv_admin \<Rightarrow> ('db, 'e, unit) act" where
  "db_flush_memtables A db =
     (case ka_flush A db of None \<Rightarrow> (Inl (Panic ''flush''), db) | Some db' \<Rightarrow> (Inr (), db'))"

definition db_full_compaction :: "'db kv_admin \<Rightarrow> ('db, 'e, unit) act" where
  "db_full_compaction A db = (Inr (), ka_compact_range A db)"

definition enable_auto_compaction :: "'db kv_admin \<Rightarrow> ('db, 'e, unit) act" where
  "enable_auto_compaction A db =
     (let opts = [(''disable_auto_compactions'', ''false'')]
      in case ka_set_options A db opts of
           None \<Rightarrow> (Inl (Panic ''enable_auto_compaction''), db)
         | Some db' \<Rightarrow> (Inr (), db'))"

definition full_compaction :: "'db kv_admin \<Rightarrow> ('db store, 'e, unit) act" where
  "full_compaction A =
     bind_act (on_db (db_full_compaction A)) (\<lambda>_. on_db (enable_auto_compaction A))"

text \<open>Documented: maintenance succeeds and does not change what is stored.\<close>

definition admin_ok :: "'db kv_api \<Rightarrow> 'db kv_admin \<Rightarrow> bool" where
  "admin_ok K A \<longleftrightarrow> (\<forall>db. kv_contents K (ka_compact_range A db) = kv_contents K db) \<and>
     (\<forall>db opts. \<exists>db'. ka_set_options A db opts = Some db' \<and> kv_contents K db' = kv_contents K db) \<and>
     (\<forall>db. \<exists>db'. ka_flush A db = Some db' \<and> kv_contents K db' = kv_contents K db)"

lemma admin_okD:
  assumes "admin_ok K A"
  shows "kv_contents K (ka_compact_range A db) = kv_contents K db"
    and "\<exists>db'. ka_set_options A db opts = Some db' \<and> kv_contents K db' = kv_contents K db"
    and "\<exists>db'. ka_flush A db = Some db' \<and> kv_contents K db' = kv_contents K db"
  using assms by (simp_all add: admin_ok_def)

lemma same_contents:
  assumes "kv_contents K d = kv_contents K db"
  shows "sealed K C d = sealed K C db" "db_map K C d = db_map K C db"
  using assms by (simp_all add: sealed_def db_map_def fun_eq_iff)

lemma store_inv_contents:
  assumes "store_inv K C bh U s" "kv_contents K d = kv_contents K (sync_db s)"
  shows "store_inv K C bh U (s\<lparr>sync_db := d\<rparr>)"
  using assms(1) same_contents[OF assms(2)] by (simp add: store_inv_def)

lemma full_compaction_keeps:
  assumes "admin_ok K A" "store_inv K C bh U s"
  shows "\<exists>db. full_compaction A s = (Inr () :: ('e, unit) res, s\<lparr>sync_db := db\<rparr>) \<and>
    store_inv K C bh U (s\<lparr>sync_db := db\<rparr>)"
proof -
  let ?opts = "[(''disable_auto_compactions'', ''false'')]"
  obtain db where db: "ka_set_options A (ka_compact_range A (sync_db s)) ?opts = Some db"
    "kv_contents K db = kv_contents K (sync_db s)"
    using admin_okD(2)[OF assms(1), of "ka_compact_range A (sync_db s)" ?opts] admin_okD(1)[OF assms(1)] by auto
  then have "full_compaction A s = (Inr () :: ('e, unit) res, s\<lparr>sync_db := db\<rparr>)"
    by (simp add: full_compaction_def db_full_compaction_def enable_auto_compaction_def on_db_def bind_act_def)
  with store_inv_contents[OF assms(2) db(2)] show ?thesis by blast
qed

lemma flush_keeps:
  assumes "admin_ok K A" "store_inv K C bh U s"
  shows "\<exists>db. on_db (db_flush_memtables A) s = (Inr () :: ('e, unit) res, s\<lparr>sync_db := db\<rparr>) \<and>
    store_inv K C bh U (s\<lparr>sync_db := db\<rparr>)"
proof -
  obtain db where db: "ka_flush A (sync_db s) = Some db" "kv_contents K db = kv_contents K (sync_db s)"
    using admin_okD(3)[OF assms(1)] by blast
  with store_inv_contents[OF assms(2) db(2)] show ?thesis
    by (intro exI[of _ db]) (simp add: db_flush_memtables_def on_db_def)
qed

subsection \<open>Other rows\<close>

definition new_header :: "codec \<Rightarrow> 'tx block_entry \<Rightarrow> ('e, block_row) res" where
  "new_header C block_entry =
     bind_res (full_hash (he_hash (be_entry block_entry))) (\<lambda>hash.
       Inr \<lparr>br_code = 0x42, br_hash = hash, br_value = ser_header C (bl_header (be_block block_entry))\<rparr>)"

definition header_filter :: bytes where
  "header_filter = [0x42]"

definition txids_key :: "bytes \<Rightarrow> bytes" where
  "txids_key hash = concat [[0x58], hash]"

definition meta_key :: "bytes \<Rightarrow> bytes" where
  "meta_key hash = concat [[0x4d], hash]"

text \<open>
  A row of the other format is no row of the synchronised headers: the scans of the loaders pass it by.
\<close>

lemma new_header_row:
  assumes "codec_ok C U" "length (he_hash (be_entry b)) = 32"
  shows "\<exists>r. new_header C b = (Inr r :: ('e, block_row) res) \<and>
    starts_with header_filter (row_key (into_row C r)) \<and>
    \<not> starts_with header_sync_filter (row_key (into_row C r)) \<and> \<not> starts_with done_filter (row_key (into_row C r))"
  using assms(2) codec_okD(2)[OF assms(1,2)]
  by (simp add: new_header_def full_hash_def into_row_def starts_with_def header_filter_def
      header_sync_filter_def done_filter_def)

lemma other_keys:
  assumes "k \<in> {txids_key hash, meta_key hash}"
  shows "\<not> starts_with header_sync_filter k" "\<not> starts_with done_filter k" "k \<noteq> [0x74]" "k \<noteq> [0x56]"
  using assms by (auto simp: txids_key_def meta_key_def starts_with_def header_sync_filter_def done_filter_def)

end
