(* ===== verification/Indexer.thy ===== *)
theory Indexer
  imports Store_Admin Daemon_Facts
begin

text \<open>
  \<open>index.rs\<close> and the indexing thread of \<open>main.rs\<close>: \<open>sync_headers\<close> downloads the headers below
  a tip, orders them, persists those not yet synced together with the new tip, and applies
  them to the header list; if the list then has another tip it is reloaded from the
  database. The state is the pair of the client and the store.
\<close>

datatype 'v index_error = Daemon_Error "'v rpc_error" | Tip_Mismatch

fun write_rows :: "'db kv_api \<Rightarrow> codec \<Rightarrow> db_row list list \<Rightarrow> ('db, 'e, unit) act" where
  "write_rows K C [] = ret_act (Inr ())"
| "write_rows K C (row # rest) = bind_act (db_write K C row Enable) (\<lambda>_. write_rows K C rest)"

definition add_sync_block_header ::
    "'db kv_api \<Rightarrow> codec \<Rightarrow> header_entry list \<Rightarrow> ('db store, 'e, unit) act" where
  "add_sync_block_header K C es =
     bind_act (ret_act (add_sync_headers C es)) (\<lambda>rows.
     bind_act (on_db (write_rows K C (chunks 50000 rows))) (\<lambda>_ s.
       (Inr (), s\<lparr>synced_blockhashes := synced_blockhashes s \<union> set (map he_hash es)\<rparr>)))"

definition sync_headers_to_add :: "'db store \<Rightarrow> header_entry list \<Rightarrow> header_entry list" where
  "sync_headers_to_add s new_headers = filter (\<lambda>e. he_hash e \<notin> synced_blockhashes s) new_headers"

definition apply_sync :: "header_entry list \<Rightarrow> ('db store, 'e, unit) act" where
  "apply_sync to_add s =
     (case apply_headers (sync_headers s) to_add of
        Inl f \<Rightarrow> (Inl f, s)
      | Inr hl \<Rightarrow> (Inr (), s\<lparr>sync_headers := hl\<rparr>))"

text \<open>
  The part of \<open>sync_headers\<close> after the download. A panic leaves the state as it is at that
  point: what was written to the database stays there.
\<close>

definition index_headers ::
    "'db kv_api \<Rightarrow> codec \<Rightarrow> (block_header \<Rightarrow> block_hash) \<Rightarrow> block_hash \<Rightarrow> block_header list
      \<Rightarrow> ('db store, 'v index_error, unit) act" where
  "index_headers K C bh tip new_headers s =
     bind_act (ret_act (order_headers bh (sync_headers s) new_headers)) (\<lambda>sync_header_result.
       (let to_add = sync_headers_to_add s sync_header_result
        in bind_act (add_sync_block_header K C to_add) (\<lambda>_.
           bind_act (on_db (db_put_sync K C [0x74] (ser_hash C tip))) (\<lambda>_.
           bind_act (apply_sync to_add) (\<lambda>_ s.
             bind_act (ret_act (get_tip (sync_headers s))) (\<lambda>headers_tip.
               if tip \<noteq> headers_tip then
                 bind_act (reload_store K C bh) (\<lambda>_. ret_act (Inl (Err Tip_Mismatch)))
               else ret_act (Inr ())) s))))) s"

definition sync_headers_step ::
    "'db kv_api \<Rightarrow> codec \<Rightarrow> 'v json_api \<Rightarrow> ('tx, 'pmt) bitcoin_api \<Rightarrow> ('w, 'v) transport \<Rightarrow> block_hash
      \<Rightarrow> 'w daemon \<times> 'db store \<Rightarrow> (('v index_error, unit) res \<times> 'w daemon \<times> 'db store) option" where
  "sync_headers_step K C J B send tip = (\<lambda>(d, s).
     map_option (\<lambda>(r, d').
         case map_err Daemon_Error r of
           Inl f \<Rightarrow> (Inl f, d', s)
         | Inr new_headers \<Rightarrow>
             (case index_headers K C (block_hash_of B) tip new_headers s of (r', s') \<Rightarrow> (r', d', s')))
       (get_new_headers J B send (sync_headers s) tip d))"

text \<open>The variant that asserts the tip instead of reloading.\<close>

definition index_headers_with_api_check ::
    "'db kv_api \<Rightarrow> codec \<Rightarrow> (block_header \<Rightarrow> block_hash) \<Rightarrow> block_hash \<Rightarrow> block_header list
      \<Rightarrow> ('db store, 'v index_error, unit) act" where
  "index_headers_with_api_check K C bh tip new_headers s =
     bind_act (ret_act (order_headers bh (sync_headers s) new_headers)) (\<lambda>sync_header_result.
       (let to_add = sync_headers_to_add s sync_header_result
        in bind_act (add_sync_block_header K C to_add) (\<lambda>_.
           bind_act (on_db (db_put_sync K C [0x74] (ser_hash C tip))) (\<lambda>_.
           bind_act (apply_sync to_add) (\<lambda>_ s.
             bind_act (ret_act (get_tip (sync_headers s))) (\<lambda>headers_tip.
               ret_act (assert_res ''sync_headers_with_api_check: tip'' (tip = headers_tip))) s))))) s"

subsection \<open>The indexing thread\<close>

text \<open>
  One turn of the thread's loop after the first synchronisation: the state is the tip last
  synced, the client and the store. A failed query or a failed synchronisation only
  makes the thread wait (30 seconds instead of 12) and try again.
\<close>

definition indexer_start ::
    "'db kv_api \<Rightarrow> codec \<Rightarrow> 'db kv_admin \<Rightarrow> 'v json_api \<Rightarrow> ('tx, 'pmt) bitcoin_api \<Rightarrow> ('w, 'v) transport
      \<Rightarrow> 'w daemon \<times> 'db store \<Rightarrow> (string + block_hash \<times> 'w daemon \<times> 'db store) option" where
  "indexer_start K C A J B send = (\<lambda>(d, s).
     case getbestblockhash J B send d of
       (Inl _, _) \<Rightarrow> Some (Inl ''getbestblockhash'')
     | (Inr tip, d) \<Rightarrow>
         map_option (\<lambda>(r, d, s). case r of
             Inl _ \<Rightarrow> Inl ''sync_headers''
           | Inr _ \<Rightarrow>
               (case full_compaction A s of
                  (Inl (Panic site), s) \<Rightarrow> Inl site
                | (Inl (Err e), s) \<Rightarrow> Inl e
                | (Inr _, s) \<Rightarrow> Inr (tip, d, s))) (sync_headers_step K C J B send tip (d, s)))"

definition indexer_turn ::
    "'db kv_api \<Rightarrow> codec \<Rightarrow> 'v json_api \<Rightarrow> ('tx, 'pmt) bitcoin_api \<Rightarrow> ('w, 'v) transport
      \<Rightarrow> block_hash \<times> 'w daemon \<times> 'db store \<Rightarrow> (string + block_hash \<times> 'w daemon \<times> 'db store) option" where
  "indexer_turn K C J B send = (\<lambda>(tip, d, s).
     case getbestblockhash J B send d of
       (Inl (Panic site), _) \<Rightarrow> Some (Inl site)
     | (Inl (Err e), d) \<Rightarrow> Some (Inr (tip, d, s))
     | (Inr current_tip, d) \<Rightarrow>
         if current_tip \<noteq> tip then
           map_option (\<lambda>(r, d, s). case r of
               Inl (Panic site) \<Rightarrow> Inl site
             | Inl (Err e) \<Rightarrow> Inr (tip, d, s)
             | Inr _ \<Rightarrow> Inr (current_tip, d, s)) (sync_headers_step K C J B send current_tip (d, s))
         else Some (Inr (tip, d, s)))"

end
