(* ===== verification/Indexer_Facts.thy ===== *)
theory Indexer_Facts
  imports Indexer
begin

text \<open>
  The effect of \<open>sync_headers\<close> on the store: the rows it writes extend the database by the new
  blocks, every new block is anchored, and whatever happens after that the tip row names an
  anchored tip.
\<close>

subsection \<open>Persisting entries\<close>

definition entry_rows :: "codec \<Rightarrow> header_entry list \<Rightarrow> db_row set" where
  "entry_rows C es =
     (\<lambda>e. \<lparr>row_key = 0x62 # he_hash e, row_value = ser_header C (he_header e)\<rparr>) ` set es \<union>
     (\<lambda>e. \<lparr>row_key = 0x44 # he_hash e, row_value = []\<rparr>) ` set es"

lemma add_sync_headers_rows:
  assumes "codec_ok C U" "\<forall>e \<in> set es. length (he_hash e) = 32"
  shows "\<exists>rows. add_sync_headers C es = (Inr rows :: ('e, db_row list) res) \<and> set rows = entry_rows C es"
  using assms(2)
proof (induction es)
  case (Cons e es)
  then obtain rows where IH: "add_sync_headers C es = (Inr rows :: ('e, db_row list) res)"
    "set rows = entry_rows C es" by auto
  with Cons.prems have "add_sync_headers C (e # es) =
      (Inr (\<lparr>row_key = 0x62 # he_hash e, row_value = ser_header C (he_header e)\<rparr> #
        \<lparr>row_key = 0x44 # he_hash e, row_value = []\<rparr> # rows) :: ('e, db_row list) res)"
    by (simp add: full_hash_def first_sync_header_def into_row_def new_done_def
        codec_okD(2)[OF assms(1)])
  with IH(2) show ?case by (auto simp: entry_rows_def)
qed (simp add: entry_rows_def)

lemma entry_rows_fun:
  assumes "hash_ok bh U" "entries_ok bh es" "he_header ` set es \<subseteq> U"
  shows "rows_fun (entry_rows C es)"
proof -
  let ?g = "\<lambda>k. if hd k = 0x44 then [] else ser_header C (inv_into U bh (tl k))"
  have "inv_into U bh (he_hash e) = he_header e" if "e \<in> set es" for e
    using assms that by (auto simp: hash_ok_def entries_ok_def intro: inv_into_f_f)
  then have "\<forall>r \<in> entry_rows C es. row_value r = ?g (row_key r)"
    by (auto simp: entry_rows_def)
  then show ?thesis unfolding rows_fun_def by metis
qed

lemma write_rows_written:
  assumes "kv_ok K" "codec_ok C U" "sealed K C db" "rows_fun (set (concat rss))"
  shows "\<exists>db'. write_rows K C rss db = (Inr () :: ('e, unit) res, db') \<and> sealed K C db' \<and>
    written (db_map K C db) (set (concat rss)) (db_map K C db')"
  using assms(3,4)
proof (induction rss arbitrary: db)
  case (Cons rs rss)
  have f: "rows_fun (set rs)" "rows_fun (set (concat rss))"
    using Cons.prems(2) by (auto intro: rows_fun_subset)
  obtain db1 where 1: "db_write K C rs Enable db = (Inr () :: ('e, unit) res, db1)" "sealed K C db1"
    "written (db_map K C db) (set rs) (db_map K C db1)"
    using db_write_written[OF assms(1,2) Cons.prems(1) f(1)] by blast
  obtain db2 where 2: "write_rows K C rss db1 = (Inr () :: ('e, unit) res, db2)" "sealed K C db2"
    "written (db_map K C db1) (set (concat rss)) (db_map K C db2)"
    using Cons.IH[OF 1(2) f(2)] by blast
  from written_Un[OF 1(3) 2(3)] Cons.prems(2) 1(1) 2(1,2) show ?case
    by (auto simp: bind_act_run)
qed simp

lemma entry_rows_done:
  "(\<exists>r \<in> entry_rows C es. row_key r = 0x44 # h \<and> row_value r = v) \<longleftrightarrow> h \<in> he_hash ` set es \<and> v = []"
  "(\<forall>r \<in> entry_rows C es. row_key r \<noteq> 0x44 # h) \<longleftrightarrow> h \<notin> he_hash ` set es"
  by (auto simp: entry_rows_def bex_Un ball_Un)

lemma entry_rows_header:
  "(\<exists>r \<in> entry_rows C es. row_key r = 0x62 # h \<and> row_value r = v) \<longleftrightarrow>
     (\<exists>e \<in> set es. he_hash e = h \<and> v = ser_header C (he_header e))"
  "(\<forall>r \<in> entry_rows C es. row_key r \<noteq> 0x62 # h) \<longleftrightarrow> h \<notin> he_hash ` set es"
  by (auto simp: entry_rows_def bex_Un ball_Un)

lemma entry_rows_single:
  assumes "\<forall>e \<in> set es. length (he_hash e) = 32" "r \<in> entry_rows C es"
  shows "row_key r \<noteq> [k]"
  using assms by (force simp: entry_rows_def)

lemma db_inv_written:
  assumes "db_inv C bh U M synced" "written M (entry_rows C es) M'" "hashes_ok bh U"
    "entries_ok bh es" "he_header ` set es \<subseteq> U"
  shows "db_inv C bh U M' (synced \<union> he_hash ` set es) \<and> M' [k] = M [k]"
proof -
  note w = writtenD[OF assms(2)]
  have eh: "he_hash e = bh (he_header e)" "he_header e \<in> U" if "e \<in> set es" for e
    using that assms(4,5) by (auto simp: entries_ok_def)
  have inj: "x = y" if "x \<in> U" "y \<in> U" "bh x = bh y" for x y
    using hash_okD(1)[OF hashes_okD(1)[OF assms(3)]] that by blast
  have l32: "\<forall>e \<in> set es. length (he_hash e) = 32"
    using eh hashes_okD(2)[OF assms(3)] by simp
  have "M' [k] = Some v \<longleftrightarrow> M [k] = Some v" for k v
    unfolding w using entry_rows_single[OF l32] by blast
  then have single: "M' [k] = M [k]" for k by (metis not_None_eq)
  have "M' (0x44 # h) = Some v \<longleftrightarrow> h \<in> synced \<union> he_hash ` set es \<and> v = []" for h v
    unfolding w entry_rows_done using assms(1) by (auto simp: db_inv_def)
  moreover have "M' (0x62 # h) = Some v \<longleftrightarrow>
      h \<in> synced \<union> he_hash ` set es \<and> (\<exists>x \<in> U. bh x = h \<and> v = ser_header C x)" for h v
  proof (cases "h \<in> he_hash ` set es")
    case True
    then obtain e where e: "e \<in> set es" "h = he_hash e" by auto
    have "(\<exists>e' \<in> set es. he_hash e' = h \<and> v = ser_header C (he_header e')) \<longleftrightarrow>
        (\<exists>x \<in> U. bh x = h \<and> v = ser_header C x)"
      using e eh inj by metis
    with True show ?thesis unfolding w entry_rows_header by simp
  next
    case False
    then have "M' (0x62 # h) = Some v \<longleftrightarrow> M (0x62 # h) = Some v"
      unfolding w entry_rows_header by auto
    with False assms(1) show ?thesis by (simp add: db_inv_def)
  qed
  moreover have "synced \<union> he_hash ` set es \<subseteq> bh ` U"
    using assms(1) eh by (auto simp: db_inv_def)
  ultimately show ?thesis
    using assms(1) single by (simp add: db_inv_def)
qed

lemma add_sync_block_header_ok:
  assumes "kv_ok K" "codec_ok C U" "hashes_ok bh U" "sealed K C (sync_db s)"
    "db_inv C bh U (db_map K C (sync_db s)) synced" "synced_blockhashes s = synced"
    "entries_ok bh es" "he_header ` set es \<subseteq> U"
  shows "\<exists>db'. add_sync_block_header K C es s = (Inr () :: ('e, unit) res,
      s\<lparr>sync_db := db', synced_blockhashes := synced \<union> he_hash ` set es\<rparr>) \<and>
    sealed K C db' \<and> db_inv C bh U (db_map K C db') (synced \<union> he_hash ` set es) \<and>
    (\<forall>k. db_map K C db' [k] = db_map K C (sync_db s) [k])"
proof -
  have "\<forall>e \<in> set es. length (he_hash e) = 32"
    using assms(7,8) hashes_okD(2)[OF assms(3)] by (auto simp: entries_ok_def)
  then obtain rows where rows: "add_sync_headers C es = (Inr rows :: ('e, db_row list) res)"
    "set rows = entry_rows C es"
    using add_sync_headers_rows[OF assms(2)] by blast
  then have cc: "set (concat (chunks 50000 rows)) = entry_rows C es" by (simp add: concat_chunks)
  obtain db' where db': "write_rows K C (chunks 50000 rows) (sync_db s) = (Inr () :: ('e, unit) res, db')"
    "sealed K C db'" "written (db_map K C (sync_db s)) (entry_rows C es) (db_map K C db')"
    using write_rows_written[OF assms(1,2,4), of "chunks 50000 rows", unfolded cc]
      entry_rows_fun[OF hashes_okD(1)[OF assms(3)] assms(7,8)] by blast
  then have "add_sync_block_header K C es s = (Inr () :: ('e, unit) res,
      s\<lparr>sync_db := db', synced_blockhashes := synced \<union> he_hash ` set es\<rparr>)"
    using rows(1) assms(6) by (simp add: add_sync_block_header_def bind_act_def on_db_def)
  moreover have "db_inv C bh U (db_map K C db') (synced \<union> he_hash ` set es) \<and>
      db_map K C db' [k] = db_map K C (sync_db s) [k]" for k
    using db_inv_written[OF assms(5) db'(3) assms(3,7,8)] .
  ultimately show ?thesis using db'(2) by blast
qed

subsection \<open>New blocks are anchored\<close>

lemma chain_of_mono: "chain_of bh U synced es \<Longrightarrow> synced \<subseteq> synced' \<Longrightarrow> chain_of bh U synced' es"
  by (auto simp: chain_of_def)

lemma anchored_mono: "anchored bh U synced t \<Longrightarrow> synced \<subseteq> synced' \<Longrightarrow> anchored bh U synced' t"
  by (auto simp: anchored_def intro: chain_of_mono)

lemma chain_of_take:
  assumes "chain_of bh U synced es"
  shows "chain_of bh U synced (take n es)"
  unfolding chain_of_def
proof (intro conjI)
  show "chain_ok bh (take n es)" using assms by (simp add: chain_of_def chain_ok_take)
  show "he_header ` set (take n es) \<subseteq> U" "he_hash ` set (take n es) \<subseteq> synced"
    using assms unfolding chain_of_def by (meson image_mono order_trans set_take_subset)+
qed

lemma chain_of_anchored:
  assumes "chain_of bh U synced es" "e \<in> set es"
  shows "anchored bh U synced (he_hash e)"
proof -
  obtain i where i: "i < length es" "e = es ! i" using assms(2) by (auto simp: in_set_conv_nth)
  then have "prev_hash_at (take (Suc i) es) (length (take (Suc i) es)) = he_hash e"
    by (simp add: prev_hash_at_def min_absorb2)
  moreover have "chain_of bh U synced (take (Suc i) es)"
    using chain_of_take[OF assms(1)] .
  ultimately show ?thesis unfolding anchored_def by blast
qed

text \<open>The entries that \<open>order\<close> returns extend a chain of the list.\<close>

lemma order_chain_of:
  assumes "list_inv bh U synced hl" "order_headers bh hl hs = (Inr es :: ('e, header_entry list) res)"
    "set hs \<subseteq> U"
  shows "\<exists>ch. chain_of bh U (synced \<union> he_hash ` set es) ch \<and> set es \<subseteq> set ch"
proof (cases "hs = []")
  case True
  with assms(2) have "es = []" using order_headers_headers[OF assms(2)] by simp
  with assms(1) show ?thesis
    by (intro exI[of _ "headers hl"]) (auto simp: list_inv_def chain_of_def)
next
  case False
  have inv: "hl_inv bh hl" "chain_of bh U synced (headers hl)" using assms(1) by (simp_all add: list_inv_def)
  obtain k hl' where k: "apply_headers hl es = (Inr hl' :: ('e, header_list) res)"
    "headers hl' = take k (headers hl) @ es"
    using order_then_apply_aux[OF inv(1) assms(2) False] by auto
  have "hl_inv bh hl'" using apply_headers_inv[OF inv(1) order_headers_entries_ok[OF assms(2)] k(1)] .
  then have "chain_ok bh (headers hl')" by (simp add: hl_inv_def)
  moreover have "he_header ` set es = set hs"
    using order_headers_headers[OF assms(2)] by (metis set_map)
  moreover have "chain_of bh U synced (take k (headers hl))" using chain_of_take[OF inv(2)] .
  ultimately show ?thesis
    using assms(3) k(2)
    by (intro exI[of _ "headers hl'"]) (auto simp: chain_of_def)
qed

subsection \<open>One synchronisation\<close>

text \<open>\<open>db_at\<close>: a database of anchored blocks whose tip row names \<open>t\<close>.\<close>

definition db_at ::
    "'db kv_api \<Rightarrow> codec \<Rightarrow> (block_header \<Rightarrow> block_hash) \<Rightarrow> block_header set \<Rightarrow> 'db
      \<Rightarrow> block_hash set \<Rightarrow> block_hash \<Rightarrow> bool" where
  "db_at K C bh U db synced t \<longleftrightarrow> sealed K C db \<and> db_inv C bh U (db_map K C db) synced \<and>
     (\<forall>h \<in> synced. anchored bh U synced h) \<and> db_map K C db [0x74] = Some (ser_hash C t)"

text \<open>The last part of \<open>sync_headers\<close>, entered with everything persisted.\<close>

definition finish_sync ::
    "'db kv_api \<Rightarrow> codec \<Rightarrow> (block_header \<Rightarrow> block_hash) \<Rightarrow> block_hash \<Rightarrow> header_entry list
      \<Rightarrow> ('db store, 'v index_error, unit) act" where
  "finish_sync K C bh tip to_add =
     bind_act (apply_sync to_add) (\<lambda>_ s.
       bind_act (ret_act (get_tip (sync_headers s))) (\<lambda>headers_tip.
         if tip \<noteq> headers_tip then
           bind_act (reload_store K C bh) (\<lambda>_. ret_act (Inl (Err Tip_Mismatch)))
         else ret_act (Inr ())) s)"

lemma to_add_facts:
  "he_hash ` set es \<union> synced_blockhashes s = he_hash ` set (sync_headers_to_add s es) \<union> synced_blockhashes s"
  "entries_ok bh es \<Longrightarrow> entries_ok bh (sync_headers_to_add s es)"
  "set (sync_headers_to_add s es) \<subseteq> set es"
  by (auto simp: sync_headers_to_add_def entries_ok_filter)

lemma order_anchored:
  assumes "store_inv K C bh U s" "order_headers bh (sync_headers s) hs = (Inr es :: ('e, header_entry list) res)"
    "set hs \<subseteq> U" "h \<in> synced_blockhashes s \<union> he_hash ` set es"
  shows "anchored bh U (synced_blockhashes s \<union> he_hash ` set es) h"
proof (cases "h \<in> synced_blockhashes s")
  case True
  with assms(1) show ?thesis by (auto simp: store_inv_def intro: anchored_mono)
next
  case False
  have "list_inv bh U (synced_blockhashes s) (sync_headers s)" using assms(1) by (simp add: store_inv_def)
  then obtain ch where "chain_of bh U (synced_blockhashes s \<union> he_hash ` set es) ch" "set es \<subseteq> set ch"
    using order_chain_of[OF _ assms(2,3)] by blast
  with False assms(4) show ?thesis by (auto intro: chain_of_anchored)
qed

lemma index_headers_persists:
  assumes "kv_ok K" "codec_ok C U" "hashes_ok bh U" "store_inv K C bh U s" "set hs \<subseteq> U"
    "order_headers bh (sync_headers s) hs = (Inr es :: ('v index_error, header_entry list) res)"
  shows "\<exists>db'. db_at K C bh U db' (synced_blockhashes s \<union> he_hash ` set es) tip \<and>
    (index_headers K C bh tip hs s :: ('v index_error, unit) res \<times> _) = finish_sync K C bh tip (sync_headers_to_add s es)
      (s\<lparr>synced_blockhashes := synced_blockhashes s \<union> he_hash ` set es, sync_db := db'\<rparr>)"
proof -
  let ?S = "synced_blockhashes s" and ?add = "sync_headers_to_add s es"
  have S': "?S \<union> he_hash ` set ?add = ?S \<union> he_hash ` set es"
    using to_add_facts(1)[of es s] by blast
  have inv: "sealed K C (sync_db s)" "db_inv C bh U (db_map K C (sync_db s)) ?S"
    "\<forall>h \<in> ?S. anchored bh U ?S h" "list_inv bh U ?S (sync_headers s)"
    using assms(4) by (simp_all add: store_inv_def)
  have es: "entries_ok bh es" "he_header ` set es = set hs"
    using order_headers_entries_ok[OF assms(6)] order_headers_headers[OF assms(6)] by (auto simp flip: set_map)
  then have "entries_ok bh ?add" "he_header ` set ?add \<subseteq> U"
    using to_add_facts(2)[OF es(1)] to_add_facts(3)[of s es] assms(5) by blast+
  from add_sync_block_header_ok[OF assms(1-3) inv(1,2) refl this]
  obtain db1 where 1: "add_sync_block_header K C ?add s = (Inr () :: ('v index_error, unit) res,
      s\<lparr>sync_db := db1, synced_blockhashes := ?S \<union> he_hash ` set es\<rparr>)"
    "sealed K C db1" "db_inv C bh U (db_map K C db1) (?S \<union> he_hash ` set es)"
    unfolding S' by blast
  obtain db2 where 2: "db_put_sync K C [0x74] (ser_hash C tip) db1 = (Inr () :: ('v index_error, unit) res, db2)"
    "sealed K C db2" "db_map K C db2 = (db_map K C db1)([0x74] \<mapsto> ser_hash C tip)"
    using db_put_map(2)[OF assms(1,2) 1(2)] by blast
  have "anchored bh U (?S \<union> he_hash ` set es) h" if "h \<in> ?S \<union> he_hash ` set es" for h
    using order_anchored[OF assms(4,6,5) that] .
  with 1(3) 2 have "db_at K C bh U db2 (?S \<union> he_hash ` set es) tip"
    by (simp add: db_at_def db_inv_loaded)
  moreover have "(index_headers K C bh tip hs s :: ('v index_error, unit) res \<times> _) = finish_sync K C bh tip ?add
      (s\<lparr>synced_blockhashes := ?S \<union> he_hash ` set es, sync_db := db2\<rparr>)"
    using assms(6) 1(1) 2(1)
    by (simp add: index_headers_def finish_sync_def bind_act_def on_db_def Let_def)
  ultimately show ?thesis by blast
qed

lemma apply_headers_list_inv:
  assumes "list_inv bh U synced hl" "entries_ok bh es" "he_header ` set es \<subseteq> U"
    "apply_headers hl es = Inr hl'" "hash_ok bh U"
  shows "list_inv bh U (synced \<union> he_hash ` set es) hl'"
proof -
  have inv: "hl_inv bh hl" "hl_indexed hl" "chain_of bh U synced (headers hl)"
    using assms(1) by (simp_all add: list_inv_def)
  have sub: "set (headers hl') \<subseteq> set (headers hl) \<union> set es"
    using apply_headers_subset[OF assms(4)] .
  have img: "f ` set (headers hl') \<subseteq> f ` set (headers hl) \<union> f ` set es" for f :: "header_entry \<Rightarrow> 'b"
    using image_mono[OF sub, of f] by (simp only: image_Un)
  have old: "he_header ` set (headers hl) \<subseteq> U" "he_hash ` set (headers hl) \<subseteq> synced"
    using inv(3) by (simp_all only: chain_of_def)
  have U: "he_header ` set (headers hl') \<subseteq> U"
    using subset_trans[OF img Un_least[OF old(1) assms(3)]] .
  have "hl_inv bh hl'" using apply_headers_inv[OF inv(1) assms(2,4)] .
  moreover have "hl_indexed hl'"
    using apply_headers_indexed[OF inv(1,2) assms(2,4) hash_ok_subset[OF assms(5) U]] .
  moreover have "he_hash ` set (headers hl') \<subseteq> synced \<union> he_hash ` set es"
    using subset_trans[OF img Un_mono[OF old(2) subset_refl]] .
  ultimately show ?thesis using U by (simp add: list_inv_def chain_of_def hl_inv_def)
qed

lemma get_tip_inv: "hl_inv bh hl \<Longrightarrow> get_tip hl = Inr (hl_tip hl)"
  by (simp add: get_tip_def hl_inv_def)

text \<open>How the last part ends, whichever entries it applies, when the tip is anchored.\<close>

lemma finish_sync_result:
  fixes r :: "('v index_error, unit) res"
  assumes "kv_ok K" "codec_ok C U" "hashes_ok bh U"
    "db_at K C bh U (sync_db s) (synced_blockhashes s) tip"
    "anchored bh U (synced_blockhashes s) tip"
    "list_inv bh U (synced_blockhashes s) (sync_headers s)" "\<not> RELOAD s"
    "entries_ok bh es" "he_header ` set es \<subseteq> U" "he_hash ` set es \<subseteq> synced_blockhashes s"
    "finish_sync K C bh tip es s = (r, s')"
  shows "(r = Inr () \<or> r = Inl (Err Tip_Mismatch)) \<and> store_inv K C bh U s' \<and>
      hl_tip (sync_headers s') = tip \<or>
    (\<exists>site. r = Inl (Panic site) \<and>
      (apply_headers (sync_headers s) es :: ('v index_error, header_list) res) = Inl (Panic site) \<and> s' = s)"
proof (cases "apply_headers (sync_headers s) es :: ('v index_error, header_list) res")
  case (Inl f)
  moreover have "\<exists>site. f = Panic site"
    using Inl by (auto simp: apply_headers_eq split: if_splits)
  ultimately show ?thesis using assms(11) by (auto simp: finish_sync_def apply_sync_def bind_act_def)
next
  case (Inr hl)
  have un: "synced_blockhashes s \<union> he_hash ` set es = synced_blockhashes s" using assms(10) by blast
  have li: "list_inv bh U (synced_blockhashes s) hl"
    using apply_headers_list_inv[OF assms(6,8,9) Inr hashes_okD(1)[OF assms(3)]] unfolding un .
  then have tip: "get_tip hl = (Inr (hl_tip hl) :: ('v index_error, block_hash) res)"
    using get_tip_inv by (auto simp: list_inv_def)
  let ?s = "s\<lparr>sync_headers := hl\<rparr>"
  have fs: "(finish_sync K C bh tip es s :: ('v index_error, unit) res \<times> _) =
      (if tip \<noteq> hl_tip hl then
         bind_act (reload_store K C bh) (\<lambda>_. ret_act (Inl (Err Tip_Mismatch))) ?s
       else (Inr (), ?s))"
    using Inr tip by (simp add: finish_sync_def apply_sync_def bind_act_def)
  show ?thesis
  proof (cases "tip = hl_tip hl")
    case True
    with fs assms(4,7,11) li show ?thesis by (auto simp: store_inv_def db_at_def)
  next
    case False
    obtain s1 where "reload_store K C bh ?s = (Inr () :: ('v index_error, unit) res, s1)"
      "store_inv K C bh U s1" "hl_tip (sync_headers s1) = tip"
      using reload_store_ok[OF assms(1-3), of ?s "synced_blockhashes s" tip] assms(4,5)
      by (auto simp: db_at_def)
    with fs False assms(11) show ?thesis by (auto simp: bind_act_def)
  qed
qed

subsection \<open>Restarting\<close>

lemma store_open_at:
  assumes "kv_ok K" "codec_ok C U" "hashes_ok bh U" "db_at K C bh U db synced t" "anchored bh U synced t"
  shows "\<exists>s. store_open K C bh db = (Inr s :: ('e, 'db store) res) \<and> store_inv K C bh U s \<and>
    sync_db s = db \<and> synced_blockhashes s = synced \<and> hl_tip (sync_headers s) = t"
  using assms store_open_inv[OF assms(1-3), of db synced t] by (simp add: db_at_def)

lemma store_open_fresh:
  assumes "kv_ok K" "codec_ok C U" "hashes_ok bh U" "sealed K C db"
    "db_inv C bh U (db_map K C db) synced" "\<forall>h \<in> synced. anchored bh U synced h"
    and "db_map K C db [0x74] = None"
  shows "\<exists>s. store_open K C bh db = (Inr s :: ('e, 'db store) res) \<and> store_inv K C bh U s \<and>
    sync_db s = db \<and> synced_blockhashes s = synced \<and> sync_headers s = hl_empty"
proof -
  have "db_get K C db [0x56] = (Inr (Some (ser_u32 C DB_VERSION)) :: ('e, bytes option) res)"
    using assms(5) by (simp add: db_get_eq[OF assms(1,4)] db_inv_def)
  then have "verify_compatibility K C db = (Inr () :: ('e, unit) res, db)"
    by (simp add: verify_compatibility_def)
  moreover have "load_blockhashes K C db done_filter = (Inr synced :: ('e, block_hash set) res)"
    using load_blockhashes_ok[OF assms(1-5)] .
  moreover have "db_get K C db [0x74] = (Inr None :: ('e, bytes option) res)"
    using assms(7) by (simp add: db_get_eq[OF assms(1,4)])
  then have "load_sync_headers K C bh db = (Inr hl_empty :: ('e, header_list) res)"
    by (simp add: load_sync_headers_def)
  ultimately have "store_open K C bh db = (Inr \<lparr>sync_db = db, synced_blockhashes = synced,
      sync_headers = hl_empty, RELOAD = False\<rparr> :: ('e, 'db store) res)"
    by (simp add: store_open_def)
  moreover have "list_inv bh U synced hl_empty" "headers hl_empty = []"
    by (simp_all add: list_inv_def chain_of_def) (simp_all add: hl_empty_def)
  ultimately show ?thesis
    using assms(4-7) by (simp add: store_inv_def)
qed

text \<open>Opening the database of a store again restores it.\<close>

lemma store_reopen:
  assumes "kv_ok K" "codec_ok C U" "hashes_ok bh U" "store_inv K C bh U s"
  shows "\<exists>s'. store_open K C bh (sync_db s) = (Inr s' :: ('e, 'db store) res) \<and> store_inv K C bh U s' \<and>
    sync_db s' = sync_db s \<and> synced_blockhashes s' = synced_blockhashes s \<and>
    hl_tip (sync_headers s') = hl_tip (sync_headers s)"
proof (cases "db_map K C (sync_db s) [0x74] = None")
  case True
  moreover have "hl_tip (sync_headers s) = hl_tip hl_empty"
    using True assms(4) by (auto simp: store_inv_def list_inv_def hl_inv_def hl_empty_def)
  ultimately show ?thesis
    using assms(4) store_open_fresh[OF assms(1-3), of "sync_db s" "synced_blockhashes s"]
    by (auto simp: store_inv_def)
next
  case False
  with assms(4) have "db_at K C bh U (sync_db s) (synced_blockhashes s) (hl_tip (sync_headers s))"
    by (auto simp: store_inv_def db_at_def)
  moreover have "anchored bh U (synced_blockhashes s) (hl_tip (sync_headers s))"
    using assms(4) by (auto simp: store_inv_def intro: list_inv_anchored)
  ultimately show ?thesis using store_open_at[OF assms(1-3)] by blast
qed

subsection \<open>Known and anchored tips\<close>

lemma known_anchored:
  assumes "list_inv bh U synced hl" "known hl t"
  shows "anchored bh U synced t"
proof (cases "t = null_hash")
  case True
  then show ?thesis
    unfolding anchored_def by (intro exI[of _ "[]"]) (simp add: chain_of_def prev_hash_at_def)
next
  case False
  with assms(2) obtain e where "header_by_blockhash hl t = Some e" by (auto simp: known_def)
  then have "e \<in> set (headers hl)" "he_hash e = t"
    using assms(1) by (auto simp: header_by_blockhash_Some list_inv_def)
  with assms(1) show ?thesis by (auto simp: list_inv_def intro: chain_of_anchored)
qed

lemma known_synced:
  assumes "list_inv bh U synced hl" "known hl t" "t \<noteq> null_hash"
  shows "t \<in> synced"
proof -
  from assms(2,3) obtain e where "header_by_blockhash hl t = Some e" by (auto simp: known_def)
  then have "e \<in> set (headers hl)" "he_hash e = t"
    using assms(1) by (auto simp: header_by_blockhash_Some list_inv_def)
  with assms(1) show ?thesis by (auto simp: list_inv_def chain_of_def)
qed

text \<open>A chain is determined by the hash at its end.\<close>

lemma chain_unique:
  assumes "chain_ok bh es" "he_header ` set es \<subseteq> U" "hash_ok bh U" "set hs \<subseteq> U" "linked bh hs"
    "hs \<noteq> [] \<longrightarrow> prev_blockhash (hd hs) = null_hash"
    "prev_hash_at es (length es) = (if hs = [] then null_hash else bh (last hs))"
  shows "map he_header es = hs"
  using assms(1,2,4-7)
proof (induction hs arbitrary: es rule: rev_induct)
  case Nil
  show ?case
  proof (cases "es = []")
    case False
    with Nil have "bh (he_header (last es)) = null_hash" "he_header (last es) \<in> U"
      by (auto simp: prev_hash_at_def chain_okD(2)[symmetric] last_conv_nth)
    with hash_okD(2)[OF assms(3)] show ?thesis by blast
  qed simp
next
  case (snoc h hs)
  have hU: "h \<in> U" using snoc.prems(3) by simp
  have "es \<noteq> []"
    using snoc.prems(6) hash_okD(2)[OF assms(3) hU] by (auto simp: prev_hash_at_def)
  then obtain es' e where es: "es = es' @ [e]" by (metis rev_exhaust)
  have c: "chain_ok bh es'" "he_hash e = bh (he_header e)"
    "prev_blockhash (he_header e) = prev_hash_at es' (length es')"
    using snoc.prems(1) es by (auto simp: chain_ok_snoc)
  have "bh (he_header e) = bh h" using snoc.prems(6) c(2) es by (simp add: prev_hash_at_def)
  then have eh: "he_header e = h"
    using hash_okD(1)[OF assms(3) _ hU] snoc.prems(2) es by simp
  have "prev_blockhash h = (if hs = [] then null_hash else bh (last hs))"
    using snoc.prems(4,5) by (auto simp: adjacent_append)
  with c(3) eh have "prev_hash_at es' (length es') = (if hs = [] then null_hash else bh (last hs))"
    by simp
  then have "map he_header es' = hs"
    using snoc.prems c(1) es by (intro snoc.IH) (auto simp: adjacent_append hd_append split: if_splits)
  with eh es show ?case by simp
qed

lemma chain_headers_linked:
  assumes "chain_ok bh es"
  shows "linked bh (map he_header es)"
    and "es \<noteq> [] \<Longrightarrow> prev_blockhash (hd (map he_header es)) = null_hash"
    and "es \<noteq> [] \<Longrightarrow> bh (last (map he_header es)) = he_hash (last es)"
  using assms chain_ok_adjacent_headers[OF assms]
  by (auto simp: hd_conv_nth chain_okD prev_hash_at_def last_conv_nth)

text \<open>Two stores with the same tip have the same chain.\<close>

lemma store_inv_same_tip:
  assumes "hashes_ok bh U" "store_inv K C bh U s" "store_inv K' C' bh U s'"
    "hl_tip (sync_headers s) = hl_tip (sync_headers s')"
  shows "map he_header (headers (sync_headers s)) = map he_header (headers (sync_headers s'))"
proof -
  let ?es = "headers (sync_headers s)" and ?es' = "headers (sync_headers s')"
  have a: "chain_ok bh ?es" "he_header ` set ?es \<subseteq> U" "prev_hash_at ?es (length ?es) = hl_tip (sync_headers s)"
    and b: "chain_ok bh ?es'" "he_header ` set ?es' \<subseteq> U" "prev_hash_at ?es' (length ?es') = hl_tip (sync_headers s')"
    using assms(2,3) by (auto simp: store_inv_def list_inv_def chain_of_def hl_tip_prev_hash)
  show ?thesis
  proof (rule chain_unique[OF a(1,2) hashes_okD(1)[OF assms(1)]])
    show "prev_hash_at ?es (length ?es) =
        (if map he_header ?es' = [] then null_hash else bh (last (map he_header ?es')))"
      using a(3) b(3) assms(4) chain_headers_linked(3)[OF b(1)]
      by (auto simp: prev_hash_at_last) (simp add: prev_hash_at_def)
  qed (use b chain_headers_linked[OF b(1)] in auto)
qed

subsection \<open>The whole step\<close>

lemma sync_headers_step_cases:
  fixes r :: "('v index_error, unit) res"
  assumes "sync_headers_step K C J B send tip (d, s) = Some (r, d', s')"
  obtains (download) f where "get_new_headers J B send (sync_headers s) tip d = Some (Inl f, d')"
      "r = Inl (case f of Panic x \<Rightarrow> Panic x | Err e \<Rightarrow> Err (Daemon_Error e))" "s' = s"
    | (index) hs where "get_new_headers J B send (sync_headers s) tip d = Some (Inr hs, d')"
      "index_headers K C (block_hash_of B) tip hs s = (r, s')"
proof -
  obtain q d1 where q: "get_new_headers J B send (sync_headers s) tip d = Some (q, d1)"
    using assms by (cases "get_new_headers J B send (sync_headers s) tip d")
      (auto simp: sync_headers_step_def)
  show ?thesis
  proof (cases q)
    case (Inl f)
    then have "map_err Daemon_Error q = Inl (case f of Panic x \<Rightarrow> Panic x | Err e \<Rightarrow> Err (Daemon_Error e))"
      by (cases f) simp_all
    with q assms have "d' = d1" "s' = s"
      "r = Inl (case f of Panic x \<Rightarrow> Panic x | Err e \<Rightarrow> Err (Daemon_Error e))"
      by (simp_all add: sync_headers_step_def)
    with q Inl show ?thesis by (intro download[of f]) simp_all
  next
    case (Inr hs)
    obtain r1 :: "('v index_error, unit) res" and s1
      where "index_headers K C (block_hash_of B) tip hs s = (r1, s1)" by force
    moreover from this q Inr assms have "d' = d1" "r = r1" "s' = s1"
      by (simp_all add: sync_headers_step_def)
    ultimately show ?thesis using q Inr by (intro index[of hs]) simp_all
  qed
qed

lemma index_headers_order_panic:
  "order_headers bh (sync_headers s) hs = (Inl f :: ('v index_error, header_entry list) res) \<Longrightarrow>
   (index_headers K C bh tip hs s :: ('v index_error, unit) res \<times> _) = (Inl f, s)"
  by (simp add: index_headers_def bind_act_def)

lemma order_headers_Inl: "order_headers bh hl hs = Inl f \<Longrightarrow> \<exists>site. f = Panic site"
  by (auto simp: order_headers_eq split: if_splits option.splits)

text \<open>What an outcome of a synchronisation with tip \<open>tip\<close> promises.\<close>

definition good_outcome ::
    "'db kv_api \<Rightarrow> codec \<Rightarrow> (block_header \<Rightarrow> block_hash) \<Rightarrow> block_header set \<Rightarrow> block_hash \<Rightarrow> 'db store
      \<Rightarrow> ('v index_error, unit) res \<Rightarrow> 'db store \<Rightarrow> bool" where
  "good_outcome K C bh U tip s r s' \<longleftrightarrow>
     (r = Inr () \<or> r = Inl (Err Tip_Mismatch)) \<and> store_inv K C bh U s' \<and> hl_tip (sync_headers s') = tip \<or>
     (\<exists>e. r = Inl (Err (Daemon_Error e))) \<and> s' = s \<or>
     (\<exists>site. r = Inl (Panic site)) \<and>
       (\<exists>s''. store_open K C bh (sync_db s') = (Inr s'' :: (unit, 'db store) res) \<and>
          store_inv K C bh U s'' \<and> hl_tip (sync_headers s'') \<in> {hl_tip (sync_headers s), tip})"

lemma good_outcome_unchanged:
  fixes r :: "('v index_error, unit) res"
  assumes "kv_ok K" "codec_ok C U" "hashes_ok bh U" "store_inv K C bh U s"
    "r = Inl (Panic site) \<or> r = Inl (Err (Daemon_Error e))"
  shows "good_outcome K C bh U tip s r s"
  using store_reopen[OF assms(1-4)] assms(5) by (fastforce simp: good_outcome_def)

lemma list_inv_mono: "list_inv bh U synced hl \<Longrightarrow> synced \<subseteq> synced' \<Longrightarrow> list_inv bh U synced' hl"
  by (auto simp: list_inv_def intro: chain_of_mono)

lemma order_tip_anchored:
  assumes "store_inv K C bh U s" "order_headers bh (sync_headers s) hs = (Inr es :: ('e, header_entry list) res)"
    "set hs \<subseteq> U" "if hs = [] then known (sync_headers s) tip else bh (last hs) = tip"
  shows "anchored bh U (synced_blockhashes s \<union> he_hash ` set es) tip"
proof (cases "hs = []")
  case True
  have "list_inv bh U (synced_blockhashes s) (sync_headers s)" using assms(1) by (simp add: store_inv_def)
  with True assms(4) known_anchored show ?thesis by (fastforce intro: anchored_mono)
next
  case False
  have hdrs: "map he_header es = hs" using order_headers_headers[OF assms(2)] .
  with False have "es \<noteq> []" by auto
  then have "last es \<in> set es" "he_hash (last es) = tip"
    using order_headers_entries_ok[OF assms(2)] hdrs assms(4) False
    by (auto simp: entries_ok_def last_map)
  with order_anchored[OF assms(1-3)] show ?thesis by blast
qed

lemma index_headers_outcome:
  fixes r :: "('v index_error, unit) res"
  assumes "kv_ok K" "codec_ok C U" "hashes_ok bh U" "store_inv K C bh U s" "set hs \<subseteq> U"
    "if hs = [] then known (sync_headers s) tip else bh (last hs) = tip"
    "index_headers K C bh tip hs s = (r, s')"
  shows "good_outcome K C bh U tip s r s'"
proof (cases "order_headers bh (sync_headers s) hs :: ('v index_error, header_entry list) res")
  case (Inl f)
  then obtain site where "f = Panic site" using order_headers_Inl by blast
  with index_headers_order_panic[OF Inl] assms(7) have "r = Inl (Panic site)" "s' = s" by simp_all
  then show ?thesis using good_outcome_unchanged[OF assms(1-4), of r site] by simp
next
  case (Inr es)
  let ?S = "synced_blockhashes s \<union> he_hash ` set es"
  obtain db' where db': "db_at K C bh U db' ?S tip"
    "(index_headers K C bh tip hs s :: ('v index_error, unit) res \<times> _) =
      finish_sync K C bh tip (sync_headers_to_add s es) (s\<lparr>synced_blockhashes := ?S, sync_db := db'\<rparr>)"
    using index_headers_persists[OF assms(1-5) Inr] by blast
  let ?s = "s\<lparr>synced_blockhashes := ?S, sync_db := db'\<rparr>" and ?add = "sync_headers_to_add s es"
  have li: "list_inv bh U (synced_blockhashes s) (sync_headers s)"
    using assms(4) by (simp add: store_inv_def)
  have hdrs: "map he_header es = hs" using order_headers_headers[OF Inr] .
  have anch: "anchored bh U ?S tip"
    using order_tip_anchored[OF assms(4) Inr assms(5,6)] .
  have ents: "entries_ok bh ?add" "he_header ` set ?add \<subseteq> U" "he_hash ` set ?add \<subseteq> ?S"
    using to_add_facts(2)[OF order_headers_entries_ok[OF Inr], of s] to_add_facts(3)[of s es]
      hdrs assms(5) by (auto simp flip: hdrs)
  have "(r = Inr () \<or> r = Inl (Err Tip_Mismatch)) \<and> store_inv K C bh U s' \<and> hl_tip (sync_headers s') = tip \<or>
      (\<exists>site. r = Inl (Panic site)) \<and> s' = ?s"
    using finish_sync_result[OF assms(1-3), of ?s tip ?add r s'] db' anch li ents assms(4,7)
    by (auto simp: store_inv_def intro: list_inv_mono)
  moreover have "\<exists>s''. store_open K C bh db' = (Inr s'' :: (unit, 'a store) res) \<and>
      store_inv K C bh U s'' \<and> hl_tip (sync_headers s'') = tip"
    using store_open_at[OF assms(1-3) db'(1) anch] by blast
  ultimately show ?thesis by (auto simp: good_outcome_def)
qed

lemma sync_outcome:
  fixes r :: "('v index_error, unit) res"
  assumes "kv_ok K" "codec_ok C U" "hashes_ok (block_hash_of B) U" "store_inv K C (block_hash_of B) U s"
    "honest J B send P" "P d"
    "\<And>hs d'. get_new_headers J B send (sync_headers s) tip d = Some (Inr hs, d') \<Longrightarrow> set hs \<subseteq> U"
    "sync_headers_step K C J B send tip (d, s) = Some (r, d', s')"
  shows "good_outcome K C (block_hash_of B) U tip s r s'"
  using assms(8)
proof (cases rule: sync_headers_step_cases)
  case (download f)
  then show ?thesis
    using good_outcome_unchanged[OF assms(1-4), of r] by (cases f) auto
next
  case (index hs)
  from index_headers_outcome[OF assms(1-4) assms(7)[OF index(1)] get_new_headers_ends[OF index(1) assms(5,6)]
      index(2)] show ?thesis .
qed

lemma finish_sync_tip:
  assumes "hl_inv bh hl"
    "apply_headers (sync_headers s) es = (Inr hl :: ('v index_error, header_list) res)" "hl_tip hl = tip"
  shows "(finish_sync K C bh tip es s :: ('v index_error, unit) res \<times> _) = (Inr (), s\<lparr>sync_headers := hl\<rparr>)"
proof -
  have "get_tip hl = (Inr tip :: ('v index_error, block_hash) res)"
    using get_tip_inv[OF assms(1)] assms(3) by simp
  with assms(2) show ?thesis by (simp add: finish_sync_def apply_sync_def bind_act_def)
qed

lemma sync_headers_step_index:
  assumes "get_new_headers J B send (sync_headers s) tip d = Some (Inr hs, d')"
    "index_headers K C (block_hash_of B) tip hs s = (r, s')"
  shows "sync_headers_step K C J B send tip (d, s) = Some (r, d', s')"
  using assms by (simp add: sync_headers_step_def)

lemma to_add_all:
  "\<forall>e \<in> set es. he_hash e \<notin> synced_blockhashes s \<Longrightarrow> sync_headers_to_add s es = es"
  by (simp add: sync_headers_to_add_def)

lemma sync_retry:
  fixes J :: "'v json_api"
  assumes "kv_ok K" "codec_ok C U" "hashes_ok (block_hash_of B) U" "store_inv K C (block_hash_of B) U s"
    "headers (sync_headers s) \<noteq> []" "hl_tip (sync_headers s) = tip"
  shows "\<exists>s'. sync_headers_step K C J B send tip (d, s) = Some (Inr (), d, s') \<and>
    store_inv K C (block_hash_of B) U s' \<and> sync_headers s' = sync_headers s \<and>
    synced_blockhashes s' = synced_blockhashes s"
proof -
  let ?bh = "block_hash_of B"
  have li: "list_inv ?bh U (synced_blockhashes s) (sync_headers s)" and hi: "hl_inv ?bh (sync_headers s)"
    "hl_indexed (sync_headers s)" and nr: "\<not> RELOAD s"
    using assms(4) by (simp_all add: store_inv_def list_inv_def)
  have "header_by_blockhash (sync_headers s) tip = Some (last (headers (sync_headers s)))"
    using hi assms(5,6) by (simp add: header_by_blockhash_Some hl_inv_def)
  then have "known (sync_headers s) tip" by (simp add: known_def)
  then have new: "get_new_headers J B send (sync_headers s) tip d = Some (Inr [], d)"
    using assms(5) by (simp add: get_new_headers_def new_headers_loop_known)
  obtain db' where db': "db_at K C ?bh U db' (synced_blockhashes s) tip"
    "(index_headers K C ?bh tip [] s :: ('v index_error, unit) res \<times> _) =
      finish_sync K C ?bh tip [] (s\<lparr>synced_blockhashes := synced_blockhashes s, sync_db := db'\<rparr>)"
    using index_headers_persists[OF assms(1-4), of "[]" "[]" tip]
    by (auto simp: order_headers_eq sync_headers_to_add_def)
  let ?s = "s\<lparr>sync_db := db'\<rparr>"
  have "(finish_sync K C ?bh tip [] ?s :: ('v index_error, unit) res \<times> _) = (Inr (), ?s)"
    using finish_sync_tip[OF hi(1), of ?s "[]" tip] assms(6) by (simp add: apply_headers_eq)
  with db'(2) have "(index_headers K C ?bh tip [] s :: ('v index_error, unit) res \<times> _) = (Inr (), ?s)"
    by simp
  from sync_headers_step_index[OF new this] show ?thesis
    using db'(1) li nr assms(6) by (auto simp: store_inv_def db_at_def)
qed

lemma sync_progress:
  fixes J :: "'v json_api"
  assumes "kv_ok K" "codec_ok C U" "hashes_ok (block_hash_of B) U" "store_inv K C (block_hash_of B) U s"
    "serves J B send P hs" "P d" "linked (block_hash_of B) hs" "hs \<noteq> []"
    "prev_blockhash (hd hs) = null_hash" "set hs \<subseteq> U" "headers (sync_headers s) \<noteq> []"
    "\<forall>h \<in> set hs. block_hash_of B h \<in> synced_blockhashes s \<longrightarrow>
       header_by_blockhash (sync_headers s) (block_hash_of B h) \<noteq> None"
    "header_by_blockhash (sync_headers s) (block_hash_of B (last hs)) = None"
  shows "\<exists>d' s'. sync_headers_step K C J B send (block_hash_of B (last hs)) (d, s) = Some (Inr (), d', s') \<and>
    store_inv K C (block_hash_of B) U s' \<and> map he_header (headers (sync_headers s')) = hs \<and>
    synced_blockhashes s' = synced_blockhashes s \<union> block_hash_of B ` set hs"
proof -
  let ?bh = "block_hash_of B" and ?hl = "sync_headers s"
  let ?tip = "?bh (last hs)"
  have hok: "hash_ok ?bh U" using hashes_okD(1)[OF assms(3)] .
  have hi: "hl_inv ?bh ?hl" "hl_indexed ?hl" using assms(4) by (simp_all add: store_inv_def list_inv_def)
  have li: "list_inv ?bh U (synced_blockhashes s) ?hl" and nr: "\<not> RELOAD s"
    using assms(4) by (simp_all add: store_inv_def)
  have nn: "?bh h \<noteq> null_hash" if "h \<in> set hs" for h
    using hash_okD(2)[OF hok] that assms(10) by blast
  have unknown: "\<not> known ?hl ?tip" using nn[of "last hs"] assms(8,13) by (simp add: known_def)
  obtain k d' where k: "k \<le> length hs"
    "new_headers_loop J B send ?hl ?tip [] d = Some (Inr ([] @ rev (drop k hs)), d')"
    "k = 0 \<or> known ?hl (?bh (hs ! (k - 1)))" "\<forall>h \<in> set (drop k hs). \<not> known ?hl (?bh h)"
    using new_headers_loop_serves[OF assms(5-9), of ?hl "[]"] by blast
  let ?new = "drop k hs"
  have new: "get_new_headers J B send ?hl ?tip d = Some (Inr ?new, d')"
    using k(2) assms(11) by (simp add: get_new_headers_def)
  have kl: "k < length hs"
    using k(1,3) unknown assms(8) by (cases "k = length hs") (auto simp: last_conv_nth)
  then have ne: "?new \<noteq> []" by simp
  have lnk: "linked ?bh ?new" using assms(7) by (simp add: adjacent_iff)
  have prev: "prev_blockhash (hd ?new) = (if k = 0 then null_hash else ?bh (hs ! (k - 1)))"
    using assms(7,9) kl by (auto simp: hd_drop_conv_nth adjacent_iff hd_conv_nth assms(8)
        dest: spec[of _ "k - 1"])
  have kn: "k \<noteq> 0 \<Longrightarrow> header_by_blockhash ?hl (?bh (hs ! (k - 1))) \<noteq> None"
    using k(3) nn[of "hs ! (k - 1)"] kl by (auto simp: known_def)
  have subU: "set ?new \<subseteq> U" using assms(10) set_drop_subset[of k hs] by blast
  have "order_headers ?bh ?hl ?new \<noteq> (Inl f :: ('v index_error, header_entry list) res)" for f
    using lnk ne prev kn by (cases "k = 0") (auto simp: order_headers_eq split: option.splits)
  then obtain es where es: "order_headers ?bh ?hl ?new = (Inr es :: ('v index_error, header_entry list) res)"
    by (cases "order_headers ?bh ?hl ?new :: ('v index_error, header_entry list) res") auto
  have hdrs: "map he_header es = ?new" using order_headers_headers[OF es] .
  have eh: "he_hash e = ?bh (he_header e)" "he_header e \<in> set ?new" if "e \<in> set es" for e
    using order_headers_entries_ok[OF es] that hdrs by (auto simp: entries_ok_def simp flip: hdrs)
  have "he_hash e \<notin> synced_blockhashes s" if "e \<in> set es" for e
    using eh[OF that] k(4) assms(12) in_set_dropD[of "he_header e" k hs] by (auto simp: known_def)
  then have add: "sync_headers_to_add s es = es" using to_add_all by blast
  have hs_img: "he_hash ` set es = ?bh ` set ?new"
    using eh(1) by (auto simp flip: hdrs)
  let ?S = "synced_blockhashes s \<union> he_hash ` set es"
  obtain db' where db': "db_at K C ?bh U db' ?S ?tip"
    "(index_headers K C ?bh ?tip ?new s :: ('v index_error, unit) res \<times> _) =
      finish_sync K C ?bh ?tip es (s\<lparr>synced_blockhashes := ?S, sync_db := db'\<rparr>)"
    using index_headers_persists[OF assms(1-4) subU es, of ?tip] unfolding add by blast
  let ?s = "s\<lparr>synced_blockhashes := ?S, sync_db := db'\<rparr>"
  obtain hl' where ap: "apply_headers ?hl es = (Inr hl' :: ('v index_error, header_list) res)"
    "hl_tip hl' = he_hash (last es)"
    using order_then_apply_aux[OF hi(1) es ne] by auto
  have "es \<noteq> []" using hdrs ne by auto
  then have tip: "hl_tip hl' = ?tip"
    using ap(2) eh(1)[of "last es"] last_map[of es he_header] hdrs kl by (simp add: last_drop)
  have hi': "hl_inv ?bh hl'" using apply_headers_inv[OF hi(1) order_headers_entries_ok[OF es] ap(1)] .
  have li': "list_inv ?bh U ?S hl'"
    using apply_headers_list_inv[OF li order_headers_entries_ok[OF es] _ ap(1) hok] subU
    by (simp add: hdrs flip: set_map)
  have ix: "(index_headers K C ?bh ?tip ?new s :: ('v index_error, unit) res \<times> _) = (Inr (), ?s\<lparr>sync_headers := hl'\<rparr>)"
    using finish_sync_tip[OF hi', of ?s es ?tip] ap(1) tip db'(2) by simp
  have final: "map he_header (headers hl') = hs"
  proof (rule chain_unique[OF _ _ hok assms(10,7)])
    show "prev_hash_at (headers hl') (length (headers hl')) = (if hs = [] then null_hash else ?bh (last hs))"
      using hl_tip_prev_hash[OF hi'] tip assms(8) by simp
  qed (use hi' li' assms(8,9) in \<open>auto simp: hl_inv_def list_inv_def chain_of_def\<close>)
  have "?S = synced_blockhashes s \<union> ?bh ` set hs"
  proof -
    have ch: "chain_ok ?bh (headers hl')" "he_hash ` set (headers hl') \<subseteq> ?S"
      using li' by (simp_all add: list_inv_def chain_of_def)
    have "?bh ` set hs = he_hash ` set (headers hl')"
      using ch(1) by (force simp: in_set_conv_nth chain_okD simp flip: final)
    with ch(2) have "?bh ` set hs \<subseteq> ?S" by simp
    moreover have "?bh ` set ?new \<subseteq> ?bh ` set hs" using set_drop_subset[of k hs] by blast
    ultimately show ?thesis unfolding hs_img by blast
  qed
  then show ?thesis
    using final sync_headers_step_index[OF new ix] db'(1) li' tip nr by (auto simp: store_inv_def db_at_def)
qed

lemma finish_sync_missing:
  assumes "kv_ok K" "codec_ok C U" "hashes_ok bh U"
    "db_at K C bh U (sync_db s) (synced_blockhashes s) tip" "length tip = 32" "tip \<noteq> null_hash"
    "tip \<notin> synced_blockhashes s" "list_inv bh U (synced_blockhashes s) (sync_headers s)"
    "entries_ok bh es" "he_header ` set es \<subseteq> U" "he_hash ` set es \<subseteq> synced_blockhashes s"
  shows "\<exists>site s'. (finish_sync K C bh tip es s :: ('v index_error, unit) res \<times> _) = (Inl (Panic site), s') \<and>
    sync_db s' = sync_db s"
proof (cases "apply_headers (sync_headers s) es :: ('v index_error, header_list) res")
  case (Inl f)
  moreover have "\<exists>site. f = Panic site"
    using Inl by (auto simp: apply_headers_eq split: if_splits)
  ultimately show ?thesis by (auto simp: finish_sync_def apply_sync_def bind_act_def)
next
  case (Inr hl)
  have un: "synced_blockhashes s \<union> he_hash ` set es = synced_blockhashes s" using assms(11) by blast
  have li: "list_inv bh U (synced_blockhashes s) hl"
    using apply_headers_list_inv[OF assms(8-10) Inr hashes_okD(1)[OF assms(3)]] unfolding un .
  then have hi: "hl_inv bh hl" and "he_hash ` set (headers hl) \<subseteq> synced_blockhashes s"
    by (simp_all add: list_inv_def chain_of_def)
  moreover from hi have "hl_tip hl = null_hash \<or> hl_tip hl \<in> he_hash ` set (headers hl)"
    by (simp add: hl_inv_def)
  ultimately have "tip \<noteq> hl_tip hl" using assms(6,7) by blast
  moreover have "get_tip hl = (Inr (hl_tip hl) :: ('v index_error, block_hash) res)"
    using get_tip_inv[OF hi] .
  moreover have "reload_store K C bh (s\<lparr>sync_headers := hl\<rparr>) =
      (Inl (Panic ''new: missing expected blockhash'') :: ('v index_error, unit) res,
       s\<lparr>sync_headers := hl, RELOAD := True\<rparr>)"
    using reload_store_missing[OF assms(1-3), of "s\<lparr>sync_headers := hl\<rparr>" "synced_blockhashes s" tip] assms(4-7)
    by (simp add: db_at_def)
  ultimately show ?thesis
    using Inr by (simp add: finish_sync_def apply_sync_def bind_act_def)
qed

lemma sync_bricks:
  fixes J :: "'v json_api" and K :: "'db kv_api"
  assumes "kv_ok K" "codec_ok C U" "hashes_ok (block_hash_of B) U" "store_inv K C (block_hash_of B) U s"
    "get_new_headers J B send (sync_headers s) tip d = Some (Inr hs, d')" "set hs \<subseteq> U"
    "order_headers (block_hash_of B) (sync_headers s) hs = (Inr es :: ('v index_error, header_entry list) res)"
    "length tip = 32" "tip \<noteq> null_hash" "tip \<notin> synced_blockhashes s" "tip \<notin> block_hash_of B ` set hs"
  shows "\<exists>site s'. sync_headers_step K C J B send tip (d, s) =
      Some (Inl (Panic site) :: ('v index_error, unit) res, d', s') \<and>
    store_open K C (block_hash_of B) (sync_db s') =
      (Inl (Panic ''new: missing expected blockhash'') :: (unit, 'db store) res)"
proof -
  let ?bh = "block_hash_of B" and ?S = "synced_blockhashes s \<union> he_hash ` set es"
  let ?add = "sync_headers_to_add s es"
  have hdrs: "map he_header es = hs" using order_headers_headers[OF assms(7)] .
  have ents: "entries_ok ?bh ?add" "he_header ` set ?add \<subseteq> U" "he_hash ` set ?add \<subseteq> ?S"
    using to_add_facts(2)[OF order_headers_entries_ok[OF assms(7)], of s] to_add_facts(3)[of s es]
      hdrs assms(6) by (auto simp flip: hdrs)
  have img: "he_hash ` set es = ?bh ` set hs"
    using order_headers_entries_ok[OF assms(7)] by (force simp: entries_ok_def simp flip: hdrs)
  obtain db' where db': "db_at K C ?bh U db' ?S tip"
    "(index_headers K C ?bh tip hs s :: ('v index_error, unit) res \<times> _) =
      finish_sync K C ?bh tip ?add (s\<lparr>synced_blockhashes := ?S, sync_db := db'\<rparr>)"
    using index_headers_persists[OF assms(1-4,6,7)] by blast
  let ?s = "s\<lparr>synced_blockhashes := ?S, sync_db := db'\<rparr>"
  have tS: "tip \<notin> ?S" using assms(10,11) img by simp
  have li: "list_inv ?bh U ?S (sync_headers s)"
    using assms(4) by (auto simp: store_inv_def intro: list_inv_mono)
  obtain site s' where fin: "(finish_sync K C ?bh tip ?add ?s :: ('v index_error, unit) res \<times> _) =
      (Inl (Panic site), s')" "sync_db s' = db'"
    using finish_sync_missing[OF assms(1-3), of ?s tip ?add] db'(1) assms(8,9) tS li ents by auto
  have "store_open K C ?bh db' =
      (Inl (Panic ''new: missing expected blockhash'') :: (unit, 'db store) res)"
    using store_open_missing[OF assms(1-3), of db' ?S tip] db'(1) assms(8,9) tS by (simp add: db_at_def)
  with fin db'(2) sync_headers_step_index[OF assms(5)] show ?thesis by auto
qed

end
