(* ===== verification/Indexer_Properties.thy ===== *)
theory Indexer_Properties
  imports Indexer_Facts Sample_Node
begin

text \<open>
  The properties of the store and the indexer, with witnesses on a sample database: an
  association list of keys and values, unsealed, holding the genesis block of the sample chain.
\<close>

subsection \<open>A sample database\<close>

type_synonym sample_db = "(bytes \<times> bytes) list"

definition sample_kv :: "sample_db kv_api" where
  "sample_kv = \<lparr>
     kv_get = (\<lambda>db k. Some (map_of db k)),
     kv_write = (\<lambda>opts db batch. Some (rev batch @ db)),
     kv_from = (\<lambda>db start. map (\<lambda>k. Some (k, the (map_of db k)))
        (sort (remdups (filter (\<lambda>k. start \<le> k) (map fst db))))),
     kv_down = (\<lambda>db start. map (\<lambda>k. (k, the (map_of db k)))
        (rev (sort (remdups (filter (\<lambda>k. k \<le> start) (map fst db))))))\<rparr>"

definition sample_codec :: codec where
  "sample_codec = \<lparr>
     seal = Some, unseal = Some, ser_u32 = (\<lambda>n. [ucast n, 0, 0, 0]),
     ser_key = (\<lambda>(c, h). c # h), de_key = (\<lambda>k. case k of [] \<Rightarrow> None | c # h \<Rightarrow> Some (c, h)),
     ser_header = (\<lambda>h. [ucast (nonce h), hd (prev_blockhash h)]), row_header = sample_de_header,
     ser_hash = (\<lambda>h. h), de_hash = Some\<rparr>"

definition sample_genesis_db :: sample_db where
  "sample_genesis_db =
     [([0x74], 1 # replicate 31 0), (0x62 # 1 # replicate 31 0, [1, 0]), (0x44 # 1 # replicate 31 0, []),
      ([0x56], [2, 0, 0, 0])]"

definition sample_store :: "sample_db store" where
  "sample_store = \<lparr>sync_db = sample_genesis_db, synced_blockhashes = {1 # replicate 31 0},
     sync_headers = sample_genesis, RELOAD = False\<rparr>"

lemma map_of_puts: "map_of (rev batch @ db) = puts (map_of db) batch"
proof (induction batch arbitrary: db)
  case (Cons x batch)
  from Cons.IH[of "x # db"] show ?case by (cases x) (simp add: puts_Cons fun_upd_def del: map_of_append)
qed (simp add: puts_def)

lemma sample_kv_ok: "kv_ok sample_kv"
proof -
  have c: "kv_contents sample_kv db = map_of db" for db
    by (simp add: kv_contents_def[abs_def] sample_kv_def)
  have f: "\<exists>xs. kv_from sample_kv db start = map Some xs \<and> sorted_wrt (<) (map fst xs) \<and>
      (\<forall>k v. (k, v) \<in> set xs \<longleftrightarrow> start \<le> k \<and> map_of db k = Some v)" for db start
  proof -
    let ?keys = "sort (remdups (filter (\<lambda>k. start \<le> k) (map fst db)))"
    let ?xs = "map (\<lambda>k. (k, the (map_of db k))) ?keys"
    have "kv_from sample_kv db start = map Some ?xs" by (simp add: sample_kv_def)
    moreover have "map fst ?xs = ?keys" by (simp add: comp_def)
    then have "sorted_wrt (<) (map fst ?xs)" by (simp only: strict_sorted_iff) simp
    moreover have "(k, v) \<in> set ?xs \<longleftrightarrow> start \<le> k \<and> map_of db k = Some v" for k v
    proof -
      have "(k, v) \<in> set ?xs \<longleftrightarrow> start \<le> k \<and> k \<in> fst ` set db \<and> v = the (map_of db k)" by auto
      also have "\<dots> \<longleftrightarrow> start \<le> k \<and> map_of db k = Some v"
        by (cases "map_of db k") (auto simp: map_of_eq_None_iff dest!: map_of_SomeD intro: rev_image_eqI)
      finally show ?thesis .
    qed
    ultimately show ?thesis by blast
  qed
  show ?thesis
    unfolding kv_ok_def c using f
    by (intro conjI allI) (simp_all add: sample_kv_def map_of_puts del: map_of_append)
qed

lemma sample_codec_ok: "codec_ok sample_codec sample_U"
  by (simp add: codec_ok_def sample_codec_def sample_defs null_hash_Cons)

lemma sample_hashes_ok: "hashes_ok sample_hash sample_U"
  by (simp add: hashes_ok_def sample_hash_ok) (simp add: sample_hash_def)

lemma sample_genesis_in_U: "sample_header 1 null_hash \<in> sample_U"
  by (simp add: sample_headers_def)

lemma sample_list_inv: "list_inv sample_hash sample_U {1 # replicate 31 0} sample_genesis"
  by (simp add: list_inv_def hl_inv_def hl_indexed_def chain_of_def chain_ok_def sample_genesis_eq
      prev_hash_at_def sample_headers_def)
    (simp add: sample_hash_def sample_header_def null_hash_Cons)

lemma sample_db_map: "db_map sample_kv sample_codec db = map_of db"
  by (auto simp: db_map_def[abs_def] kv_contents_def sample_kv_def sample_codec_def split: option.split)

lemma sample_store_inv: "store_inv sample_kv sample_codec sample_hash sample_U sample_store"
proof -
  have "sealed sample_kv sample_codec sample_genesis_db"
    by (simp add: sealed_def sample_codec_def)
  moreover have "db_inv sample_codec sample_hash sample_U (map_of sample_genesis_db) {1 # replicate 31 0}"
    unfolding db_inv_def sample_genesis_db_def
    by (auto simp: sample_codec_def DB_VERSION_def sample_defs null_hash_Cons image_iff)
  moreover have "anchored sample_hash sample_U {1 # replicate 31 0} (1 # replicate 31 0)"
    using list_inv_anchored[OF sample_list_inv] by (simp add: sample_genesis_eq)
  moreover have "map_of sample_genesis_db [0x74] = Some (ser_hash sample_codec (hl_tip sample_genesis))"
    by (simp add: sample_genesis_db_def sample_codec_def sample_genesis_eq)
  ultimately show ?thesis
    using sample_list_inv by (simp add: store_inv_def sample_store_def sample_db_map)
qed

subsection \<open>Properties\<close>

text \<open>
  C17: the store is restored: closing and opening the database again gives the set of
  synced blocks and the tip, as a valid store; a process started on the database never
  panics in loading it.
\<close>

theorem store_reopens:
  assumes "kv_ok K" "codec_ok C U" "hashes_ok bh U" "store_inv K C bh U s"
  shows "\<exists>s'. store_open K C bh (sync_db s) = (Inr s' :: (unit, 'db store) res) \<and> store_inv K C bh U s' \<and>
    sync_db s' = sync_db s \<and> synced_blockhashes s' = synced_blockhashes s \<and>
    map he_header (headers (sync_headers s')) = map he_header (headers (sync_headers s)) \<and>
    hl_tip (sync_headers s') = hl_tip (sync_headers s)"
proof -
  obtain s' where s': "store_open K C bh (sync_db s) = (Inr s' :: (unit, 'db store) res)"
    "store_inv K C bh U s'" "sync_db s' = sync_db s" "synced_blockhashes s' = synced_blockhashes s"
    "hl_tip (sync_headers s') = hl_tip (sync_headers s)"
    using store_reopen[OF assms] by blast
  have "map he_header (headers (sync_headers s')) = map he_header (headers (sync_headers s))"
    using store_inv_same_tip[OF assms(3,4) s'(2)] s'(5) by simp
  with s' show ?thesis by blast
qed

theorem store_reopens_witness:
  "\<exists>s'. store_open sample_kv sample_codec sample_hash (sync_db sample_store) =
       (Inr s' :: (unit, sample_db store) res) \<and> store_inv sample_kv sample_codec sample_hash sample_U s' \<and>
    sync_db s' = sync_db sample_store \<and> synced_blockhashes s' = synced_blockhashes sample_store \<and>
    map he_header (headers (sync_headers s')) = map he_header (headers (sync_headers sample_store)) \<and>
    hl_tip (sync_headers s') = hl_tip (sync_headers sample_store)"
  by (rule store_reopens[OF sample_kv_ok sample_codec_ok sample_hashes_ok sample_store_inv])

text \<open>
  C10: with a node that returns the headers it is asked for, every outcome of a synchronisation
  leaves a good state. It returns normally with the requested tip as the tip of a valid
  store; it reports a tip mismatch (the requested branch had been abandoned before) and has
  then reloaded the list, with the requested tip; a failed download leaves the store as it
  was; and after a panic the database still opens to a valid store with the old or the new tip.
\<close>

theorem sync_headers_consistent:
  assumes "kv_ok K" "codec_ok C U" "hashes_ok (block_hash_of B) U" "store_inv K C (block_hash_of B) U s"
    "honest J B send P" "P d"
    "\<forall>hs d'. get_new_headers J B send (sync_headers s) tip d = Some (Inr hs, d') \<longrightarrow> set hs \<subseteq> U"
    "sync_headers_step K C J B send tip (d, s) = Some (r, d', s')"
  shows "case r of
      Inr _ \<Rightarrow> store_inv K C (block_hash_of B) U s' \<and> hl_tip (sync_headers s') = tip
    | Inl (Err Tip_Mismatch) \<Rightarrow> store_inv K C (block_hash_of B) U s' \<and> hl_tip (sync_headers s') = tip
    | Inl (Err (Daemon_Error e)) \<Rightarrow> s' = s
    | Inl (Panic site) \<Rightarrow>
        \<exists>s''. store_open K C (block_hash_of B) (sync_db s') = (Inr s'' :: (unit, 'db store) res) \<and>
          store_inv K C (block_hash_of B) U s'' \<and>
          hl_tip (sync_headers s'') \<in> {hl_tip (sync_headers s), tip}"
  using sync_outcome[OF assms(1-6) _ assms(8)] assms(7)
  by (auto simp: good_outcome_def split: sum.splits fault.splits index_error.splits)

lemma sample_new_headers:
  "on_bitcoin d \<Longrightarrow> get_new_headers js_api sample_btc sample_send sample_genesis (3 # replicate 31 0) d =
     Some (Inr [sample_headers ! 1, sample_headers ! 2],
       d\<lparr>dm_message_id := dm_message_id d + 2, dm_node := ()\<rparr>)"
  by (simp add: get_new_headers_def sample_genesis_eq new_headers_loop_step sample_known
      sample_getblockheader sample_show_def sample_hex_def map_err_act_def
      new_headers_loop_known sample_header_def sample_headers_def)

lemma sample_store_simps:
  "sync_headers sample_store = sample_genesis" "synced_blockhashes sample_store = {1 # replicate 31 0}"
  "sync_db sample_store = sample_genesis_db" "RELOAD sample_store = False"
  by (simp_all add: sample_store_def)

lemma sample_step_ex:
  "\<exists>r d' s'. sync_headers_step sample_kv sample_codec js_api sample_btc sample_send (3 # replicate 31 0)
     (sample_client Bitcoin, sample_store) = Some (r, d', s')"
  by (simp add: sync_headers_step_def sample_store_simps sample_new_headers sample_client_def split: prod.split)

theorem sync_headers_consistent_witness:
  "\<exists>r d' s'. sync_headers_step sample_kv sample_codec js_api sample_btc sample_send (3 # replicate 31 0)
      (sample_client Bitcoin, sample_store) = Some (r, d', s') \<and>
    (r = Inr () \<longrightarrow> hl_tip (sync_headers s') = 3 # replicate 31 0)"
proof -
  obtain r d' s' where st: "sync_headers_step sample_kv sample_codec js_api sample_btc sample_send
      (3 # replicate 31 0) (sample_client Bitcoin, sample_store) = Some (r, d', s')"
    using sample_step_ex by blast
  have sub: "\<forall>hs d'. get_new_headers js_api sample_btc sample_send (sync_headers sample_store)
      (3 # replicate 31 0) (sample_client Bitcoin) = Some (Inr hs, d') \<longrightarrow> set hs \<subseteq> sample_U"
    by (simp add: sample_store_simps sample_new_headers sample_client_def) (simp add: sample_headers_def)
  have pre: "hashes_ok (block_hash_of sample_btc) sample_U" "on_bitcoin (sample_client Bitcoin)"
    "store_inv sample_kv sample_codec (block_hash_of sample_btc) sample_U sample_store"
    using sample_hashes_ok sample_store_inv by (simp_all add: sample_client_def)
  have "r = Inr () \<longrightarrow> hl_tip (sync_headers s') = 3 # replicate 31 0"
  proof
    assume "r = Inr ()"
    from sync_headers_consistent[OF sample_kv_ok sample_codec_ok pre(1,3) sample_honest pre(2) sub st,
        unfolded this]
    show "hl_tip (sync_headers s') = 3 # replicate 31 0" by simp
  qed
  with st show ?thesis by auto
qed

text \<open>
  C12: progress: against a node that serves a non-empty chain from the zero hash up to a tip that is not
  indexed yet, none of whose blocks has been synced and abandoned before (each block marked as synced is in the
  list), a synchronisation of a non-empty header list returns, normally, and the list is then exactly that chain.
\<close>

theorem sync_headers_progress:
  assumes "kv_ok K" "codec_ok C U" "hashes_ok (block_hash_of B) U" "store_inv K C (block_hash_of B) U s"
    "serves J B send P hs" "P d" "linked (block_hash_of B) hs" "hs \<noteq> []"
    "prev_blockhash (hd hs) = null_hash" "set hs \<subseteq> U" "headers (sync_headers s) \<noteq> []"
    "\<forall>h \<in> set hs. block_hash_of B h \<in> synced_blockhashes s \<longrightarrow>
       header_by_blockhash (sync_headers s) (block_hash_of B h) \<noteq> None"
    "header_by_blockhash (sync_headers s) (block_hash_of B (last hs)) = None"
  shows "\<exists>d' s'. sync_headers_step K C J B send (block_hash_of B (last hs)) (d, s) = Some (Inr (), d', s') \<and>
    store_inv K C (block_hash_of B) U s' \<and> map he_header (headers (sync_headers s')) = hs \<and>
    synced_blockhashes s' = synced_blockhashes s \<union> block_hash_of B ` set hs"
  using sync_progress[OF assms] .

theorem sync_headers_progress_witness:
  "\<exists>d' s'. sync_headers_step sample_kv sample_codec js_api sample_btc sample_send
      (block_hash_of sample_btc (last sample_headers)) (sample_client Bitcoin, sample_store) = Some (Inr (), d', s') \<and>
    store_inv sample_kv sample_codec (block_hash_of sample_btc) sample_U s' \<and>
    map he_header (headers (sync_headers s')) = sample_headers \<and>
    synced_blockhashes s' = synced_blockhashes sample_store \<union> block_hash_of sample_btc ` set sample_headers"
proof (rule sync_headers_progress[OF sample_kv_ok sample_codec_ok _ _ sample_serves])
  show "\<forall>h \<in> set sample_headers. block_hash_of sample_btc h \<in> synced_blockhashes sample_store \<longrightarrow>
       header_by_blockhash (sync_headers sample_store) (block_hash_of sample_btc h) \<noteq> None"
    by (simp add: sample_store_simps header_by_blockhash_def sample_genesis_eq sample_headers_def
        sample_hash_def sample_header_def)
  show "header_by_blockhash (sync_headers sample_store) (block_hash_of sample_btc (last sample_headers)) = None"
    by (simp add: sample_store_simps header_by_blockhash_def sample_genesis_eq sample_headers_def
        sample_hash_def sample_header_def)
qed (use sample_hashes_ok sample_store_inv sample_linked in
    \<open>simp_all add: sample_store_simps sample_genesis_eq sample_client_def, auto\<close>)

text \<open>
  A synchronisation with the tip the list already has, as the retry after a reported tip
  mismatch is, returns normally without asking the node anything.
\<close>

lemma sync_headers_retry:
  assumes "kv_ok K" "codec_ok C U" "hashes_ok (block_hash_of B) U" "store_inv K C (block_hash_of B) U s"
    "headers (sync_headers s) \<noteq> []" "hl_tip (sync_headers s) = tip"
  shows "\<exists>s'. sync_headers_step K C J B send tip (d, s) = Some (Inr (), d, s') \<and>
    store_inv K C (block_hash_of B) U s' \<and> sync_headers s' = sync_headers s \<and>
    synced_blockhashes s' = synced_blockhashes s"
  using sync_retry[OF assms] .

lemma sync_headers_retry_witness:
  "\<exists>s'. sync_headers_step sample_kv sample_codec js_api sample_btc sample_send (1 # replicate 31 0)
      (sample_client Bitcoin, sample_store) = Some (Inr (), sample_client Bitcoin, s') \<and>
    store_inv sample_kv sample_codec (block_hash_of sample_btc) sample_U s' \<and>
    sync_headers s' = sync_headers sample_store \<and> synced_blockhashes s' = synced_blockhashes sample_store"
  by (rule sync_headers_retry[OF sample_kv_ok sample_codec_ok])
    (use sample_hashes_ok sample_store_inv in \<open>simp_all add: sample_store_simps sample_genesis_eq\<close>)

text \<open>
  C37: a node that answers with a header of another hash than the requested tip destroys the
  store: the tip is persisted before it is checked, the reload panics for want of the tip's
  header, and so does every later start on the database.
\<close>

theorem false_header_bricks_store:
  assumes "kv_ok K" "codec_ok C U" "hashes_ok (block_hash_of B) U" "store_inv K C (block_hash_of B) U s"
    "get_new_headers J B send (sync_headers s) tip d = Some (Inr hs, d')" "set hs \<subseteq> U"
    "order_headers (block_hash_of B) (sync_headers s) hs = (Inr es :: ('v index_error, header_entry list) res)"
    "length tip = 32" "tip \<noteq> null_hash" "tip \<notin> synced_blockhashes s" "tip \<notin> block_hash_of B ` set hs"
  shows "\<exists>site s'. sync_headers_step K C J B send tip (d, s) =
      Some (Inl (Panic site) :: ('v index_error, unit) res, d', s') \<and>
    store_open K C (block_hash_of B) (sync_db s') =
      (Inl (Panic ''new: missing expected blockhash'') :: (unit, 'db store) res)"
  using sync_bricks[OF assms] .

text \<open>The witness's node answers every request with the header of block 2.\<close>

fun false_reply :: "js \<Rightarrow> js" where
  "false_reply (JObj [_, _, _, (_, i)]) = JObj [(''id'', i), (''result'', JStr ''hb'')]"
| "false_reply v = v"

fun false_send :: "(unit, js) transport" where
  "false_send w (JArr reqs) = (Inr (JArr (map false_reply reqs)), w)"
| "false_send w v = (Inr v, w)"

lemma false_getblockheader:
  assumes "dm_network d = Bitcoin"
  shows "getblockheader js_api sample_btc false_send b d =
    (Inr (sample_headers ! 1), d\<lparr>dm_message_id := dm_message_id d + 1, dm_node := ()\<rparr>)"
proof -
  have "request js_api false_send m p d =
      (Inr (JStr ''hb''), d\<lparr>dm_message_id := dm_message_id d + 1, dm_node := ()\<rparr>)" for m p
    unfolding request_Inr by (simp add: mk_request_def reply_value_def no_rpc_error_def)
  with assms show ?thesis
    by (simp add: getblockheader_def bind_act_def header_for_def header_from_value_def sample_hex_def
        sample_headers_def)
qed

theorem false_header_bricks_store_witness:
  "\<exists>d' site s'. sync_headers_step sample_kv sample_codec js_api sample_btc false_send (6 # replicate 31 0)
      (sample_client Bitcoin, sample_store) = Some (Inl (Panic site) :: (js index_error, unit) res, d', s') \<and>
    store_open sample_kv sample_codec (block_hash_of sample_btc) (sync_db s') =
      (Inl (Panic ''new: missing expected blockhash'') :: (unit, sample_db store) res)"
proof -
  have new: "get_new_headers js_api sample_btc false_send (sync_headers sample_store) (6 # replicate 31 0)
      (sample_client Bitcoin) = Some (Inr [sample_headers ! 1],
        sample_client Bitcoin\<lparr>dm_message_id := 1, dm_node := ()\<rparr>)"
    by (simp add: get_new_headers_def sample_store_simps sample_genesis_eq new_headers_loop_step sample_known
        false_getblockheader sample_client_def map_err_act_def new_headers_loop_known sample_headers_def
        sample_header_def)
  have ord: "order_headers (block_hash_of sample_btc) (sync_headers sample_store) [sample_headers ! 1] =
      (Inr (number_headers sample_hash 1 [sample_headers ! 1]) :: (js index_error, header_entry list) res)"
    by (simp add: order_headers_eq sample_store_simps header_by_blockhash_def sample_genesis_eq
        sample_headers_def sample_header_def null_hash_Cons)
  have tip: "(6 :: u8) # replicate 31 0 \<notin> synced_blockhashes sample_store"
    "(6 :: u8) # replicate 31 0 \<notin> block_hash_of sample_btc ` set [sample_headers ! 1]"
    by (simp_all add: sample_store_simps sample_headers_def sample_header_def sample_hash_def)
  have sub: "set [sample_headers ! 1] \<subseteq> sample_U" by (simp add: sample_headers_def)
  show ?thesis
    using false_header_bricks_store[OF sample_kv_ok sample_codec_ok _ _ new sub ord _ _ tip]
      sample_hashes_ok sample_store_inv by (simp add: null_hash_Cons) blast
qed

text \<open>
  the indexing thread, with a node that returns the headers it is asked for: a turn that does
  not panic keeps a valid store, and its last synced tip changes only to the tip of the list.
\<close>

lemma indexer_turn_keeps:
  assumes "kv_ok K" "codec_ok C U" "hashes_ok (block_hash_of B) U" "store_inv K C (block_hash_of B) U s"
    "honest J B send P" "\<forall>r d'. getbestblockhash J B send d = (r, d') \<longrightarrow> P d'"
    "\<forall>best d1 hs d2. getbestblockhash J B send d = (Inr best, d1) \<longrightarrow>
       get_new_headers J B send (sync_headers s) best d1 = Some (Inr hs, d2) \<longrightarrow> set hs \<subseteq> U"
    "indexer_turn K C J B send (tip, d, s) = Some (Inr (tip', d', s'))"
  shows "store_inv K C (block_hash_of B) U s' \<and> (tip' = tip \<or> hl_tip (sync_headers s') = tip')"
proof -
  obtain q d1 where q: "getbestblockhash J B send d = (q, d1)" by force
  show ?thesis
  proof (cases q)
    case (Inl f)
    with q assms(4,8) show ?thesis by (cases f) (auto simp: indexer_turn_def)
  next
    case (Inr best)
    show ?thesis
    proof (cases "best = tip")
      case True
      with q Inr assms(4,8) show ?thesis by (auto simp: indexer_turn_def)
    next
      case False
      with q Inr assms(8) obtain r d2 s2 where
        st: "sync_headers_step K C J B send best (d1, s) = Some (r, d2, s2)"
        and r: "(case r of Inl (Panic site) \<Rightarrow> Inl site | Inl (Err e) \<Rightarrow> Inr (tip, d2, s2)
                 | Inr _ \<Rightarrow> Inr (best, d2, s2)) = Inr (tip', d', s')"
        by (auto simp: indexer_turn_def)
      have "good_outcome K C (block_hash_of B) U best s r s2"
        using sync_outcome[OF assms(1-5) _ _ st] assms(6,7) q Inr by blast
      with r assms(4) show ?thesis
        by (auto simp: good_outcome_def split: sum.splits fault.splits)
    qed
  qed
qed

lemma sample_getbestblockhash:
  "getbestblockhash js_api sample_btc sample_send d =
     (Inr (3 # replicate 31 0), d\<lparr>dm_message_id := dm_message_id d + 1, dm_node := ()\<rparr>)"
  by (simp add: getbestblockhash_def bind_act_def sample_request parse_hash_def sample_parse_def)

lemma indexer_turn_keeps_witness:
  "\<exists>d' s'. indexer_turn sample_kv sample_codec js_api sample_btc sample_send
      (1 # replicate 31 0, sample_client Bitcoin, sample_store) = Some (Inr (3 # replicate 31 0, d', s')) \<and>
    hl_tip (sync_headers s') = 3 # replicate 31 0"
proof -
  let ?tip = "1 # replicate 31 0 :: block_hash" and ?best = "3 # replicate 31 0 :: block_hash"
  let ?d = "sample_client Bitcoin" and ?d1 = "sample_client Bitcoin\<lparr>dm_message_id := 1, dm_node := ()\<rparr>"
  have pre: "hashes_ok (block_hash_of sample_btc) sample_U"
    "store_inv sample_kv sample_codec (block_hash_of sample_btc) sample_U sample_store"
    using sample_hashes_ok sample_store_inv by simp_all
  have best: "block_hash_of sample_btc (last sample_headers) = ?best"
    by (simp add: sample_headers_def sample_hash_def sample_header_def)
  have gb: "getbestblockhash js_api sample_btc sample_send ?d = (Inr ?best, ?d1)"
    by (simp add: sample_getbestblockhash sample_client_def)
  obtain d' s' where st: "sync_headers_step sample_kv sample_codec js_api sample_btc sample_send ?best
      (?d1, sample_store) = Some (Inr (), d', s')"
    using sync_progress[OF sample_kv_ok sample_codec_ok pre sample_serves, of ?d1] unfolding best
    using sample_linked by (force simp: sample_store_simps sample_genesis_eq sample_client_def
        header_by_blockhash_def sample_headers_def sample_hash_def sample_header_def)
  with gb have turn: "indexer_turn sample_kv sample_codec js_api sample_btc sample_send
      (?tip, ?d, sample_store) = Some (Inr (?best, d', s'))"
    by (simp add: indexer_turn_def)
  have "\<forall>r d'. getbestblockhash js_api sample_btc sample_send ?d = (r, d') \<longrightarrow> on_bitcoin d'"
    by (simp add: gb) (simp add: sample_client_def)
  moreover have "\<forall>best d1 hs d2. getbestblockhash js_api sample_btc sample_send ?d = (Inr best, d1) \<longrightarrow>
      get_new_headers js_api sample_btc sample_send (sync_headers sample_store) best d1 = Some (Inr hs, d2) \<longrightarrow>
      set hs \<subseteq> sample_U"
    using sample_new_headers[of ?d1] unfolding gb
    by (auto simp: sample_store_simps sample_client_def) (simp_all add: sample_headers_def)
  ultimately have "?best = ?tip \<or> hl_tip (sync_headers s') = ?best"
    using indexer_turn_keeps[OF sample_kv_ok sample_codec_ok pre sample_honest _ _ turn] by blast
  with turn show ?thesis by auto
qed

text \<open>
  the first synchronisation of the thread and the compaction after it leave a valid store whose tip is
  the one the thread then watches.
\<close>

lemma indexer_start_keeps:
  fixes J :: "'v json_api"
  assumes "kv_ok K" "codec_ok C U" "hashes_ok (block_hash_of B) U" "store_inv K C (block_hash_of B) U s" "admin_ok K A"
    "honest J B send P" "\<forall>r d'. getbestblockhash J B send d = (r, d') \<longrightarrow> P d'"
    "\<forall>best d1 hs d2. getbestblockhash J B send d = (Inr best, d1) \<longrightarrow>
       get_new_headers J B send (sync_headers s) best d1 = Some (Inr hs, d2) \<longrightarrow> set hs \<subseteq> U"
    "indexer_start K C A J B send (d, s) = Some (Inr (tip, d', s'))"
  shows "store_inv K C (block_hash_of B) U s' \<and> hl_tip (sync_headers s') = tip"
proof -
  obtain q d1 where q: "getbestblockhash J B send d = (q, d1)" by force
  obtain t where t: "q = Inr t" using assms(9) q by (cases q) (simp_all add: indexer_start_def)
  obtain r d2 s1 where r: "sync_headers_step K C J B send t (d1, s) = Some (r, d2, s1)"
    using assms(9) q t by (auto simp: indexer_start_def)
  obtain u where u: "r = Inr u" using assms(9) q t r by (cases r) (simp_all add: indexer_start_def)
  obtain c :: "(string, unit) res" and s2 where c: "full_compaction A s1 = (c, s2)" by force
  have "c = Inr ()" "tip = t" "d' = d2" "s' = s2"
    using assms(9) q t r u c by (cases c; auto simp: indexer_start_def split: fault.splits)+
  with q t r u c have best: "getbestblockhash J B send d = (Inr tip, d1)"
    and st: "sync_headers_step K C J B send tip (d1, s) = Some (Inr u, d', s1)"
    and fc: "full_compaction A s1 = (Inr () :: (string, unit) res, s')" by simp_all
  have "good_outcome K C (block_hash_of B) U tip s (Inr u :: ('v index_error, unit) res) s1"
  proof (rule sync_outcome[OF assms(1-4,6) _ _ st])
    show "P d1" using assms(7) best by simp
    show "set hs \<subseteq> U" if "get_new_headers J B send (sync_headers s) tip d1 = Some (Inr hs, d'')" for hs d''
      using assms(8) best that by blast
  qed
  then have s1: "store_inv K C (block_hash_of B) U s1" "hl_tip (sync_headers s1) = tip"
    by (auto simp: good_outcome_def)
  obtain db where "full_compaction A s1 = (Inr () :: (string, unit) res, s1\<lparr>sync_db := db\<rparr>)"
    "store_inv K C (block_hash_of B) U (s1\<lparr>sync_db := db\<rparr>)"
    using full_compaction_keeps[OF assms(5) s1(1)] by blast
  with fc s1(2) show ?thesis by auto
qed

end
