(* ===== verification/Chain_State.thy ===== *)
theory Chain_State
  imports Simple_Cache Store Daemon
begin

text \<open>
  \<open>chainstate.rs\<close> and \<open>btcrpc/proof.rs\<close>: the state all request handlers share, and the check of
  a transaction's Merkle proof. The untrusted full node delivers a Merkle block; its root is
  compared with that of the header that the P2P light client (or the response cache) has for
  the block. The P2P client of the nakamoto library is the argument \<open>N\<close>, acting on a
  client state of type \<open>'p\<close>; the Merkle tree functions of the Bitcoin library are \<open>M\<close>.
\<close>

subsection \<open>Interfaces\<close>

text \<open>
  \<open>nk_old_hash\<close> and \<open>nk_new_header\<close> convert between the two versions of the Bitcoin library by
  serialising and deserialising (None where that unwraps an error); \<open>nk_to_value\<close> and
  \<open>nk_from_value\<close> are the JSON form of a header, \<open>nk_hex\<close> its hexadecimal form.
\<close>

record ('p, 'v) nakamoto_api =
  nk_get_tip :: "'p \<Rightarrow> (string + u64 \<times> block_header) \<times> 'p"
  nk_get_block :: "'p \<Rightarrow> block_hash \<Rightarrow> (string + (u64 \<times> block_header) option) \<times> 'p"
  nk_get_block_by_height :: "'p \<Rightarrow> u64 \<Rightarrow> (string + block_header option) \<times> 'p"
  nk_block_hash :: "block_header \<Rightarrow> block_hash"
  nk_old_hash :: "block_hash \<Rightarrow> block_hash option"
  nk_new_header :: "block_header \<Rightarrow> block_header option"
  nk_to_value :: "block_header \<Rightarrow> string + 'v"
  nk_from_value :: "'v \<Rightarrow> string + block_header"
  nk_hex :: "block_header \<Rightarrow> string"
  nk_hash_from_str :: "string \<Rightarrow> string + block_hash"
  nk_show_hash :: "block_hash \<Rightarrow> string"

record 'pmt merkle_api =
  extract_matches :: "'pmt \<Rightarrow> string + block_hash \<times> txid list \<times> u32 list"
  ser_merkleblock :: "'pmt merkle_block \<Rightarrow> bytes"
  txid_from_str :: "string \<Rightarrow> string + txid"

subsection \<open>State\<close>

text \<open>
  The clients of the chains that are switched on, the header store and the response cache.
  The Ethereum, Optimism and Solana clients have the types \<open>'e\<close>, \<open>'o\<close> and \<open>'s\<close>.
\<close>

record ('w, 'db, 'p, 'e, 'o, 's, 'v) chains_state =
  cs_store :: "'db store"
  btc_daemon :: "'w daemon option"
  doge_daemon :: "'w daemon option"
  btc_handle :: "'p option"
  doge_handle :: "'p option"
  helios_client :: "'e option"
  helios_op_client :: "'o option"
  response_cache :: "(bytes, 'v) simple_cache"
  sol_client :: "'s option"

definition chains_state_new ::
    "'db store \<Rightarrow> 'w daemon option \<Rightarrow> 'w daemon option \<Rightarrow> 'p option \<Rightarrow> 'p option \<Rightarrow> 'e option \<Rightarrow> 'o option
      \<Rightarrow> 's option \<Rightarrow> (bytes, 'v) simple_cache \<Rightarrow> ('w, 'db, 'p, 'e, 'o, 's, 'v) chains_state" where
  [simp]: "chains_state_new store btc_d doge_d btc_h doge_h eth_c op_c sol_c cache =
     \<lparr>cs_store = store, btc_daemon = btc_d, doge_daemon = doge_d, btc_handle = btc_h, doge_handle = doge_h,
      helios_client = eth_c, helios_op_client = op_c, response_cache = cache, sol_client = sol_c\<rparr>"

datatype 'v proof_error =
    Gettxoutproof_Error proof_chain "'v rpc_error"
  | Blockhash_Mismatch block_hash block_hash
  | Not_Included "txid list" block_hash string
  | P2P_Json_Error string
  | P2P_Header_Error proof_chain string
  | Block_Not_Found
  | P2P_To_Value_Error proof_chain string
  | Root_Mismatch block_hash block_hash block_hash

definition chain_daemon :: "proof_chain \<Rightarrow> ('w, 'db, 'p, 'e, 'o, 's, 'v) chains_state \<Rightarrow> 'w daemon option" where
  "chain_daemon chain st = (case chain of BitCoin \<Rightarrow> btc_daemon st | DogeCoin \<Rightarrow> doge_daemon st)"

definition set_chain_daemon ::
    "proof_chain \<Rightarrow> 'w daemon \<Rightarrow> ('w, 'db, 'p, 'e, 'o, 's, 'v) chains_state
      \<Rightarrow> ('w, 'db, 'p, 'e, 'o, 's, 'v) chains_state" where
  "set_chain_daemon chain d st =
     (case chain of BitCoin \<Rightarrow> st\<lparr>btc_daemon := Some d\<rparr> | DogeCoin \<Rightarrow> st\<lparr>doge_daemon := Some d\<rparr>)"

definition chain_handle :: "proof_chain \<Rightarrow> ('w, 'db, 'p, 'e, 'o, 's, 'v) chains_state \<Rightarrow> 'p option" where
  "chain_handle chain st = (case chain of BitCoin \<Rightarrow> btc_handle st | DogeCoin \<Rightarrow> doge_handle st)"

definition set_chain_handle ::
    "proof_chain \<Rightarrow> 'p \<Rightarrow> ('w, 'db, 'p, 'e, 'o, 's, 'v) chains_state
      \<Rightarrow> ('w, 'db, 'p, 'e, 'o, 's, 'v) chains_state" where
  "set_chain_handle chain p st =
     (case chain of BitCoin \<Rightarrow> st\<lparr>btc_handle := Some p\<rparr> | DogeCoin \<Rightarrow> st\<lparr>doge_handle := Some p\<rparr>)"

subsection \<open>Verifying a Merkle block\<close>

text \<open>The header of the block: from the cache, or from the chain's P2P client and then cached.\<close>

definition p2p_header ::
    "('p, 'v) nakamoto_api \<Rightarrow> proof_chain \<Rightarrow> block_hash
      \<Rightarrow> (('w, 'db, 'p, 'e, 'o, 's, 'v) chains_state, 'v proof_error, block_header) act" where
  "p2p_header N chain blockhash_old st =
     (case cache_get (response_cache st) blockhash_old of
        Some block \<Rightarrow>
          (case nk_from_value N block of
             Inl e \<Rightarrow> (Inl (Err (P2P_Json_Error e)), st)
           | Inr h \<Rightarrow> (Inr h, st))
      | None \<Rightarrow>
          (case chain_handle chain st of
             None \<Rightarrow> (Inl (Panic ''verify_txid: handle''), st)
           | Some handle \<Rightarrow>
               (case nk_get_block N handle blockhash_old of
                  (Inl e, p) \<Rightarrow> (Inl (Err (P2P_Header_Error chain e)), set_chain_handle chain p st)
                | (Inr None, p) \<Rightarrow> (Inl (Err Block_Not_Found), set_chain_handle chain p st)
                | (Inr (Some (_, h)), p) \<Rightarrow>
                    (let st = set_chain_handle chain p st
                     in case nk_to_value N h of
                          Inl e \<Rightarrow> (Inl (Err (P2P_To_Value_Error chain e)), st)
                        | Inr header_str \<Rightarrow>
                            (Inr h, st\<lparr>response_cache :=
                               cache_insert (response_cache st) blockhash_old header_str\<rparr>)))))"

definition verify_txid ::
    "('tx, 'pmt) bitcoin_api \<Rightarrow> 'pmt merkle_api \<Rightarrow> ('p, 'v) nakamoto_api \<Rightarrow> 'pmt merkle_block
      \<Rightarrow> merkle_proof_param \<Rightarrow> (('w, 'db, 'p, 'e, 'o, 's, 'v) chains_state, 'v proof_error, bytes) act" where
  "verify_txid B M N mb param st =
     (let mb_blockhash = block_hash_of B (mb_header mb)
      in bind_act (ret_act
           (case mp_blockhash param of
              Some param_blockhash \<Rightarrow>
                if param_blockhash \<noteq> mb_blockhash
                then Inl (Err (Blockhash_Mismatch param_blockhash mb_blockhash)) else Inr ()
            | None \<Rightarrow> Inr ())) (\<lambda>_.
         bind_act (ret_act
           (case extract_matches M (mb_txn mb) of
              Inl e \<Rightarrow> Inl (Err (Not_Included (mp_txids param) mb_blockhash e))
            | Inr (txroot, matches, indexes) \<Rightarrow> Inr txroot)) (\<lambda>txroot.
         bind_act (ret_act (unwrap_res ''verify_txid: old hash'' (nk_old_hash N mb_blockhash))) (\<lambda>blockhash_old.
         bind_act (p2p_header N (mp_chain param) blockhash_old) (\<lambda>h.
         bind_act (ret_act (unwrap_res ''verify_txid: header'' (nk_new_header N h))) (\<lambda>header_p2p.
         ret_act
           (if txroot \<noteq> merkle_root header_p2p
            then Inl (Err (Root_Mismatch txroot (merkle_root header_p2p) mb_blockhash))
            else Inr (ser_merkleblock M mb))))))) st)"

definition fetch_proof_and_verify ::
    "'v json_api \<Rightarrow> ('tx, 'pmt) bitcoin_api \<Rightarrow> 'pmt merkle_api \<Rightarrow> ('p, 'v) nakamoto_api \<Rightarrow> ('w, 'v) transport
      \<Rightarrow> merkle_proof_param \<Rightarrow> (('w, 'db, 'p, 'e, 'o, 's, 'v) chains_state, 'v proof_error, bytes) act" where
  "fetch_proof_and_verify J B M N send param st =
     (case chain_daemon (mp_chain param) st of
        None \<Rightarrow> (Inl (Panic ''fetch_proof_and_verify: daemon''), st)
      | Some d \<Rightarrow>
          (case map_err_act (Gettxoutproof_Error (mp_chain param)) (gettxoutproof J B send param) d of
             (Inl f, d') \<Rightarrow> (Inl f, set_chain_daemon (mp_chain param) d' st)
           | (Inr mb, d') \<Rightarrow>
               verify_txid B M N mb param (set_chain_daemon (mp_chain param) d' st)))"

subsection \<open>The proof endpoints\<close>

text \<open>
  The reply of \<open>/verify_tx\<close>: an error flag and a text (the transaction id, or an error), signed
  by the enclave: \<open>sign\<close> is \<open>create_sgx_response_v2\<close> on the JSON form of the reply.
\<close>

datatype 'v verify_text = Verified_Txid txid | Invalid_Txid string | Proof_Failed "'v proof_error"

record 'v verify_response =
  vr_error :: bool
  vr_result :: "'v verify_text"

definition response_new :: "bool \<Rightarrow> 'v verify_text \<Rightarrow> 'v verify_response" where
  "response_new err result = \<lparr>vr_error = err, vr_result = result\<rparr>"

definition parse_txid :: "'pmt merkle_api \<Rightarrow> string \<Rightarrow> ('v verify_text, txid) res" where
  "parse_txid M txid =
     (case txid_from_str M txid of Inl e \<Rightarrow> Inl (Err (Invalid_Txid e)) | Inr t \<Rightarrow> Inr t)"

definition verify_transaction ::
    "'v json_api \<Rightarrow> ('tx, 'pmt) bitcoin_api \<Rightarrow> 'pmt merkle_api \<Rightarrow> ('p, 'v) nakamoto_api \<Rightarrow> ('w, 'v) transport
      \<Rightarrow> ('v verify_response \<Rightarrow> 'r) \<Rightarrow> string \<Rightarrow> proof_chain
      \<Rightarrow> (('w, 'db, 'p, 'e, 'o, 's, 'v) chains_state, unit, 'r) act" where
  "verify_transaction J B M N send sign txid chain st =
     (case parse_txid M txid of
        Inl (Err e) \<Rightarrow> (Inr (sign (response_new True e)), st)
      | Inl (Panic site) \<Rightarrow> (Inl (Panic site), st)
      | Inr txid \<Rightarrow>
          (case fetch_proof_and_verify J B M N send (merkle_proof_param_new [txid] None chain) st of
             (Inr _, st') \<Rightarrow> (Inr (sign (response_new False (Verified_Txid txid))), st')
           | (Inl (Err e), st') \<Rightarrow> (Inr (sign (response_new True (Proof_Failed e))), st')
           | (Inl (Panic site), st') \<Rightarrow> (Inl (Panic site), st')))"

definition verify_tx where
  "verify_tx J B M N send sign txid = verify_transaction J B M N send sign txid BitCoin"

definition verify_tx_doge where
  "verify_tx_doge J B M N send sign txid = verify_transaction J B M N send sign txid DogeCoin"

end
