(* ===== verification/Btc_Rpc.thy ===== *)
theory Btc_Rpc
  imports Chain_State
begin

text \<open>
  \<open>btcrpc/mod.rs\<close>: the JSON-RPC endpoints \<open>/btc\<close> and \<open>/doge\<close>. A batch of requests is answered
  from the P2P client of the chain and the shared response cache, one response per request.
  The handlers of a batch are polled in order and wait only for the cache's locks, so a
  batch is modelled as its requests run one after the other on the state
  \<open>(client, cache)\<close>. An error text is a constructor of \<open>btc_text\<close>.
\<close>

datatype 'v btc_text =
    Invalid_Request "'v btc_text" 'v
  | Deser_Error 'v
  | Params_Not_Array
  | Method_Unsupported string
  | Wrong_Params_Number
  | Params_Type_Wrong
  | Blockhash_Error string
  | Header_Not_Found
  | Height_Not_Found u64
  | P2P_Error string

record 'v btc_req =
  bq_jsonrpc :: string
  bq_method :: string
  bq_params :: 'v
  bq_id :: 'v

record 'v btc_resp =
  bs_error :: "'v btc_text option"
  bs_id :: 'v
  bs_result :: "'v option"

type_synonym ('p, 'v) btc_state = "'p \<times> (bytes, 'v) simple_cache"

subsection \<open>Parsing requests\<close>

text \<open>
  The derived deserialisation of the two request records: an object with all fields, strings
  where the record has strings, or an array with exactly the fields in order.
\<close>

definition req_field :: "'v json_api \<Rightarrow> 'v \<Rightarrow> string \<Rightarrow> nat \<Rightarrow> nat \<Rightarrow> 'v option" where
  "req_field J req name i n =
     (if jis_object J req then jget J req name
      else (case jas_array J req of
              None \<Rightarrow> None
            | Some vs \<Rightarrow> if length vs = n then Some (vs ! i) else None))"

definition de_btc_req :: "'v json_api \<Rightarrow> 'v \<Rightarrow> 'v btc_req option" where
  "de_btc_req J req =
     Option.bind (Option.bind (req_field J req ''jsonrpc'' 0 4) (jas_str J)) (\<lambda>jsonrpc.
     Option.bind (Option.bind (req_field J req ''method'' 1 4) (jas_str J)) (\<lambda>method.
     Option.bind (req_field J req ''params'' 2 4) (\<lambda>params.
     Option.bind (req_field J req ''id'' 3 4) (\<lambda>i.
       Some \<lparr>bq_jsonrpc = jsonrpc, bq_method = method, bq_params = params, bq_id = i\<rparr>))))"

definition de_btc_req_no_jsonrpc :: "'v json_api \<Rightarrow> 'v \<Rightarrow> (string \<times> 'v \<times> 'v) option" where
  "de_btc_req_no_jsonrpc J req =
     Option.bind (Option.bind (req_field J req ''method'' 0 3) (jas_str J)) (\<lambda>method.
     Option.bind (req_field J req ''params'' 1 3) (\<lambda>params.
     Option.bind (req_field J req ''id'' 2 3) (\<lambda>i. Some (method, params, i))))"

definition parse_request :: "'v json_api \<Rightarrow> 'v \<Rightarrow> ('v btc_text \<times> 'v) + 'v btc_req" where
  "parse_request J req =
     (let i = (case jget J req ''id'' of None \<Rightarrow> ju64 J 1 | Some v \<Rightarrow> v)
      in if jget J req ''jsonrpc'' \<noteq> None then
           (case de_btc_req J req of None \<Rightarrow> Inl (Deser_Error req, i) | Some r \<Rightarrow> Inr r)
         else
           (case de_btc_req_no_jsonrpc J req of
              None \<Rightarrow> Inl (Deser_Error req, i)
            | Some (method, params, i) \<Rightarrow>
                Inr \<lparr>bq_jsonrpc = ''2.0'', bq_method = method, bq_params = params, bq_id = i\<rparr>))"

definition create_btc_response :: "'v btc_text option \<Rightarrow> 'v \<Rightarrow> 'v option \<Rightarrow> 'v btc_resp" where
  "create_btc_response err i result = \<lparr>bs_error = err, bs_id = i, bs_result = result\<rparr>"

subsection \<open>Handlers\<close>

definition handle_getbestblockhash ::
    "'v json_api \<Rightarrow> ('p, 'v) nakamoto_api \<Rightarrow> 'v list \<Rightarrow> 'v
      \<Rightarrow> (('p, 'v) btc_state, unit, 'v btc_resp) act" where
  "handle_getbestblockhash J N params i = (\<lambda>(p, cache).
     if params \<noteq> [] then (Inr (create_btc_response (Some Wrong_Params_Number) i None), (p, cache))
     else (case nk_get_tip N p of
             (Inr (_, header), p) \<Rightarrow>
               (Inr (create_btc_response None i (Some (jstr J (nk_show_hash N (nk_block_hash N header))))),
                (p, cache))
           | (Inl e, p) \<Rightarrow> (Inr (create_btc_response (Some (P2P_Error e)) i None), (p, cache))))"

text \<open>The JSON form of a found header: the decoded header with its height, or its hexadecimal form.\<close>

definition header_value ::
    "'v json_api \<Rightarrow> ('p, 'v) nakamoto_api \<Rightarrow> bool \<Rightarrow> u64 \<Rightarrow> block_header \<Rightarrow> (unit, 'v) res" where
  "header_value J N verbose height header =
     (if verbose then
        bind_res (case nk_to_value N header of Inl _ \<Rightarrow> Inl (Panic ''getblockheader: to_value'') | Inr h \<Rightarrow> Inr h)
          (\<lambda>h. unwrap_res ''getblockheader: set height'' (jset J h ''height'' (ju64 J height)))
      else Inr (jstr J (nk_hex N header)))"

definition handle_getblockheader ::
    "'v json_api \<Rightarrow> ('p, 'v) nakamoto_api \<Rightarrow> 'v list \<Rightarrow> 'v
      \<Rightarrow> (('p, 'v) btc_state, unit, 'v btc_resp) act" where
  "handle_getblockheader J N params i = (\<lambda>(p, cache).
     if params = [] \<or> length params > 2
     then (Inr (create_btc_response (Some Wrong_Params_Number) i None), (p, cache))
     else
       (let verbose = (if length params = 2
              then (case jas_bool J (params ! 1) of None \<Rightarrow> True | Some b \<Rightarrow> b) else True)
        in case jas_str J (params ! 0) of
             None \<Rightarrow> (Inr (create_btc_response (Some Params_Type_Wrong) i None), (p, cache))
           | Some hash_str \<Rightarrow>
               (case nk_hash_from_str N hash_str of
                  Inl e \<Rightarrow> (Inr (create_btc_response (Some (Blockhash_Error e)) i None), (p, cache))
                | Inr hash \<Rightarrow>
                    (case cache_get cache hash of
                       Some header \<Rightarrow> (Inr (create_btc_response None i (Some header)), (p, cache))
                     | None \<Rightarrow>
                         (case nk_get_block N p hash of
                            (Inr (Some (height, header)), p) \<Rightarrow>
                              (case header_value J N verbose height header of
                                 Inl f \<Rightarrow> (Inl f, (p, cache))
                               | Inr h \<Rightarrow>
                                   (Inr (create_btc_response None i (Some h)), (p, cache_insert cache hash h)))
                          | (Inr None, p) \<Rightarrow>
                              (Inr (create_btc_response (Some Header_Not_Found) i None), (p, cache))
                          | (Inl e, p) \<Rightarrow>
                              (Inr (create_btc_response (Some (P2P_Error e)) i None), (p, cache)))))))"

text \<open>\<open>u64::to_be_bytes\<close>: eight bytes, most significant first.\<close>

definition to_be_bytes :: "u64 \<Rightarrow> bytes" where
  "to_be_bytes n = map (\<lambda>i. ucast (drop_bit (8 * (7 - i)) n)) [0..<8]"

definition handle_getblockhash ::
    "'v json_api \<Rightarrow> ('p, 'v) nakamoto_api \<Rightarrow> 'v list \<Rightarrow> 'v
      \<Rightarrow> (('p, 'v) btc_state, unit, 'v btc_resp) act" where
  "handle_getblockhash J N params i = (\<lambda>(p, cache).
     if length params \<noteq> 1
     then (Inr (create_btc_response (Some Wrong_Params_Number) i None), (p, cache))
     else
       (case jas_u64 J (params ! 0) of
          None \<Rightarrow> (Inr (create_btc_response (Some Params_Type_Wrong) i None), (p, cache))
        | Some height \<Rightarrow>
            (case cache_get cache (to_be_bytes height) of
               Some header \<Rightarrow> (Inr (create_btc_response None i (Some header)), (p, cache))
             | None \<Rightarrow>
                 (case nk_get_block_by_height N p height of
                    (Inr (Some header), p) \<Rightarrow>
                      (case nk_to_value N header of
                         Inl e \<Rightarrow> (Inl (Panic ''getblockhash: to_value''), (p, cache))
                       | Inr header_str \<Rightarrow>
                           (Inr (create_btc_response None i
                              (Some (jstr J (nk_show_hash N (nk_block_hash N header))))),
                            (p, cache_insert cache (to_be_bytes height) header_str)))
                  | (Inr None, p) \<Rightarrow>
                      (Inr (create_btc_response (Some (Height_Not_Found height)) i None), (p, cache))
                  | (Inl e, p) \<Rightarrow>
                      (Inr (create_btc_response (Some (P2P_Error e)) i None), (p, cache))))))"

subsection \<open>Batches\<close>

definition handle_btc_request ::
    "'v json_api \<Rightarrow> ('p, 'v) nakamoto_api \<Rightarrow> 'v \<Rightarrow> (('p, 'v) btc_state, unit, 'v btc_resp) act" where
  "handle_btc_request J N req s =
     (case parse_request J req of
        Inl (e, i) \<Rightarrow> (Inr (create_btc_response (Some (Invalid_Request e req)) i None), s)
      | Inr r \<Rightarrow>
          (case jas_array J (bq_params r) of
             None \<Rightarrow> (Inr (create_btc_response (Some Params_Not_Array) (bq_id r) None), s)
           | Some params \<Rightarrow>
               if bq_method r = ''getbestblockhash'' then handle_getbestblockhash J N params (bq_id r) s
               else if bq_method r = ''getblockheader'' then handle_getblockheader J N params (bq_id r) s
               else if bq_method r = ''getblockhash'' then handle_getblockhash J N params (bq_id r) s
               else (Inr (create_btc_response (Some (Method_Unsupported (bq_method r))) (bq_id r) None), s)))"

fun handle_batch ::
    "'v json_api \<Rightarrow> ('p, 'v) nakamoto_api \<Rightarrow> 'v list \<Rightarrow> (('p, 'v) btc_state, unit, 'v btc_resp list) act" where
  "handle_batch J N [] = ret_act (Inr [])"
| "handle_batch J N (req # reqs) =
     bind_act (handle_btc_request J N req) (\<lambda>resp.
     bind_act (handle_batch J N reqs) (\<lambda>resps. ret_act (Inr (resp # resps))))"

definition handle_fetch_header ::
    "'v json_api \<Rightarrow> ('p, 'v) nakamoto_api \<Rightarrow> ('v btc_resp list \<Rightarrow> 'r) \<Rightarrow> 'v list
      \<Rightarrow> (('p, 'v) btc_state, unit, 'r) act" where
  "handle_fetch_header J N sign payload =
     bind_act (handle_batch J N payload) (\<lambda>resps. ret_act (Inr (sign resps)))"

text \<open>The two endpoints differ only in the client they use; they share the cache.\<close>

definition on_chain ::
    "proof_chain \<Rightarrow> (('p, 'v) btc_state, unit, 'r) act
      \<Rightarrow> (('w, 'db, 'p, 'e, 'o, 's, 'v) chains_state, unit, 'r) act" where
  "on_chain chain m st =
     (case chain_handle chain st of
        None \<Rightarrow> (Inl (Panic ''btc: handle''), st)
      | Some p \<Rightarrow>
          (case m (p, response_cache st) of
             (r, p', cache) \<Rightarrow> (r, (set_chain_handle chain p' st)\<lparr>response_cache := cache\<rparr>)))"

definition btc ::
    "'v json_api \<Rightarrow> ('p, 'v) nakamoto_api \<Rightarrow> ('v btc_resp list \<Rightarrow> 'r) \<Rightarrow> 'v list
      \<Rightarrow> (('w, 'db, 'p, 'e, 'o, 's, 'v) chains_state, unit, 'r) act" where
  "btc J N sign payload = on_chain BitCoin (handle_fetch_header J N sign payload)"

definition doge ::
    "'v json_api \<Rightarrow> ('p, 'v) nakamoto_api \<Rightarrow> ('v btc_resp list \<Rightarrow> 'r) \<Rightarrow> 'v list
      \<Rightarrow> (('w, 'db, 'p, 'e, 'o, 's, 'v) chains_state, unit, 'r) act" where
  "doge J N sign payload = on_chain DogeCoin (handle_fetch_header J N sign payload)"

end
