(* ===== verification/Btc_Rpc_Facts.thy ===== *)
theory Btc_Rpc_Facts
  imports Btc_Rpc
begin

text \<open>
  The response cache as a store of headers: what every entry under a 32-byte key satisfies
  when the P2P clients return the blocks they are asked for, that all Bitcoin and Dogecoin
  handlers keep it, and what a successful verification shows then.
\<close>

subsection \<open>Documented behaviour of the libraries\<close>

text \<open>
  \<open>p2p_ok\<close>: a P2P client in a state of \<open>Q\<close> stays in \<open>Q\<close>, and a block it returns for a hash has
  that hash and is one of \<open>S\<close>, the headers the network serves.
\<close>

definition p2p_ok :: "('p, 'v) nakamoto_api \<Rightarrow> ('p \<Rightarrow> bool) \<Rightarrow> block_header set \<Rightarrow> bool" where
  "p2p_ok N Q S \<longleftrightarrow> (\<forall>p. Q p \<longrightarrow>
     Q (snd (nk_get_tip N p)) \<and> (\<forall>n. Q (snd (nk_get_block_by_height N p n))) \<and>
     (\<forall>b. Q (snd (nk_get_block N p b)) \<and>
        (\<forall>n h. fst (nk_get_block N p b) = Inr (Some (n, h)) \<longrightarrow> nk_block_hash N h = b \<and> h \<in> S)))"

text \<open>
  \<open>header_json_ok\<close>: the JSON form of a header, with or without a height added, decodes to that
  header only; a string does not decode to a header. \<open>nk_conv_ok\<close>: the two versions of the
  library agree on the bytes of hashes and headers.
\<close>

definition header_json_ok :: "'v json_api \<Rightarrow> ('p, 'v) nakamoto_api \<Rightarrow> bool" where
  "header_json_ok J N \<longleftrightarrow>
     (\<forall>h v. nk_to_value N h = Inr v \<longrightarrow> (\<forall>h'. nk_from_value N v = Inr h' \<longrightarrow> h' = h) \<and>
        (\<forall>n v'. jset J v ''height'' (ju64 J n) = Some v' \<longrightarrow> (\<forall>h'. nk_from_value N v' = Inr h' \<longrightarrow> h' = h))) \<and>
     (\<forall>s. \<exists>e. nk_from_value N (jstr J s) = Inl e)"

definition nk_conv_ok :: "('tx, 'pmt) bitcoin_api \<Rightarrow> ('p, 'v) nakamoto_api \<Rightarrow> bool" where
  "nk_conv_ok B N \<longleftrightarrow> (\<forall>b b'. nk_old_hash N b = Some b' \<longrightarrow> b' = b) \<and>
     (\<forall>h h'. nk_new_header N h = Some h' \<longrightarrow> h' = h) \<and> (\<forall>h. nk_block_hash N h = block_hash_of B h)"

lemma p2p_okD:
  assumes "p2p_ok N Q S" "Q p"
  shows "nk_get_tip N p = (r1, p') \<Longrightarrow> Q p'"
    and "nk_get_block_by_height N p n = (r2, p') \<Longrightarrow> Q p'"
    and "nk_get_block N p b = (r3, p') \<Longrightarrow> Q p'"
    and "nk_get_block N p b = (Inr (Some (m, h)), p') \<Longrightarrow> nk_block_hash N h = b \<and> h \<in> S"
  using assms unfolding p2p_ok_def by (metis snd_conv, metis snd_conv, metis snd_conv, metis fst_conv)

lemma header_json_okD:
  assumes "header_json_ok J N"
  shows "nk_to_value N h = Inr v \<Longrightarrow> nk_from_value N v = Inr h' \<Longrightarrow> h' = h"
    and "nk_to_value N h = Inr v \<Longrightarrow> jset J v ''height'' (ju64 J n) = Some v' \<Longrightarrow>
      nk_from_value N v' = Inr h' \<Longrightarrow> h' = h"
    and "\<exists>e. nk_from_value N (jstr J s) = Inl e"
  using assms by (auto simp: header_json_ok_def)

subsection \<open>The invariant of the cache\<close>

definition entry_ok :: "('p, 'v) nakamoto_api \<Rightarrow> block_header set \<Rightarrow> bytes \<Rightarrow> 'v \<Rightarrow> bool" where
  "entry_ok N S k v \<longleftrightarrow>
     (length k = 32 \<longrightarrow> (\<forall>h. nk_from_value N v = Inr h \<longrightarrow> nk_block_hash N h = k \<and> h \<in> S))"

abbreviation header_cache :: "('p, 'v) nakamoto_api \<Rightarrow> block_header set \<Rightarrow> (bytes, 'v) simple_cache \<Rightarrow> bool" where
  "header_cache N S \<equiv> sc.holds_all (entry_ok N S)"

lemma length_to_be_bytes: "length (to_be_bytes n) = 8"
  by (simp add: to_be_bytes_def)

lemma entry_ok_height: "entry_ok N S (to_be_bytes n) v"
  by (simp add: entry_ok_def length_to_be_bytes)

lemma header_value_entry:
  assumes "header_json_ok J N" "header_value J N verbose n h = Inr v" "nk_block_hash N h = b" "h \<in> S"
  shows "entry_ok N S b v"
  unfolding entry_ok_def
proof (intro impI allI)
  fix h' assume d: "nk_from_value N v = Inr h'"
  show "nk_block_hash N h' = b \<and> h' \<in> S"
  proof (cases verbose)
    case True
    with assms(2) obtain v0 where "nk_to_value N h = Inr v0" "jset J v0 ''height'' (ju64 J n) = Some v"
      by (auto simp: header_value_def res_simps split: sum.splits)
    with header_json_okD(2)[OF assms(1)] d assms(3,4) show ?thesis by blast
  next
    case False
    with assms(2) have "v = jstr J (nk_hex N h)" by (simp add: header_value_def)
    with d header_json_okD(3)[OF assms(1), of "nk_hex N h"] show ?thesis by auto
  qed
qed

lemma handle_btc_request_keeps:
  assumes "p2p_ok N Q S" "header_json_ok J N" "Q p" "header_cache N S cache"
    "handle_btc_request J N req (p, cache) = (r, p', cache')"
  shows "Q p' \<and> header_cache N S cache'"
proof -
  have tip: "Q p' \<and> header_cache N S cache'"
    if "handle_getbestblockhash J N params i (p, cache) = (r, p', cache')" for params i
    using that assms(3,4) p2p_okD(1)[OF assms(1,3)]
    by (auto simp: handle_getbestblockhash_def split: if_splits sum.splits prod.splits)
  have hd: "Q p' \<and> header_cache N S cache'"
    if "handle_getblockheader J N params i (p, cache) = (r, p', cache')" for params i
    using that assms(3,4) p2p_okD(3,4)[OF assms(1,3)] header_value_entry[OF assms(2)]
    by (auto simp: handle_getblockheader_def Let_def intro!: sc.holds_all_put
        split: if_splits sum.splits prod.splits option.splits; blast)
  have ht: "Q p' \<and> header_cache N S cache'"
    if "handle_getblockhash J N params i (p, cache) = (r, p', cache')" for params i
    using that assms(3,4) p2p_okD(2)[OF assms(1,3)]
    by (auto simp: handle_getblockhash_def intro!: sc.holds_all_put entry_ok_height
        split: if_splits sum.splits prod.splits option.splits)
  show ?thesis
    using assms(3-5) tip hd ht
    by (auto simp: handle_btc_request_def split: sum.splits option.splits if_splits)
qed

lemma handle_batch_keeps:
  assumes "p2p_ok N Q S" "header_json_ok J N"
  shows "Q p \<Longrightarrow> header_cache N S cache \<Longrightarrow> handle_batch J N reqs (p, cache) = (r, p', cache') \<Longrightarrow>
    Q p' \<and> header_cache N S cache'"
proof (induction reqs arbitrary: p cache r p' cache')
  case (Cons req reqs)
  obtain r1 p1 c1 where 1: "handle_btc_request J N req (p, cache) = (r1, p1, c1)" by (metis prod_cases3)
  have keep: "Q p1 \<and> header_cache N S c1"
    using handle_btc_request_keeps[OF assms Cons.prems(1,2) 1] .
  show ?case
  proof (cases r1)
    case (Inl f)
    with 1 Cons.prems(3) keep show ?thesis by (simp add: bind_act_def)
  next
    case (Inr resp)
    obtain r2 p2 c2 where 2: "handle_batch J N reqs (p1, c1) = (r2, p2, c2)" by (metis prod_cases3)
    from Cons.IH[OF _ _ 2] keep have "Q p2 \<and> header_cache N S c2" by blast
    with 1 2 Inr Cons.prems(3) show ?thesis by (auto simp: bind_act_def split: sum.splits)
  qed
qed simp

subsection \<open>Headers found for a block\<close>

lemma p2p_header_Inr:
  assumes "p2p_ok N Q S" "header_json_ok J N" "header_cache N S (response_cache st)" "length b = 32"
    "\<forall>p. chain_handle chain st = Some p \<longrightarrow> Q p" "p2p_header N chain b st = (Inr h, st')"
  shows "nk_block_hash N h = b \<and> h \<in> S \<and> header_cache N S (response_cache st')"
proof (cases "cache_get (response_cache st) b")
  case (Some v)
  with assms(6) have "nk_from_value N v = Inr h" "st' = st" by (auto simp: p2p_header_def split: sum.splits)
  with sc.holds_allD[OF assms(3) Some] assms(3,4) show ?thesis by (simp add: entry_ok_def)
next
  case None
  with assms(6) obtain p n p' v where h: "chain_handle chain st = Some p"
    "nk_get_block N p b = (Inr (Some (n, h)), p')" "nk_to_value N h = Inr v"
    "st' = (set_chain_handle chain p' st)\<lparr>response_cache :=
       cache_insert (response_cache (set_chain_handle chain p' st)) b v\<rparr>"
    by (auto simp: p2p_header_def Let_def split: option.splits sum.splits prod.splits)
  have hs: "nk_block_hash N h = b \<and> h \<in> S"
    using p2p_okD(4)[OF assms(1) _ h(2)] h(1) assms(5) by blast
  then have "entry_ok N S b v"
    using header_json_okD(1)[OF assms(2) h(3)] by (auto simp: entry_ok_def)
  moreover have "response_cache (set_chain_handle chain p' st) = response_cache st"
    by (simp add: set_chain_handle_def split: proof_chain.split)
  ultimately show ?thesis using hs h(4) assms(3) by (simp add: sc.holds_all_put)
qed

lemma verify_txid_Inr:
  "verify_txid B M N mb param st = (Inr out, st') \<longleftrightarrow>
     (mp_blockhash param = None \<or> mp_blockhash param = Some (block_hash_of B (mb_header mb))) \<and>
     out = ser_merkleblock M mb \<and>
     (\<exists>txroot ms ixs old h h'. extract_matches M (mb_txn mb) = Inr (txroot, ms, ixs) \<and>
        nk_old_hash N (block_hash_of B (mb_header mb)) = Some old \<and>
        p2p_header N (mp_chain param) old st = (Inr h, st') \<and> nk_new_header N h = Some h' \<and>
        txroot = merkle_root h')"
  by (auto simp: verify_txid_def Let_def res_simps split: option.splits sum.splits prod.splits if_splits)

lemma verified_block:
  assumes "p2p_ok N Q S" "header_json_ok J N" "nk_conv_ok B N"
    "header_cache N S (response_cache st)" "\<forall>p. chain_handle (mp_chain param) st = Some p \<longrightarrow> Q p"
    "length (block_hash_of B (mb_header mb)) = 32"
    "verify_txid B M N mb param st = (Inr out, st')"
  shows "\<exists>h \<in> S. \<exists>matches indexes. block_hash_of B h = block_hash_of B (mb_header mb) \<and>
    extract_matches M (mb_txn mb) = Inr (merkle_root h, matches, indexes) \<and>
    mp_blockhash param \<in> {None, Some (block_hash_of B h)} \<and> out = ser_merkleblock M mb \<and>
    header_cache N S (response_cache st')"
proof -
  obtain txroot ms ixs old h h' where v: "extract_matches M (mb_txn mb) = Inr (txroot, ms, ixs)"
    "nk_old_hash N (block_hash_of B (mb_header mb)) = Some old"
    "p2p_header N (mp_chain param) old st = (Inr h, st')" "nk_new_header N h = Some h'" "txroot = merkle_root h'"
    and req: "mp_blockhash param = None \<or> mp_blockhash param = Some (block_hash_of B (mb_header mb))"
      "out = ser_merkleblock M mb"
    using assms(7) unfolding verify_txid_Inr by blast
  have eq: "old = block_hash_of B (mb_header mb)" "h' = h" "nk_block_hash N h = block_hash_of B h"
    using assms(3) v(2,4) by (auto simp: nk_conv_ok_def)
  have "nk_block_hash N h = old \<and> h \<in> S \<and> header_cache N S (response_cache st')"
    using p2p_header_Inr[OF assms(1,2,4) _ assms(5) v(3)] assms(6) eq(1) by simp
  with v req eq show ?thesis by (intro bexI[of _ h]) auto
qed

text \<open>
  \<open>p2p_serves\<close>: the conversions between the two library versions succeed, and a P2P client in a state of
  \<open>Q\<close> returns every header of \<open>S\<close> for its hash, which has a JSON form. The check then accepts a Merkle
  block exactly if the network serves a header with its hash and the root of its tree.
\<close>

definition p2p_serves ::
    "('tx, 'pmt) bitcoin_api \<Rightarrow> ('p, 'v) nakamoto_api \<Rightarrow> ('p \<Rightarrow> bool) \<Rightarrow> block_header set \<Rightarrow> bool" where
  "p2p_serves B N Q S \<longleftrightarrow> (\<forall>b. nk_old_hash N b \<noteq> None) \<and> (\<forall>h. nk_new_header N h \<noteq> None) \<and>
     (\<forall>h \<in> S. (\<exists>v. nk_to_value N h = Inr v) \<and>
        (\<forall>p. Q p \<longrightarrow> (\<exists>n. fst (nk_get_block N p (block_hash_of B h)) = Inr (Some (n, h)))))"

definition headers_decode :: "('p, 'v) nakamoto_api \<Rightarrow> (bytes, 'v) simple_cache \<Rightarrow> bool" where
  "headers_decode N cache \<longleftrightarrow>
     (\<forall>b v. length b = 32 \<longrightarrow> cache_get cache b = Some v \<longrightarrow> (\<exists>h. nk_from_value N v = Inr h))"

lemma p2p_header_served:
  assumes "p2p_serves B N Q S" "nk_conv_ok B N" "header_cache N S (response_cache st)"
    "headers_decode N (response_cache st)" "chain_handle chain st = Some p" "Q p" "h \<in> S"
    "length (block_hash_of B h) = 32"
  shows "\<exists>st'. p2p_header N chain (block_hash_of B h) st = (Inr h, st')"
proof (cases "cache_get (response_cache st) (block_hash_of B h)")
  case None
  obtain n p' v where "nk_get_block N p (block_hash_of B h) = (Inr (Some (n, h)), p')" "nk_to_value N h = Inr v"
    using assms(1,6,7) unfolding p2p_serves_def by (metis surjective_pairing)
  with None assms(5) show ?thesis by (simp add: p2p_header_def Let_def)
next
  case (Some v)
  obtain h' where h': "nk_from_value N v = Inr h'"
    using assms(4,8) Some unfolding headers_decode_def by blast
  with sc.holds_allD[OF assms(3) Some] assms(2,8) have "h' \<in> S" "block_hash_of B h' = block_hash_of B h"
    by (simp_all add: entry_ok_def nk_conv_ok_def)
  then have "h' = h"
    using assms(1,6,7) unfolding p2p_serves_def by (metis Inr_inject option.inject prod.inject)
  with Some h' show ?thesis by (simp add: p2p_header_def)
qed

lemma verify_txid_accepts:
  assumes "p2p_ok N Q S" "header_json_ok J N" "nk_conv_ok B N" "p2p_serves B N Q S"
    "header_cache N S (response_cache st)" "headers_decode N (response_cache st)"
    "chain_handle (mp_chain param) st = Some p" "Q p" "\<forall>h. length (block_hash_of B h) = 32" "mp_blockhash param = None"
  shows "(\<exists>out st'. verify_txid B M N mb param st = (Inr out, st')) \<longleftrightarrow>
    (\<exists>h \<in> S. \<exists>matches indexes. block_hash_of B h = block_hash_of B (mb_header mb) \<and>
       extract_matches M (mb_txn mb) = Inr (merkle_root h, matches, indexes))" (is "?ok \<longleftrightarrow> ?served")
proof
  assume ?ok
  then obtain out st' where "verify_txid B M N mb param st = (Inr out, st')" by blast
  from verified_block[OF assms(1-3,5) _ _ this] assms(7-9) show ?served by auto
next
  assume ?served
  then obtain h matches indexes where h: "h \<in> S" "block_hash_of B h = block_hash_of B (mb_header mb)"
    "extract_matches M (mb_txn mb) = Inr (merkle_root h, matches, indexes)" by blast
  obtain st' where "p2p_header N (mp_chain param) (block_hash_of B (mb_header mb)) st = (Inr h, st')"
    using p2p_header_served[OF assms(4,3,5-8) h(1)] assms(9) h(2) by auto
  moreover have "nk_old_hash N b = Some b" "nk_new_header N h = Some h" for b
    using assms(3,4) unfolding nk_conv_ok_def p2p_serves_def by (metis not_None_eq)+
  ultimately show ?ok unfolding verify_txid_Inr using assms(10) h(3) by auto
qed

subsection \<open>Responses\<close>

definition well_formed_resp :: "'v btc_resp \<Rightarrow> bool" where
  "well_formed_resp r \<longleftrightarrow> (bs_error r = None) = (bs_result r \<noteq> None)"

lemma well_formed_create [simp]:
  "well_formed_resp (create_btc_response (Some e) i None)"
  "well_formed_resp (create_btc_response None i (Some v))"
  by (simp_all add: well_formed_resp_def create_btc_response_def)

lemma handle_btc_request_total:
  assumes "\<forall>h. \<exists>v. nk_to_value N h = Inr v \<and> (\<forall>n. jset J v ''height'' (ju64 J n) \<noteq> None)"
  shows "\<exists>resp s'. handle_btc_request J N req s = (Inr resp, s') \<and> well_formed_resp resp"
proof -
  obtain p cache where s: "s = (p, cache)" by force
  have hv: "\<exists>x. header_value J N b n h = Inr x" for b n h
    using assms[rule_format, of h] by (cases b) (auto simp: header_value_def unwrap_res_def split: option.split)
  have "\<exists>resp s'. handle_getbestblockhash J N params i s = (Inr resp, s') \<and> well_formed_resp resp" for params i
    by (auto simp: handle_getbestblockhash_def s split: sum.split prod.split)
  moreover have "\<exists>resp s'. handle_getblockheader J N params i s = (Inr resp, s') \<and> well_formed_resp resp" for params i
  proof -
    have "\<not> (header_value J N b n h = Inl f)" for b n h f using hv[of b n h] by auto
    then show ?thesis
      by (auto simp: handle_getblockheader_def s Let_def split: option.split sum.split prod.split)
  qed
  moreover have "\<exists>resp s'. handle_getblockhash J N params i s = (Inr resp, s') \<and> well_formed_resp resp" for params i
  proof -
    have "\<not> (nk_to_value N h = Inl e)" for h e using assms[rule_format, of h] by auto
    then show ?thesis
      by (auto simp: handle_getblockhash_def s split: option.split sum.split prod.split)
  qed
  ultimately show ?thesis
    by (auto simp: handle_btc_request_def split: option.split sum.split prod.split)
qed

lemma handle_batch_total:
  assumes "\<forall>h. \<exists>v. nk_to_value N h = Inr v \<and> (\<forall>n. jset J v ''height'' (ju64 J n) \<noteq> None)"
  shows "\<exists>resps s'. handle_batch J N reqs s = (Inr resps, s') \<and> length resps = length reqs \<and>
    list_all (\<lambda>r. (bs_error r = None) = (bs_result r \<noteq> None)) resps"
proof (induction reqs arbitrary: s)
  case (Cons req reqs)
  obtain resp s1 where "handle_btc_request J N req s = (Inr resp, s1)" "well_formed_resp resp"
    using handle_btc_request_total[OF assms] by blast
  moreover obtain resps s2 where "handle_batch J N reqs s1 = (Inr resps, s2)" "length resps = length reqs"
    "list_all (\<lambda>r. (bs_error r = None) = (bs_result r \<noteq> None)) resps"
    using Cons.IH by blast
  ultimately show ?case by (simp add: bind_act_def well_formed_resp_def)
qed simp

end
