(* ===== verification/Btc_Rpc_Properties.thy ===== *)
theory Btc_Rpc_Properties
  imports Btc_Rpc_Facts Sample_Node
begin

text \<open>
  The properties of the proof check and of the Bitcoin and Dogecoin endpoints, with witnesses
  on a sample P2P client that serves the sample chain.
\<close>

subsection \<open>A sample P2P client\<close>

definition sample_to_value :: "block_header \<Rightarrow> string + js" where
  "sample_to_value h =
     (if h \<in> set sample_headers then Inr (JObj [(''nonce'', JNum (ucast (nonce h)))]) else Inl ''unknown'')"

definition sample_from_value :: "js \<Rightarrow> string + block_header" where
  "sample_from_value v =
     (case js_get v ''nonce'' of
        Some (JNum n) \<Rightarrow>
          (case List.find (\<lambda>h. ucast (nonce h) = n) sample_headers of Some h \<Rightarrow> Inr h | None \<Rightarrow> Inl ''unknown'')
      | _ \<Rightarrow> Inl ''no header'')"

definition sample_nk :: "(unit, js) nakamoto_api" where
  "sample_nk = \<lparr>
     nk_get_tip = (\<lambda>p. (Inr (2, sample_headers ! 2), p)),
     nk_get_block = (\<lambda>p b. (Inr (map_option (\<lambda>h. (ucast (nonce h) - 1, h))
        (List.find (\<lambda>h. sample_hash h = b) sample_headers)), p)),
     nk_get_block_by_height = (\<lambda>p n. (Inr
        (List.find (\<lambda>h. ucast (nonce h) = n + 1) sample_headers), p)),
     nk_block_hash = sample_hash, nk_old_hash = Some, nk_new_header = Some,
     nk_to_value = sample_to_value, nk_from_value = sample_from_value,
     nk_hex = (\<lambda>h. ''h'' @ sample_show (sample_hash h)),
     nk_hash_from_str = (\<lambda>s. case sample_parse s of None \<Rightarrow> Inl ''hash'' | Some b \<Rightarrow> Inr b),
     nk_show_hash = sample_show\<rparr>"

definition sample_merkle :: "block_hash list merkle_api" where
  "sample_merkle = \<lparr>
     extract_matches = (\<lambda>txs. Inr (null_hash, txs, map of_nat [0..<length txs])),
     ser_merkleblock = (\<lambda>mb. concat (mb_txn mb)),
     txid_from_str = (\<lambda>s. case sample_parse s of None \<Rightarrow> Inl ''txid'' | Some b \<Rightarrow> Inr b)\<rparr>"

definition sample_state :: "(unit, unit, unit, unit, unit, unit, js) chains_state" where
  "sample_state = \<lparr>
     cs_store = \<lparr>sync_db = (), synced_blockhashes = {}, sync_headers = hl_empty, RELOAD = False\<rparr>,
     btc_daemon = Some (sample_client Bitcoin), doge_daemon = None, btc_handle = Some (), doge_handle = None,
     helios_client = None, helios_op_client = None, response_cache = cache_new 2000, sol_client = None\<rparr>"

lemma sample_p2p_ok: "p2p_ok sample_nk (\<lambda>_. True) (set sample_headers)"
  by (auto simp: p2p_ok_def sample_nk_def find_Some_iff)

lemma sample_json_ok: "header_json_ok js_api sample_nk"
  unfolding header_json_ok_def
  by (auto simp: sample_nk_def sample_to_value_def sample_from_value_def split: if_splits)
    (auto simp: sample_headers_def sample_header_def split: if_splits)

lemma sample_conv_ok: "nk_conv_ok sample_btc sample_nk"
  by (simp add: nk_conv_ok_def sample_nk_def)

lemma sample_header_cache: "header_cache sample_nk U (cache_new n)"
  by (simp add: sc.holds_all_def cache_ok_new)

subsection \<open>Properties of the proof check\<close>

text \<open>
  Soundness of the proof check. If the P2P clients return the blocks they are asked for and
  the cache was filled by the handlers, a Merkle block is accepted only if its tree evaluates
  to the Merkle root of a header that the P2P network served and that has the hash of the
  block (the requested one, if the request names one); the result is the Merkle block.
\<close>

lemma verify_txid_sound:
  assumes "p2p_ok N Q S" "header_json_ok J N" "nk_conv_ok B N"
    "header_cache N S (response_cache st)" "\<forall>p. chain_handle (mp_chain param) st = Some p \<longrightarrow> Q p"
    "length (block_hash_of B (mb_header mb)) = 32"
    "verify_txid B M N mb param st = (Inr out, st')"
  shows "\<exists>h \<in> S. \<exists>matches indexes. block_hash_of B h = block_hash_of B (mb_header mb) \<and>
    extract_matches M (mb_txn mb) = Inr (merkle_root h, matches, indexes) \<and>
    mp_blockhash param \<in> {None, Some (block_hash_of B h)} \<and> out = ser_merkleblock M mb \<and>
    header_cache N S (response_cache st')"
  using verified_block[OF assms] .

lemma sample_nk_block:
  "nk_get_block sample_nk p (2 # replicate 31 0) = (Inr (Some (1, sample_headers ! Suc 0)), p)"
  "nk_to_value sample_nk (sample_headers ! Suc 0) = Inr (JObj [(''nonce'', JNum 2)])"
  by (simp_all add: sample_nk_def sample_to_value_def)
    (simp_all add: sample_headers_def sample_hash_def sample_header_def)

lemma sample_block_hash: "block_hash_of sample_btc (sample_headers ! Suc 0) = 2 # replicate 31 0"
  by (simp add: sample_headers_def sample_hash_def sample_header_def)

lemma sample_verify_ex:
  "\<exists>out st'. verify_txid sample_btc sample_merkle sample_nk
     \<lparr>mb_header = sample_headers ! 1, mb_txn = [7 # replicate 31 0]\<rparr>
     (merkle_proof_param_new [7 # replicate 31 0] None BitCoin) sample_state = (Inr out, st')"
proof -
  have conv: "nk_old_hash sample_nk = Some" "nk_new_header sample_nk = Some"
    by (simp_all add: sample_nk_def)
  have "merkle_root (sample_headers ! 1) = null_hash" by (simp add: sample_headers_def sample_header_def)
  then show ?thesis
    unfolding verify_txid_Inr
    by (simp add: merkle_proof_param_new_def sample_merkle_def conv sample_block_hash p2p_header_def
        sample_state_def chain_handle_def sample_nk_block Let_def del: sample_btc_simps)
qed

lemma verify_txid_sound_witness:
  "\<exists>h \<in> set sample_headers. sample_hash h = sample_hash (sample_headers ! 1) \<and> merkle_root h = null_hash"
proof -
  obtain out st' where v: "verify_txid sample_btc sample_merkle sample_nk
      \<lparr>mb_header = sample_headers ! 1, mb_txn = [7 # replicate 31 0]\<rparr>
      (merkle_proof_param_new [7 # replicate 31 0] None BitCoin) sample_state = (Inr out, st')"
    using sample_verify_ex by blast
  have c: "header_cache sample_nk (set sample_headers) (response_cache sample_state)"
    by (simp add: sample_state_def sample_header_cache)
  from verify_txid_sound[OF sample_p2p_ok sample_json_ok sample_conv_ok c _ _ v] show ?thesis
    by (auto simp: sample_merkle_def sample_hash_def)
qed

text \<open>
  The cache does not separate the chains: for a block whose header is cached, the verdict is
  the same whether the request is for Bitcoin or Dogecoin, so a block of one chain passes as a
  block of the other.
\<close>

lemma cached_header_crosses_chains:
  assumes "nk_old_hash N (block_hash_of B (mb_header mb)) = Some b"
    "cache_get (response_cache st) b = Some v"
  shows "verify_txid B M N mb (param\<lparr>mp_chain := chain\<rparr>) st = verify_txid B M N mb param st"
  using assms by (simp add: verify_txid_def p2p_header_def Let_def bind_act_def split: sum.splits option.splits)

lemma cached_header_crosses_chains_witness:
  "verify_txid sample_btc sample_merkle sample_nk \<lparr>mb_header = sample_headers ! Suc 0, mb_txn = []\<rparr>
     ((merkle_proof_param_new [] None BitCoin)\<lparr>mp_chain := DogeCoin\<rparr>)
     (sample_state\<lparr>response_cache := cache_insert (cache_new 2000) (2 # replicate 31 0) (JObj [(''nonce'', JNum 2)])\<rparr>) =
   verify_txid sample_btc sample_merkle sample_nk \<lparr>mb_header = sample_headers ! Suc 0, mb_txn = []\<rparr>
     (merkle_proof_param_new [] None BitCoin)
     (sample_state\<lparr>response_cache := cache_insert (cache_new 2000) (2 # replicate 31 0) (JObj [(''nonce'', JNum 2)])\<rparr>)"
proof (rule cached_header_crosses_chains)
  show "nk_old_hash sample_nk (block_hash_of sample_btc (mb_header \<lparr>mb_header = sample_headers ! Suc 0, mb_txn = []\<rparr>)) =
      Some (2 # replicate 31 0)"
    using sample_block_hash by (simp add: sample_nk_def)
qed (simp add: sc.get_put cache_ok_new)

text \<open>
  The outcome of the endpoint is that of the check: the reply (before it is signed) says no error exactly if
  the request is a transaction id and fetching and verifying its proof succeeds, and then it
  names that id.
\<close>

lemma verify_transaction_reply:
  "verify_transaction J B M N send (\<lambda>x. x) s chain st = (Inr \<lparr>vr_error = False, vr_result = text\<rparr>, st') \<longleftrightarrow>
   (\<exists>txid out. txid_from_str M s = Inr txid \<and> text = Verified_Txid txid \<and>
      fetch_proof_and_verify J B M N send (merkle_proof_param_new [txid] None chain) st = (Inr out, st'))"
  by (auto simp: verify_transaction_def parse_txid_def response_new_def
      split: sum.splits prod.splits fault.splits)

subsection \<open>Properties of the endpoints\<close>

text \<open>
  a batch is answered: if headers have a JSON form, the handlers do not panic and give one
  response per request, in order, each with either an error or a result.
\<close>

lemma handle_batch_responses:
  assumes "\<forall>h. \<exists>v. nk_to_value N h = Inr v \<and> (\<forall>n. jset J v ''height'' (ju64 J n) \<noteq> None)"
  shows "\<exists>resps s'. handle_batch J N reqs s = (Inr resps, s') \<and> length resps = length reqs \<and>
    list_all (\<lambda>r. (bs_error r = None) = (bs_result r \<noteq> None)) resps"
  using handle_batch_total[OF assms] .

lemma handle_batch_responses_witness:
  "\<exists>resps s'. handle_batch js_api (sample_nk\<lparr>nk_to_value := (\<lambda>h. Inr (JObj []))\<rparr>)
      [JStr ''x'', JObj [(''method'', JStr ''getbestblockhash''), (''params'', JArr []), (''id'', JNum 1)]]
      ((), cache_new 2000) = (Inr resps, s') \<and> length resps = 2 \<and>
    list_all (\<lambda>r. (bs_error r = None) = (bs_result r \<noteq> None)) resps"
  using handle_batch_responses[of "sample_nk\<lparr>nk_to_value := (\<lambda>h. Inr (JObj []))\<rparr>" js_api
      "[JStr ''x'', JObj [(''method'', JStr ''getbestblockhash''), (''params'', JArr []), (''id'', JNum 1)]]"
      "((), cache_new 2000)"]
  by (simp add: numeral_2_eq_2)

text \<open>
  The endpoints keep the cache sound: whatever batch \<open>/btc\<close> or \<open>/doge\<close> handles, an entry under a
  32-byte key still decodes to nothing but the header with that hash that the network served.
\<close>

lemma endpoints_keep_cache:
  assumes "p2p_ok N Q S" "header_json_ok J N" "header_cache N S (response_cache st)"
    "\<forall>p. chain_handle chain st = Some p \<longrightarrow> Q p"
    "on_chain chain (handle_fetch_header J N sign payload) st = (r, st')"
  shows "header_cache N S (response_cache st') \<and> (\<forall>p. chain_handle chain st' = Some p \<longrightarrow> Q p)"
proof (cases "chain_handle chain st")
  case None
  with assms(3-5) show ?thesis by (auto simp: on_chain_def)
next
  case (Some p)
  obtain r1 p1 c1 where b: "handle_batch J N payload (p, response_cache st) = (r1, p1, c1)"
    by (metis prod_cases3)
  have "Q p1 \<and> header_cache N S c1"
    using handle_batch_keeps[OF assms(1,2) _ assms(3) b] assms(4) Some by blast
  moreover have "st' = (set_chain_handle chain p1 st)\<lparr>response_cache := c1\<rparr>"
    using assms(5) Some b
    by (auto simp: on_chain_def handle_fetch_header_def bind_act_def split: sum.splits)
  ultimately show ?thesis
    by (auto simp: chain_handle_def set_chain_handle_def split: proof_chain.splits)
qed

lemma endpoints_keep_cache_witness:
  "header_cache sample_nk (set sample_headers) (response_cache (snd (on_chain BitCoin
     (handle_fetch_header js_api sample_nk (\<lambda>x. x)
       [JObj [(''method'', JStr ''getblockheader''), (''params'', JArr [JStr ''b'']), (''id'', JNum 1)]])
     sample_state)))"
proof -
  let ?m = "on_chain BitCoin (handle_fetch_header js_api sample_nk (\<lambda>x. x)
       [JObj [(''method'', JStr ''getblockheader''), (''params'', JArr [JStr ''b'']), (''id'', JNum 1)]]) sample_state"
  have "header_cache sample_nk (set sample_headers) (response_cache sample_state)"
    by (simp add: sample_state_def sample_header_cache)
  from endpoints_keep_cache[OF sample_p2p_ok sample_json_ok this _ prod.collapse[of ?m, symmetric]]
  show ?thesis by simp
qed

text \<open>
  C31: \<open>getblockhash\<close> is not repeatable: the first answer for a height is the block's hash, the
  second one, from the cache, is the JSON form of its header.
\<close>

lemma getblockhash_changes_answer:
  assumes "jas_u64 J param = Some n" "cache_ok cache" "cache_get cache (to_be_bytes n) = None"
    "nk_get_block_by_height N p n = (Inr (Some header), p')" "nk_to_value N header = Inr v"
    "handle_getblockhash J N [param] i (p, cache) = (r, s)"
  shows "r = Inr (create_btc_response None i (Some (jstr J (nk_show_hash N (nk_block_hash N header))))) \<and>
    handle_getblockhash J N [param] i' s = (Inr (create_btc_response None i' (Some v)), s)"
  using assms by (auto simp: handle_getblockhash_def sc.get_put)

lemma getblockhash_changes_answer_witness:
  "\<exists>s. handle_getblockhash js_api sample_nk [JNum 1] JNull s =
     (Inr (create_btc_response None JNull (Some (JObj [(''nonce'', JNum 2)]))), s) \<and>
   fst (handle_getblockhash js_api sample_nk [JNum 1] JNull ((), cache_new 2000)) =
     Inr (create_btc_response None JNull (Some (JStr ''b'')))"
proof -
  let ?m = "handle_getblockhash js_api sample_nk [JNum 1] JNull ((), cache_new 2000)"
  have h: "nk_get_block_by_height sample_nk () 1 = (Inr (Some (sample_headers ! Suc 0)), ())"
    by (simp add: sample_nk_def sample_headers_def sample_header_def)
  have "nk_show_hash sample_nk (nk_block_hash sample_nk (sample_headers ! Suc 0)) = ''b''"
    using sample_block_hash by (simp add: sample_nk_def sample_show_def)
  with getblockhash_changes_answer[OF _ cache_ok_new _ h sample_nk_block(2), of js_api "JNum 1" 2000 JNull
      "fst ?m" "snd ?m" JNull]
  have "handle_getblockhash js_api sample_nk [JNum 1] JNull (snd ?m) =
      (Inr (create_btc_response None JNull (Some (JObj [(''nonce'', JNum 2)]))), snd ?m)"
    "fst ?m = Inr (create_btc_response None JNull (Some (JStr ''b'')))"
    by (simp_all del: split_paired_Ex)
  then show ?thesis by blast
qed

text \<open>
  The first answered \<open>getblockheader\<close> for a block fixes the answer of all later ones: the
  result is repeated whatever \<open>verbose\<close> flag they carry.
\<close>

lemma getblockheader_ignores_verbose:
  assumes "cache_ok cache" "jas_str J (params ! 0) = Some hash_str" "nk_hash_from_str N hash_str = Inr b"
    "handle_getblockheader J N params i (p, cache) = (Inr resp, p', cache')" "bs_error resp = None"
    "params' \<noteq> []" "length params' \<le> 2" "params' ! 0 = params ! 0"
  shows "handle_getblockheader J N params' i' (q, cache') =
    (Inr (create_btc_response None i' (bs_result resp)), q, cache')"
proof -
  have "cache_get cache' b = bs_result resp \<and> bs_result resp \<noteq> None"
    using assms(1-5)
    by (auto simp: handle_getblockheader_def Let_def create_btc_response_def sc.get_put
        split: if_splits option.splits sum.splits prod.splits)
  with assms(2,3,6-8) show ?thesis
    by (auto simp: handle_getblockheader_def Let_def)
qed

lemma getblockheader_ignores_verbose_witness:
  "\<exists>p cache v. handle_getblockheader js_api sample_nk [JStr ''b'', JBool True] JNull (p, cache) =
     (Inr (create_btc_response None JNull (Some (JStr ''hb''))), p, cache)"
proof -
  let ?m = "handle_getblockheader js_api sample_nk [JStr ''b'', JBool False] JNull ((), cache_new 2000)"
  have hs: "nk_hash_from_str sample_nk ''b'' = Inr (2 # replicate 31 0)"
    "nk_hex sample_nk (sample_headers ! Suc 0) = ''hb''"
    using sample_block_hash by (simp_all add: sample_nk_def sample_parse_def sample_show_def)
  have m: "?m = (Inr (create_btc_response None JNull (Some (JStr ''hb''))), (),
      cache_insert (cache_new 2000) (2 # replicate 31 0) (JStr ''hb''))"
    by (simp add: handle_getblockheader_def hs sample_nk_block header_value_def)
  have "handle_getblockheader js_api sample_nk [JStr ''b'', JBool True] JNull
      ((), cache_insert (cache_new 2000) (2 # replicate 31 0) (JStr ''hb'')) =
    (Inr (create_btc_response None JNull (bs_result (create_btc_response None JNull (Some (JStr ''hb''))))), (),
      cache_insert (cache_new 2000) (2 # replicate 31 0) (JStr ''hb''))"
    by (rule getblockheader_ignores_verbose[OF cache_ok_new _ hs(1) m])
      (simp_all add: create_btc_response_def)
  then show ?thesis by (auto simp: create_btc_response_def)
qed

text \<open>
  A \<open>getblockheader\<close> without the verbose form that is not answered from the cache makes the
  proof check of every Merkle block of that block fail: the cached text is not a header.
\<close>

lemma short_header_blocks_proofs:
  assumes "header_json_ok J N" "cache_ok cache" "jas_str J (params ! 0) = Some hash_str"
    "nk_hash_from_str N hash_str = Inr b" "length params = 2" "jas_bool J (params ! 1) = Some False"
    "cache_get cache b = None" "handle_getblockheader J N params i (p, cache) = (Inr resp, p', cache')"
    "bs_error resp = None"
    "nk_old_hash N (block_hash_of B (mb_header mb)) = Some b" "response_cache st = cache'"
  shows "\<not> (\<exists>out st'. verify_txid B M N mb param st = (Inr out, st'))"
proof -
  obtain s where "cache_get cache' b = Some (jstr J s)"
    using assms(2-9)
    by (auto simp: handle_getblockheader_def Let_def header_value_def create_btc_response_def sc.get_put
        split: if_splits option.splits sum.splits prod.splits)
  with header_json_okD(3)[OF assms(1), of s] assms(10,11) show ?thesis
    by (auto simp: verify_txid_Inr p2p_header_def)
qed

lemma short_header_blocks_proofs_witness:
  "\<not> (\<exists>out st'. verify_txid sample_btc sample_merkle sample_nk \<lparr>mb_header = sample_headers ! Suc 0, mb_txn = []\<rparr>
     (merkle_proof_param_new [] None BitCoin)
     (sample_state\<lparr>response_cache := cache_insert (cache_new 2000) (2 # replicate 31 0) (JStr ''hb'')\<rparr>) =
       (Inr out, st'))"
proof -
  let ?m = "handle_getblockheader js_api sample_nk [JStr ''b'', JBool False] JNull ((), cache_new 2000)"
  have hs: "nk_hash_from_str sample_nk ''b'' = Inr (2 # replicate 31 0)"
    "nk_hex sample_nk (sample_headers ! Suc 0) = ''hb''"
    using sample_block_hash by (simp_all add: sample_nk_def sample_parse_def sample_show_def)
  have m: "?m = (Inr (create_btc_response None JNull (Some (JStr ''hb''))), (),
      cache_insert (cache_new 2000) (2 # replicate 31 0) (JStr ''hb''))"
    by (simp add: handle_getblockheader_def hs sample_nk_block header_value_def)
  have "nk_old_hash sample_nk (block_hash_of sample_btc (mb_header
      \<lparr>mb_header = sample_headers ! Suc 0, mb_txn = []\<rparr>)) = Some (2 # replicate 31 0)"
    using sample_block_hash by (simp add: sample_nk_def)
  then show ?thesis
    by (rule short_header_blocks_proofs[OF sample_json_ok cache_ok_new _ hs(1) _ _ _ m, rotated 5])
      (simp_all add: create_btc_response_def)
qed

end
