(* ===== verification/Sol_Client.thy ===== *)
theory Sol_Client
  imports Node_Config "HOL-Library.AList"
begin

text \<open>
  \<open>chains/sol.rs\<close>: answers for Solana are taken from one judge endpoint and checked against a
  set of extra endpoints. A dispatcher task takes the requests one by one, broadcasts each to
  one worker task per extra endpoint and collects the workers' answers; the requesting
  handler compares what the dispatcher decided with the judge's answer.

  Workers run concurrently, so a round is driven by a \<^emph>\<open>schedule\<close>: the order in which the
  workers' messages reach the dispatcher, each with the seconds passed since the round began,
  and \<open>None\<close> for a one-second wait without a message. A result \<open>None\<close> says that the dispatcher
  still waits at the end of the schedule. Transactions, accounts and signature states are
  library types (\<open>'tx\<close>, \<open>'acc\<close>, \<open>'sg\<close>), as are the request options (\<open>'c\<close>).
\<close>

subsection \<open>Interfaces\<close>

type_synonym pubkey = bytes
type_synonym signature = bytes

record rpc_error =
  re_transaction :: "string option"
  re_debug :: string

record 'c sig_config =
  sc_before :: "signature option"
  sc_until :: "signature option"
  sc_limit :: "u64 option"
  sc_commitment :: "'c option"

type_synonym ('w, 'a) rpc_call = "'w \<Rightarrow> (rpc_error + 'a) \<times> 'w"

text \<open>The RPC client library, on an endpoint whose connection and node have the state \<open>'w\<close>.\<close>

record ('w, 'c, 'tx, 'acc, 'sg) sol_rpc_api =
  rpc_new :: "string \<Rightarrow> 'w"
  rpc_url :: "'w \<Rightarrow> string"
  rpc_get_health :: "('w, unit) rpc_call"
  rpc_get_transaction :: "signature \<Rightarrow> ('w, 'tx) rpc_call"
  rpc_get_transaction_with_config :: "signature \<Rightarrow> 'c \<Rightarrow> ('w, 'tx) rpc_call"
  rpc_get_slot :: "('w, u64) rpc_call"
  rpc_get_slot_with_commitment :: "'c \<Rightarrow> ('w, u64) rpc_call"
  rpc_get_account :: "pubkey \<Rightarrow> ('w, 'acc) rpc_call"
  rpc_get_account_with_config :: "pubkey \<Rightarrow> 'c \<Rightarrow> ('w, 'acc option) rpc_call"
  rpc_get_signatures :: "pubkey \<Rightarrow> ('w, 'sg list) rpc_call"
  rpc_get_signatures_with_config :: "pubkey \<Rightarrow> 'c sig_config \<Rightarrow> ('w, 'sg list) rpc_call"
  rpc_get_program_accounts :: "pubkey \<Rightarrow> ('w, (pubkey \<times> 'acc) list) rpc_call"
  rpc_get_program_accounts_with_config :: "pubkey \<Rightarrow> 'c \<Rightarrow> ('w, (pubkey \<times> 'acc) list) rpc_call"

text \<open>
  The JSON forms of the library's answers (serialising them does not fail; parsing may), and
  the signature inside a signature state.
\<close>

record ('tx, 'acc, 'sg) sol_json =
  tx_to_vec :: "'tx \<Rightarrow> bytes"
  tx_from_slice :: "bytes \<Rightarrow> 'tx option"
  acc_to_vec :: "'acc option \<Rightarrow> bytes"
  acc_from_slice :: "bytes \<Rightarrow> 'acc option option"
  pacc_to_string :: "pubkey \<times> 'acc \<Rightarrow> string"
  pacc_from_str :: "string \<Rightarrow> (pubkey \<times> 'acc) option"
  sig_to_string :: "'sg \<Rightarrow> string"
  sig_from_str :: "string \<Rightarrow> 'sg option"
  sig_text :: "'sg \<Rightarrow> string"
  signature_from_str :: "string \<Rightarrow> string + signature"

subsection \<open>Tasks, responses and errors\<close>

datatype 'c task_event =
    Task_GetTransaction signature "'c option"
  | Task_GetSlot "'c option"
  | Task_GetAccountInfo pubkey "'c option"
  | Task_GetSignaturesForAddress pubkey "'c sig_config option"
  | Task_GetProgramAccounts pubkey "'c option"

datatype sol_error = Custom sol_text | Internal sol_text | TimeOut sol_text
  and sol_text =
    Rpc_Error string
  | Retry_Limited string
  | Received_Error string sol_error
  | Cancelled
  | No_Receiver
  | Max_Count_Elements nat
  | Not_Suitable
  | Not_Found
  | Not_Same
  | Slot_Not_Same u64 u64

datatype ('tx, 'acc, 'sg) response_event =
    Resp_GetTransaction "sol_error + 'tx"
  | Resp_GetSlot "sol_error + u64"
  | Resp_GetAccountInfo "sol_error + 'acc option"
  | Resp_GetSignaturesForAddress "sol_error + 'sg list"
  | Resp_GetProgramAccounts "sol_error + (pubkey \<times> 'acc) list"

text \<open>What the error type displays to a client: only the text of a custom error.\<close>

datatype shown_error = Shown sol_text | Shown_Internal | Shown_TimeOut

fun show_sol_error :: "sol_error \<Rightarrow> shown_error" where
  "show_sol_error (Custom err) = Shown err"
| "show_sol_error (Internal err) = Shown_Internal"
| "show_sol_error (TimeOut err) = Shown_TimeOut"

subsection \<open>Workers\<close>

text \<open>A worker tries its endpoint up to three times and sends one message, signed with its URL.\<close>

fun try_rpc :: "nat \<Rightarrow> ('w \<Rightarrow> ('x + 'a) \<times> 'w) \<Rightarrow> 'w \<Rightarrow> 'a option \<times> 'w" where
  "try_rpc 0 call w = (None, w)"
| "try_rpc (Suc n) call w =
     (case call w of
        (Inr a, w') \<Rightarrow> (Some a, w')
      | (Inl e, w') \<Rightarrow> try_rpc n call w')"

type_synonym 'a inner_message = "(sol_error + 'a) \<times> string"

definition worker_message :: "string \<Rightarrow> 'a option \<Rightarrow> 'a inner_message" where
  "worker_message url a =
     (case a of Some a \<Rightarrow> (Inr a, url) | None \<Rightarrow> (Inl (Internal (Retry_Limited url)), url))"

definition client_worker_do :: "('w \<Rightarrow> ('x + 'a) \<times> 'w) \<Rightarrow> string \<Rightarrow> 'w \<Rightarrow> 'a inner_message \<times> 'w" where
  "client_worker_do call url w = (case try_rpc 3 call w of (a, w') \<Rightarrow> (worker_message url a, w'))"

definition client_worker_do_get_transaction ::
    "('w, 'c, 'tx, 'acc, 'sg) sol_rpc_api \<Rightarrow> 'c option \<Rightarrow> signature \<Rightarrow> 'w \<Rightarrow> 'tx inner_message \<times> 'w" where
  "client_worker_do_get_transaction R tx_config signature w =
     client_worker_do
       (case tx_config of
          None \<Rightarrow> rpc_get_transaction R signature
        | Some config \<Rightarrow> rpc_get_transaction_with_config R signature config) (rpc_url R w) w"

definition client_worker_do_get_slot ::
    "('w, 'c, 'tx, 'acc, 'sg) sol_rpc_api \<Rightarrow> 'c option \<Rightarrow> 'w \<Rightarrow> u64 inner_message \<times> 'w" where
  "client_worker_do_get_slot R commitment_config w =
     client_worker_do
       (case commitment_config of
          None \<Rightarrow> rpc_get_slot R
        | Some config \<Rightarrow> rpc_get_slot_with_commitment R config) (rpc_url R w) w"

text \<open>Without options a missing account is an answer, not an error.\<close>

definition account_call ::
    "('w, 'c, 'tx, 'acc, 'sg) sol_rpc_api \<Rightarrow> 'c option \<Rightarrow> pubkey \<Rightarrow> 'w \<Rightarrow> (string + 'acc option) \<times> 'w" where
  "account_call R config pubkey w =
     (case config of
        None \<Rightarrow>
          (case rpc_get_account R pubkey w of
             (Inr account, w') \<Rightarrow> (Inr (Some account), w')
           | (Inl err, w') \<Rightarrow>
               ((case re_transaction err of
                   Some err_s \<Rightarrow> if str_contains err_s ''AccountNotFound'' then Inr None else Inl err_s
                 | None \<Rightarrow> Inl (re_debug err)), w'))
      | Some config \<Rightarrow>
          (case rpc_get_account_with_config R pubkey config w of
             (Inr res, w') \<Rightarrow> (Inr res, w')
           | (Inl err, w') \<Rightarrow> (Inl (re_debug err), w')))"

definition client_worker_do_get_account ::
    "('w, 'c, 'tx, 'acc, 'sg) sol_rpc_api \<Rightarrow> 'c option \<Rightarrow> pubkey \<Rightarrow> 'w \<Rightarrow> 'acc option inner_message \<times> 'w" where
  "client_worker_do_get_account R config pubkey w =
     client_worker_do (account_call R config pubkey) (rpc_url R w) w"

definition client_worker_do_get_signatures_for_address ::
    "('w, 'c, 'tx, 'acc, 'sg) sol_rpc_api \<Rightarrow> 'c sig_config option \<Rightarrow> pubkey \<Rightarrow> 'w
      \<Rightarrow> 'sg list inner_message \<times> 'w" where
  "client_worker_do_get_signatures_for_address R config pubkey w =
     client_worker_do
       (case config of
          None \<Rightarrow> rpc_get_signatures R pubkey
        | Some config \<Rightarrow> rpc_get_signatures_with_config R pubkey config) (rpc_url R w) w"

definition client_worker_do_get_program_accounts ::
    "('w, 'c, 'tx, 'acc, 'sg) sol_rpc_api \<Rightarrow> 'c option \<Rightarrow> pubkey \<Rightarrow> 'w
      \<Rightarrow> (pubkey \<times> 'acc) list inner_message \<times> 'w" where
  "client_worker_do_get_program_accounts R config pubkey w =
     client_worker_do
       (case config of
          None \<Rightarrow> rpc_get_program_accounts R pubkey
        | Some config \<Rightarrow> rpc_get_program_accounts_with_config R pubkey config) (rpc_url R w) w"

end
