(* ===== verification/Sol_Dispatch.thy ===== *)
theory Sol_Dispatch
  imports Sol_Client
begin

text \<open>
  \<open>chains/sol.rs\<close>, the dispatcher's side of a round: counting answers, deciding on them, and
  the loops \<open>deal_get_...\<close> that collect one message per worker.

  The iteration order of a Rust hash map is arbitrary. Where it can show in a result it is an
  argument \<open>it\<close> (a rearrangement of the entries); where it cannot, the map is the association
  list of its entries in the order of their insertion, as an \<open>IndexMap\<close> always is.
\<close>

subsection \<open>Counting\<close>

text \<open>\<open>counts.entry(x).and_modify(|c| *c += 1).or_insert(1)\<close>, for each element of a sequence.\<close>

definition count_entry :: "'k \<Rightarrow> ('k \<times> nat) list \<Rightarrow> ('k \<times> nat) list" where
  "count_entry x counts =
     AList.update x (case map_of counts x of Some counter \<Rightarrow> counter + 1 | None \<Rightarrow> 1) counts"

definition tally :: "'k list \<Rightarrow> ('k \<times> nat) list" where
  "tally xs = fold count_entry xs []"

text \<open>\<open>Iterator::max_by_key\<close>: the last of the elements with the greatest key.\<close>

fun max_by_count :: "('k \<times> nat) list \<Rightarrow> ('k \<times> nat) option" where
  "max_by_count [] = None"
| "max_by_count (x # xs) =
     (case max_by_count xs of
        None \<Rightarrow> Some x
      | Some y \<Rightarrow> if snd y < snd x then Some x else Some y)"

definition most_frequent :: "('k \<times> nat) list \<Rightarrow> (sol_error, 'k) res" where
  "most_frequent counts =
     (let max_count = fold max (map snd counts) 0;
          max_count_elements = length (filter (\<lambda>count. count = max_count) (map snd counts))
      in if 1 < max_count_elements then Inl (Err (Custom (Max_Count_Elements max_count_elements)))
         else ok_or (Custom Not_Suitable) (map_option fst (max_by_count counts)))"

definition deal_get_slot_res :: "(u64 \<times> string) list \<Rightarrow> (sol_error, u64) res" where
  "deal_get_slot_res slots = most_frequent (tally (map fst slots))"

definition deal_get_account_res ::
    "('tx, 'acc, 'sg) sol_json \<Rightarrow> (bytes \<times> string) list \<Rightarrow> (sol_error, 'acc option) res" where
  "deal_get_account_res S accounts =
     bind_res (most_frequent (tally (map fst accounts)))
       (\<lambda>account. unwrap_res ''deal_get_account_res: from_slice'' (acc_from_slice S account))"

definition deal_get_transaction_res ::
    "('tx, 'acc, 'sg) sol_json \<Rightarrow> (bytes \<times> string) list \<Rightarrow> (sol_error, 'tx) res" where
  "deal_get_transaction_res S txs =
     bind_res (most_frequent (tally (map fst txs)))
       (\<lambda>tx. unwrap_res ''deal_get_transaction_res: from_slice'' (tx_from_slice S tx))"

fun unwrap_all :: "string \<Rightarrow> 'a option list \<Rightarrow> ('e, 'a list) res" where
  "unwrap_all site [] = Inr []"
| "unwrap_all site (x # xs) =
     bind_res (unwrap_res site x) (\<lambda>y. bind_res (unwrap_all site xs) (\<lambda>ys. Inr (y # ys)))"

definition keys_with_count :: "nat \<Rightarrow> ('k \<times> nat) list \<Rightarrow> 'k list" where
  "keys_with_count n counts = map fst (filter (\<lambda>(_, v). v = n) counts)"

definition deal_get_program_accounts_res ::
    "('tx, 'acc, 'sg) sol_json \<Rightarrow> ((string \<times> nat) list \<Rightarrow> (string \<times> nat) list)
      \<Rightarrow> (string \<times> (pubkey \<times> 'acc) list) list \<Rightarrow> (sol_error, (pubkey \<times> 'acc) list) res" where
  "deal_get_program_accounts_res S it accounts =
     (let members_num = length accounts;
          counts = tally (map (pacc_to_string S) (concat (map snd accounts)))
      in unwrap_all ''deal_get_program_accounts_res: from_str''
           (map (pacc_from_str S) (keys_with_count members_num (it counts))))"

definition deal_get_signatures_for_address_res ::
    "('tx, 'acc, 'sg) sol_json \<Rightarrow> ((string \<times> 'sg list) list \<Rightarrow> (string \<times> 'sg list) list)
      \<Rightarrow> (string \<times> 'sg list) list \<Rightarrow> (sol_error, 'sg list) res" where
  "deal_get_signatures_for_address_res S it signatures =
     (let from_num = length signatures;
          seen = tally (map (sig_to_string S) (concat (map snd (it signatures))))
      in unwrap_all ''deal_get_signatures_for_address_res: from_str''
           (map (sig_from_str S) (keys_with_count from_num seen)))"

subsection \<open>Collecting a round\<close>

text \<open>
  The receive loop: waits without a message repeat it, an error of any worker ends the round,
  the last missing answer decides it, and only then, after a message, is the clock looked at.
\<close>

datatype 'a inner_event = Elapsed | Message nat "sol_error + 'a" string

datatype 'b round_end = Worker_Failed string sol_error | Decided "(sol_error, 'b) res" | Cancelled_Round

fun collect ::
    "nat \<Rightarrow> ('a \<Rightarrow> string \<Rightarrow> 'r list \<Rightarrow> 'r list) \<Rightarrow> ('r list \<Rightarrow> (sol_error, 'b) res) \<Rightarrow> 'r list
      \<Rightarrow> 'a inner_event list \<Rightarrow> 'b round_end option" where
  "collect rpc_num ins decide res [] = None"
| "collect rpc_num ins decide res (Elapsed # es) = collect rpc_num ins decide res es"
| "collect rpc_num ins decide res (Message t (Inl err) from # es) = Some (Worker_Failed from err)"
| "collect rpc_num ins decide res (Message t (Inr a) from # es) =
     (let res = ins a from res
      in if length res = rpc_num then Some (Decided (decide res))
         else if 60 \<le> t then Some Cancelled_Round
         else collect rpc_num ins decide res es)"

text \<open>
  The value sent to the requesting handler: \<open>ok\<close> is the response constructor of the request,
  \<open>failed\<close> the one used for a worker's error. A panic ends the dispatcher.
\<close>

fun respond ::
    "((sol_error + 'b) \<Rightarrow> 'ev) \<Rightarrow> (sol_error \<Rightarrow> 'ev) \<Rightarrow> 'b round_end \<Rightarrow> (unit, 'ev) res" where
  "respond ok failed (Worker_Failed from err) = Inr (failed (Internal (Received_Error from err)))"
| "respond ok failed (Decided (Inr b)) = Inr (ok (Inr b))"
| "respond ok failed (Decided (Inl (Err err))) = Inr (ok (Inl err))"
| "respond ok failed (Decided (Inl (Panic site))) = Inl (Panic site)"
| "respond ok failed Cancelled_Round = Inr (ok (Inl (TimeOut Cancelled)))"

text \<open>
  What all five loops begin with: a message channel for \<open>rpc_num\<close> messages (a channel without
  room panics), and the broadcast to the workers, which fails if no worker listens.
\<close>

definition open_round ::
    "nat \<Rightarrow> nat \<Rightarrow> ((sol_error + 'b) \<Rightarrow> 'ev) \<Rightarrow> (unit, 'ev) res option \<Rightarrow> (unit, 'ev) res option" where
  "open_round rpc_num workers ok r =
     (if rpc_num = 0 then Some (Inl (Panic ''mpsc::channel''))
      else if workers = 0 then Some (Inr (ok (Inl (Internal No_Receiver))))
      else r)"

type_synonym ('tx, 'acc, 'sg) deal_result = "(unit, ('tx, 'acc, 'sg) response_event) res option"

definition deal_get_transaction ::
    "('tx, 'acc, 'sg) sol_json \<Rightarrow> nat \<Rightarrow> nat \<Rightarrow> 'tx inner_event list \<Rightarrow> ('tx, 'acc, 'sg) deal_result" where
  "deal_get_transaction S rpc_num workers es =
     open_round rpc_num workers Resp_GetTransaction
       (map_option (respond Resp_GetTransaction (\<lambda>e. Resp_GetTransaction (Inl e)))
          (collect rpc_num (\<lambda>tx from. List.insert (tx_to_vec S tx, from))
             (deal_get_transaction_res S) [] es))"

definition deal_get_slot ::
    "nat \<Rightarrow> nat \<Rightarrow> u64 inner_event list \<Rightarrow> ('tx, 'acc, 'sg) deal_result" where
  "deal_get_slot rpc_num workers es =
     open_round rpc_num workers Resp_GetSlot
       (map_option (respond Resp_GetSlot (\<lambda>e. Resp_GetSlot (Inl e)))
          (collect rpc_num (\<lambda>slot from. List.insert (slot, from)) deal_get_slot_res [] es))"

text \<open>An error of a worker is answered with the response constructor of \<open>getSlot\<close>, as the source has it.\<close>

definition deal_get_account_info ::
    "('tx, 'acc, 'sg) sol_json \<Rightarrow> nat \<Rightarrow> nat \<Rightarrow> 'acc option inner_event list
      \<Rightarrow> ('tx, 'acc, 'sg) deal_result" where
  "deal_get_account_info S rpc_num workers es =
     open_round rpc_num workers Resp_GetAccountInfo
       (map_option (respond Resp_GetAccountInfo (\<lambda>e. Resp_GetSlot (Inl e)))
          (collect rpc_num (\<lambda>account from. List.insert (acc_to_vec S account, from))
             (deal_get_account_res S) [] es))"

definition deal_get_signatures_for_address ::
    "('tx, 'acc, 'sg) sol_json \<Rightarrow> ((string \<times> 'sg list) list \<Rightarrow> (string \<times> 'sg list) list)
      \<Rightarrow> nat \<Rightarrow> nat \<Rightarrow> 'sg list inner_event list \<Rightarrow> ('tx, 'acc, 'sg) deal_result" where
  "deal_get_signatures_for_address S it rpc_num workers es =
     open_round rpc_num workers Resp_GetSignaturesForAddress
       (map_option (respond Resp_GetSignaturesForAddress (\<lambda>e. Resp_GetSignaturesForAddress (Inl e)))
          (collect rpc_num (\<lambda>signatures from. AList.update from signatures)
             (deal_get_signatures_for_address_res S it) [] es))"

definition deal_get_program_accounts ::
    "('tx, 'acc, 'sg) sol_json \<Rightarrow> ((string \<times> nat) list \<Rightarrow> (string \<times> nat) list)
      \<Rightarrow> nat \<Rightarrow> nat \<Rightarrow> (pubkey \<times> 'acc) list inner_event list \<Rightarrow> ('tx, 'acc, 'sg) deal_result" where
  "deal_get_program_accounts S it rpc_num workers es =
     open_round rpc_num workers Resp_GetProgramAccounts
       (map_option (respond Resp_GetProgramAccounts (\<lambda>e. Resp_GetProgramAccounts (Inl e)))
          (collect rpc_num (\<lambda>accounts from. AList.update from accounts)
             (deal_get_program_accounts_res S it) [] es))"

subsection \<open>Dispatcher and workers\<close>

text \<open>
  The client: its extra endpoints and its judge. A schedule names, in the order of their
  arrival, the workers whose messages the dispatcher receives.
\<close>

record 'w sol_client =
  sol_extra_rpc :: "'w list"
  sol_judge_rpc :: 'w

type_synonym schedule = "(nat \<times> nat) option list"

definition round_events :: "'a inner_message list \<Rightarrow> schedule \<Rightarrow> 'a inner_event list" where
  "round_events replies sched =
     map (\<lambda>s. case s of
        None \<Rightarrow> Elapsed
      | Some (t, i) \<Rightarrow> Message t (fst (replies ! i)) (snd (replies ! i))) sched"

text \<open>One task: every worker does its part on its endpoint, the dispatcher collects.\<close>

definition run_workers :: "('w \<Rightarrow> 'a inner_message \<times> 'w) \<Rightarrow> 'w list \<Rightarrow> 'a inner_message list \<times> 'w list" where
  "run_workers worker ws = (map (fst \<circ> worker) ws, map (snd \<circ> worker) ws)"

text \<open>
  The hash map orders of a round, and the task loop's match on the task together with the
  workers' match on the broadcast message.
\<close>

record 'sg hash_order =
  order_counts :: "(string \<times> nat) list \<Rightarrow> (string \<times> nat) list"
  order_senders :: "(string \<times> 'sg list) list \<Rightarrow> (string \<times> 'sg list) list"

definition dispatch ::
    "('w, 'c, 'tx, 'acc, 'sg) sol_rpc_api \<Rightarrow> ('tx, 'acc, 'sg) sol_json \<Rightarrow> 'sg hash_order \<Rightarrow> schedule
      \<Rightarrow> 'c task_event \<Rightarrow> 'w list \<Rightarrow> ('tx, 'acc, 'sg) deal_result \<times> 'w list" where
  "dispatch R S H sched task ws =
     (let rpc_num = length ws; workers = length ws
      in case task of
           Task_GetTransaction sig tx_config \<Rightarrow>
             (case run_workers (client_worker_do_get_transaction R tx_config sig) ws of
                (replies, ws') \<Rightarrow>
                  (deal_get_transaction S rpc_num workers (round_events replies sched), ws'))
         | Task_GetSlot commitment_config \<Rightarrow>
             (case run_workers (client_worker_do_get_slot R commitment_config) ws of
                (replies, ws') \<Rightarrow> (deal_get_slot rpc_num workers (round_events replies sched), ws'))
         | Task_GetAccountInfo key config \<Rightarrow>
             (case run_workers (client_worker_do_get_account R config key) ws of
                (replies, ws') \<Rightarrow>
                  (deal_get_account_info S rpc_num workers (round_events replies sched), ws'))
         | Task_GetSignaturesForAddress key config \<Rightarrow>
             (case run_workers (client_worker_do_get_signatures_for_address R config key) ws of
                (replies, ws') \<Rightarrow>
                  (deal_get_signatures_for_address S (order_senders H) rpc_num workers
                     (round_events replies sched), ws'))
         | Task_GetProgramAccounts key config \<Rightarrow>
             (case run_workers (client_worker_do_get_program_accounts R config key) ws of
                (replies, ws') \<Rightarrow>
                  (deal_get_program_accounts S (order_counts H) rpc_num workers
                     (round_events replies sched), ws')))"

end
