(* ===== verification/Sol_Query.thy ===== *)
theory Sol_Query
  imports Sol_Dispatch
begin

text \<open>
  \<open>chains/sol.rs\<close>, the client's queries and its start. A query first asks the judge, then hands
  a task to the dispatcher and compares the response with the judge's answer. Its result is
  \<open>None\<close> as long as the dispatcher waits. A dispatcher that panics drops the response channel,
  which the query reads as "not found"; that it then answers no later query is the state \<open>Stopped\<close> of
  \<open>Sol_Async\<close>.
\<close>

subsection \<open>Queries\<close>

text \<open>The environment of a query: libraries, hash map orders and the round's schedule.\<close>

record ('w, 'c, 'tx, 'acc, 'sg) sol_env =
  env_rpc :: "('w, 'c, 'tx, 'acc, 'sg) sol_rpc_api"
  env_json :: "('tx, 'acc, 'sg) sol_json"
  env_order :: "'sg hash_order"
  env_schedule :: schedule

definition ask_judge ::
    "('w, 'a) rpc_call \<Rightarrow> 'w sol_client \<Rightarrow> (sol_error, 'a) res \<times> 'w sol_client" where
  "ask_judge call client =
     (case call (sol_judge_rpc client) of
        (Inl err, w') \<Rightarrow> (Inl (Err (Custom (Rpc_Error (re_debug err)))), client\<lparr>sol_judge_rpc := w'\<rparr>)
      | (Inr a, w') \<Rightarrow> (Inr a, client\<lparr>sol_judge_rpc := w'\<rparr>))"

text \<open>\<open>response_receiver.recv()\<close>: the response, or None from a dropped channel.\<close>

definition ask_dispatcher ::
    "('w, 'c, 'tx, 'acc, 'sg) sol_env \<Rightarrow> 'c task_event \<Rightarrow> 'w sol_client
      \<Rightarrow> ('tx, 'acc, 'sg) response_event option option \<times> 'w sol_client" where
  "ask_dispatcher V task client =
     (case dispatch (env_rpc V) (env_json V) (env_order V) (env_schedule V) task (sol_extra_rpc client) of
        (r, ws) \<Rightarrow>
          (map_option (\<lambda>r. case r of Inr event \<Rightarrow> Some event | Inl _ \<Rightarrow> None) r,
           client\<lparr>sol_extra_rpc := ws\<rparr>))"

definition get_transaction ::
    "('w, 'c, 'tx, 'acc, 'sg) sol_env \<Rightarrow> signature \<Rightarrow> 'c option \<Rightarrow> 'w sol_client
      \<Rightarrow> (sol_error, 'tx) res option \<times> 'w sol_client" where
  "get_transaction V sig tx_config client =
     (case ask_judge
         (case tx_config of
            None \<Rightarrow> rpc_get_transaction (env_rpc V) sig
          | Some config \<Rightarrow> rpc_get_transaction_with_config (env_rpc V) sig config) client of
        (Inl f, client) \<Rightarrow> (Some (Inl f), client)
      | (Inr judge_tx, client) \<Rightarrow>
          (case ask_dispatcher V (Task_GetTransaction sig tx_config) client of
             (extra_res, client) \<Rightarrow>
               (map_option (\<lambda>extra_res. case extra_res of
                    Some (Resp_GetTransaction (Inr tx)) \<Rightarrow>
                      if tx = judge_tx then Inr tx else Inl (Err (Custom Not_Same))
                  | Some (Resp_GetTransaction (Inl err)) \<Rightarrow> Inl (Err err)
                  | Some _ \<Rightarrow> Inl (Panic ''get_transaction: unreachable'')
                  | None \<Rightarrow> Inl (Err (Custom Not_Found))) extra_res, client)))"

definition get_slot ::
    "('w, 'c, 'tx, 'acc, 'sg) sol_env \<Rightarrow> 'c option \<Rightarrow> 'w sol_client
      \<Rightarrow> (sol_error, u64) res option \<times> 'w sol_client" where
  "get_slot V commitment_config client =
     (case ask_judge
         (case commitment_config of
            None \<Rightarrow> rpc_get_slot (env_rpc V)
          | Some config \<Rightarrow> rpc_get_slot_with_commitment (env_rpc V) config) client of
        (Inl f, client) \<Rightarrow> (Some (Inl f), client)
      | (Inr judge_slot, client) \<Rightarrow>
          (case ask_dispatcher V (Task_GetSlot commitment_config) client of
             (extra_res, client) \<Rightarrow>
               (map_option (\<lambda>extra_res. case extra_res of
                    Some (Resp_GetSlot (Inr slot)) \<Rightarrow>
                      if judge_slot \<le> slot then Inr judge_slot
                      else Inl (Err (Custom (Slot_Not_Same slot judge_slot)))
                  | Some (Resp_GetSlot (Inl err)) \<Rightarrow> Inl (Err err)
                  | Some _ \<Rightarrow> Inl (Panic ''get_slot: unreachable'')
                  | None \<Rightarrow> Inl (Err (Custom Not_Found))) extra_res, client)))"

text \<open>Unlike the workers, the judge's query treats a missing account as an error.\<close>

definition judge_account_call ::
    "('w, 'c, 'tx, 'acc, 'sg) sol_rpc_api \<Rightarrow> 'c option \<Rightarrow> pubkey \<Rightarrow> ('w, 'acc option) rpc_call" where
  "judge_account_call R config key w =
     (case config of
        None \<Rightarrow> (case rpc_get_account R key w of (r, w') \<Rightarrow> (map_sum id Some r, w'))
      | Some config \<Rightarrow> rpc_get_account_with_config R key config w)"

definition get_account_info ::
    "('w, 'c, 'tx, 'acc, 'sg) sol_env \<Rightarrow> pubkey \<Rightarrow> 'c option \<Rightarrow> 'w sol_client
      \<Rightarrow> (sol_error, 'acc option) res option \<times> 'w sol_client" where
  "get_account_info V key config client =
     (case ask_judge (judge_account_call (env_rpc V) config key) client of
        (Inl f, client) \<Rightarrow> (Some (Inl f), client)
      | (Inr judge_account, client) \<Rightarrow>
          (case ask_dispatcher V (Task_GetAccountInfo key config) client of
             (extra_res, client) \<Rightarrow>
               (map_option (\<lambda>extra_res. case extra_res of
                    Some (Resp_GetAccountInfo (Inr account)) \<Rightarrow>
                      if account = judge_account then Inr account else Inl (Err (Custom Not_Same))
                  | Some (Resp_GetAccountInfo (Inl err)) \<Rightarrow> Inl (Err err)
                  | Some _ \<Rightarrow> Inl (Panic ''get_account_info: unreachable'')
                  | None \<Rightarrow> Inl (Err (Custom Not_Found))) extra_res, client)))"

text \<open>The options sent to the extra endpoints: the judge's, from before the judge's first entry.\<close>

definition config_before :: "signature \<Rightarrow> 'c sig_config option \<Rightarrow> 'c sig_config" where
  "config_before b config =
     (case config of
        None \<Rightarrow> \<lparr>sc_before = Some b, sc_until = None, sc_limit = None, sc_commitment = None\<rparr>
      | Some c \<Rightarrow> c\<lparr>sc_before := Some b\<rparr>)"

definition merge_signatures ::
    "('tx, 'acc, 'sg) sol_json \<Rightarrow> 'sg \<Rightarrow> 'sg list \<Rightarrow> 'sg list \<Rightarrow> (sol_error, 'sg list) res" where
  "merge_signatures S first_member judge_signatures sigs =
     (let check_map = tally (map (sig_to_string S) judge_signatures @ map (sig_to_string S) sigs)
      in bind_res
           (unwrap_all ''get_signatures_for_address: from_str''
              (map (sig_from_str S) (keys_with_count 2 check_map)))
           (\<lambda>res. Inr (first_member # res)))"

definition get_signatures_for_address ::
    "('w, 'c, 'tx, 'acc, 'sg) sol_env \<Rightarrow> pubkey \<Rightarrow> 'c sig_config option \<Rightarrow> 'w sol_client
      \<Rightarrow> (sol_error, 'sg list) res option \<times> 'w sol_client" where
  "get_signatures_for_address V key config client =
     (case ask_judge
         (case config of
            None \<Rightarrow> rpc_get_signatures (env_rpc V) key
          | Some config \<Rightarrow> rpc_get_signatures_with_config (env_rpc V) key config) client of
        (Inl f, client) \<Rightarrow> (Some (Inl f), client)
      | (Inr [], client) \<Rightarrow> (Some (Inr []), client)
      | (Inr (first # judge_signatures), client) \<Rightarrow>
          (case signature_from_str (env_json V) (sig_text (env_json V) first) of
             Inl _ \<Rightarrow> (Some (Inl (Panic ''get_signatures_for_address: from_str'')), client)
           | Inr before_signature \<Rightarrow>
               (case ask_dispatcher V
                   (Task_GetSignaturesForAddress key (Some (config_before before_signature config))) client of
                  (extra_res, client) \<Rightarrow>
                    (map_option (\<lambda>extra_res. case extra_res of
                         Some (Resp_GetSignaturesForAddress (Inr sigs)) \<Rightarrow>
                           merge_signatures (env_json V) first judge_signatures sigs
                       | Some (Resp_GetSignaturesForAddress (Inl err)) \<Rightarrow> Inl (Err err)
                       | Some _ \<Rightarrow> Inl (Panic ''get_signatures_for_address: unreachable'')
                       | None \<Rightarrow> Inl (Err (Custom Not_Found))) extra_res, client))))"

definition merge_program_accounts ::
    "('tx, 'acc, 'sg) sol_json \<Rightarrow> ((string \<times> nat) list \<Rightarrow> (string \<times> nat) list)
      \<Rightarrow> (pubkey \<times> 'acc) list \<Rightarrow> (pubkey \<times> 'acc) list \<Rightarrow> (sol_error, (pubkey \<times> 'acc) list) res" where
  "merge_program_accounts S it judge_program_accounts accounts =
     (let count = tally (map (pacc_to_string S) judge_program_accounts @ map (pacc_to_string S) accounts)
      in unwrap_all ''get_program_accounts: from_str''
           (map (pacc_from_str S) (keys_with_count 2 (it count))))"

definition get_program_accounts ::
    "('w, 'c, 'tx, 'acc, 'sg) sol_env \<Rightarrow> pubkey \<Rightarrow> 'c option \<Rightarrow> 'w sol_client
      \<Rightarrow> (sol_error, (pubkey \<times> 'acc) list) res option \<times> 'w sol_client" where
  "get_program_accounts V key config client =
     (case ask_judge
         (case config of
            None \<Rightarrow> rpc_get_program_accounts (env_rpc V) key
          | Some config \<Rightarrow> rpc_get_program_accounts_with_config (env_rpc V) key config) client of
        (Inl f, client) \<Rightarrow> (Some (Inl f), client)
      | (Inr judge_program_accounts, client) \<Rightarrow>
          (case ask_dispatcher V (Task_GetProgramAccounts key config) client of
             (extra_res, client) \<Rightarrow>
               (map_option (\<lambda>extra_res. case extra_res of
                    Some (Resp_GetProgramAccounts (Inr accounts)) \<Rightarrow>
                      merge_program_accounts (env_json V) (order_counts (env_order V))
                        judge_program_accounts accounts
                  | Some (Resp_GetProgramAccounts (Inl err)) \<Rightarrow> Inl (Err err)
                  | Some _ \<Rightarrow> Inl (Panic ''get_program_accounts: unreachable'')
                  | None \<Rightarrow> Inl (Err (Custom Not_Found))) extra_res, client)))"

subsection \<open>Start\<close>

datatype sol_init_error = Too_Few_Urls | Even_Urls | Not_All_Available

text \<open>All clients are asked for their health, also after one that is not available.\<close>

fun is_all_client_available :: "('w, 'c, 'tx, 'acc, 'sg) sol_rpc_api \<Rightarrow> 'w list \<Rightarrow> bool \<times> 'w list" where
  "is_all_client_available R [] = (True, [])"
| "is_all_client_available R (w # ws) =
     (case rpc_get_health R w of
        (r, w') \<Rightarrow>
          (case is_all_client_available R ws of
             (all_available, ws') \<Rightarrow> ((case r of Inl _ \<Rightarrow> False | Inr _ \<Rightarrow> all_available), w' # ws')))"

text \<open>
  \<open>it\<close> is the iteration order of the set of distinct URLs, \<open>single_rpc\<close> says whether the
  environment variable \<open>ENABLE_SINGLE_SOL_RPC\<close> is set.
\<close>

definition initialize_sol_client ::
    "('w, 'c, 'tx, 'acc, 'sg) sol_rpc_api \<Rightarrow> (string list \<Rightarrow> string list) \<Rightarrow> bool \<Rightarrow> service
      \<Rightarrow> string \<Rightarrow> string \<Rightarrow> sol_init_error + 'w sol_client option" where
  "initialize_sol_client R it single_rpc service judge_url extra_urls =
     (let sol_extra_rpcs = split_char (CHR '','') extra_urls
      in if sv_sol service then
           (let unique_urls = it (remdups sol_extra_rpcs)
            in if \<not> single_rpc \<and> length unique_urls < 3 then Inl Too_Few_Urls
               else if \<not> single_rpc \<and> length unique_urls mod 2 = 0 then Inl Even_Urls
               else
                 (let clients = map (rpc_new R) unique_urls @ [rpc_new R judge_url]
                  in case is_all_client_available R clients of
                       (False, _) \<Rightarrow> Inl Not_All_Available
                     | (True, clients) \<Rightarrow>
                         Inr (Some \<lparr>sol_extra_rpc = butlast clients, sol_judge_rpc = last clients\<rparr>)))
         else Inr None)"

end
