(* ===== verification/Sol_Facts.thy ===== *)
theory Sol_Facts
  imports Sol_Query "HOL-Library.Multiset"
begin

text \<open>
  Lemmas on the Solana client: what a tally counts and which keys it selects, what the most
  frequent answer is, and which answers a finished, failed or waiting round has collected.
\<close>

subsection \<open>Tallies\<close>

lemma map_of_count_entry:
  "map_of (count_entry x c) = (map_of c)(x \<mapsto> (case map_of c x of Some n \<Rightarrow> n + 1 | None \<Rightarrow> 1))"
  by (simp add: count_entry_def update_conv')

lemma keys_count_entry:
  "map fst (count_entry x c) = (if x \<in> fst ` set c then map fst c else map fst c @ [x])"
  by (simp add: count_entry_def update_keys)

lemma tally_snoc: "tally (xs @ [x]) = count_entry x (tally xs)"
  by (simp add: tally_def)

lemma map_of_tally: "map_of (tally xs) x = (if x \<in> set xs then Some (count_list xs x) else None)"
proof (induction xs arbitrary: x rule: rev_induct)
  case (snoc y xs)
  then show ?case by (auto simp: tally_snoc map_of_count_entry)
qed (simp add: tally_def)

lemma keys_tally: "set (map fst (tally xs)) = set xs \<and> distinct (map fst (tally xs))"
proof (induction xs rule: rev_induct)
  case (snoc y xs)
  then show ?case by (auto simp: tally_snoc keys_count_entry)
qed (simp add: tally_def)

lemma set_tally: "(k, n) \<in> set (tally xs) \<longleftrightarrow> k \<in> set xs \<and> n = count_list xs k"
  using map_of_eq_Some_iff[of "tally xs" k n] keys_tally[of xs]
  by (auto simp: map_of_tally split: if_splits)

lemma mset_tally_cong: "mset xs = mset ys \<Longrightarrow> mset (tally xs) = mset (tally ys)"
proof -
  assume a: "mset xs = mset ys"
  then have "set xs = set ys" "\<And>k. count_list xs k = count_list ys k"
    by (auto dest: mset_eq_setD simp flip: count_mset)
  then have "set (tally xs) = set (tally ys)" by (auto simp: set_tally)
  then show ?thesis
    using keys_tally[of xs] keys_tally[of ys]
    by (simp add: distinct_map set_eq_iff_mset_eq_distinct)
qed

text \<open>The keys of a tally are in the order of their first occurrence.\<close>

lemma keys_tally_append:
  "map fst (tally (xs @ ys)) = map fst (tally xs) @ filter (\<lambda>y. y \<notin> set xs) (map fst (tally ys))"
proof (induction ys rule: rev_induct)
  case (snoc y ys)
  have "map fst (tally (xs @ ys @ [y])) = map fst (count_entry y (tally (xs @ ys)))"
    using tally_snoc[of "xs @ ys" y] by simp
  moreover have "fst ` set (tally (xs @ ys)) = set xs \<union> set ys" "fst ` set (tally ys) = set ys"
    using keys_tally[of "xs @ ys"] keys_tally[of ys] by auto
  ultimately show ?case by (auto simp: keys_count_entry tally_snoc snoc)
qed (simp add: tally_def)

lemma keys_tally_distinct: "distinct xs \<Longrightarrow> map fst (tally xs) = xs"
proof (induction xs rule: rev_induct)
  case (snoc y xs)
  moreover have "fst ` set (tally xs) = set xs" using keys_tally[of xs] by simp
  ultimately show ?case by (simp add: tally_snoc keys_count_entry)
qed (simp add: tally_def)

lemma keys_with_count_tally:
  "keys_with_count n (tally xs) = filter (\<lambda>x. count_list xs x = n) (map fst (tally xs))"
proof -
  have "filter (\<lambda>(_, v). v = n) (tally xs) = filter ((\<lambda>x. count_list xs x = n) \<circ> fst) (tally xs)"
    by (rule filter_cong) (auto simp: set_tally)
  then show ?thesis by (simp add: keys_with_count_def filter_map)
qed

lemma set_keys_with_count_perm:
  "mset (it c) = mset c \<Longrightarrow> set (keys_with_count n (it c)) = set (keys_with_count n c)"
  by (auto simp: keys_with_count_def dest: mset_eq_setD)

lemma set_keys_with_count:
  "0 < n \<Longrightarrow> set (keys_with_count n (tally xs)) = {x. count_list xs x = n}"
  using keys_tally[of xs] count_notin[of _ xs] by (fastforce simp: keys_with_count_tally)

subsection \<open>The most frequent answer\<close>

lemma max_by_count_None: "max_by_count c = None \<longleftrightarrow> c = []"
  by (cases c) (auto split: option.splits)

lemma max_by_count_Some:
  "max_by_count c = Some x \<Longrightarrow> x \<in> set c \<and> (\<forall>y \<in> set c. snd y \<le> snd x)"
proof (induction c arbitrary: x)
  case (Cons y c)
  then show ?case
    by (cases "max_by_count c")
      (fastforce simp: max_by_count_None split: if_splits)+
qed simp

lemma fold_max_eq:
  "v \<in> set ns \<Longrightarrow> \<forall>n \<in> set ns. n \<le> v \<Longrightarrow> fold max ns (0::nat) = v"
  by (subst Max.set_eq_fold[symmetric]) (auto intro: Max_eqI)

text \<open>\<open>p\<close> occurs among the answers more often than any other one.\<close>

definition plurality :: "'a list \<Rightarrow> 'a \<Rightarrow> bool" where
  "plurality xs p \<longleftrightarrow> p \<in> set xs \<and> (\<forall>y \<in> set xs. y \<noteq> p \<longrightarrow> count_list xs y < count_list xs p)"

lemma plurality_cong: "mset xs = mset ys \<Longrightarrow> plurality xs p \<longleftrightarrow> plurality ys p"
proof -
  assume a: "mset xs = mset ys"
  then have "set xs = set ys" "\<And>k. count_list xs k = count_list ys k"
    by (auto dest: mset_eq_setD simp flip: count_mset)
  then show ?thesis by (simp add: plurality_def)
qed

lemma filter_singleton:
  assumes "distinct xs"
  shows "length (filter P xs) \<le> 1 \<longleftrightarrow> (\<forall>x \<in> set xs. \<forall>y \<in> set xs. P x \<longrightarrow> P y \<longrightarrow> x = y)"
proof -
  have "length (filter P xs) = card {x \<in> set xs. P x}"
    using distinct_card[of "filter P xs"] assms by simp
  then show ?thesis by (auto simp: card_le_Suc0_iff_eq)
qed

text \<open>A count is the greatest one and the only one of its size.\<close>

lemma most_frequent_iff:
  assumes "distinct c"
  shows "most_frequent c = Inr p \<longleftrightarrow> (\<exists>n. (p, n) \<in> set c \<and> (\<forall>e \<in> set c. e \<noteq> (p, n) \<longrightarrow> snd e < n))"
proof
  let ?m = "fold max (map snd c) 0"
  {
    assume "most_frequent c = Inr p"
    then obtain n where pn: "max_by_count c = Some (p, n)"
      and one: "length (filter (\<lambda>e. snd e = ?m) c) \<le> 1"
      by (auto simp: most_frequent_def Let_def ok_or_Inr_iff o_def split: if_splits)
    from max_by_count_Some[OF pn] have p: "(p, n) \<in> set c" "\<forall>e \<in> set c. snd e \<le> n" by auto
    then have "?m = n" by (intro fold_max_eq) force+
    with one p assms have "\<forall>e \<in> set c. snd e = n \<longrightarrow> e = (p, n)"
      unfolding filter_singleton[OF assms] by force
    with p show "\<exists>n. (p, n) \<in> set c \<and> (\<forall>e \<in> set c. e \<noteq> (p, n) \<longrightarrow> snd e < n)"
      by (meson le_neq_implies_less)
  }
  assume "\<exists>n. (p, n) \<in> set c \<and> (\<forall>e \<in> set c. e \<noteq> (p, n) \<longrightarrow> snd e < n)"
  then obtain n where p: "(p, n) \<in> set c" "\<And>e. e \<in> set c \<Longrightarrow> e = (p, n) \<or> snd e < n" by blast
  then have m: "?m = n" by (intro fold_max_eq) force+
  have one: "length (filter (\<lambda>e. snd e = ?m) c) \<le> 1"
    unfolding filter_singleton[OF assms] m using p(2) by (metis less_irrefl)
  obtain e where e: "max_by_count c = Some e" using p(1) max_by_count_None[of c] by fastforce
  with max_by_count_Some[OF e] p have "e = (p, n)" by fastforce
  with e one show "most_frequent c = Inr p"
    by (simp add: most_frequent_def Let_def o_def)
qed

lemma most_frequent_Inr: "most_frequent (tally xs) = Inr p \<longleftrightarrow> plurality xs p"
proof -
  have "distinct (tally xs)" using keys_tally[of xs] by (simp add: distinct_map)
  then show ?thesis
    by (auto simp: most_frequent_iff plurality_def set_tally)
qed

text \<open>The outcome depends on the counts only, not on the order of their iteration.\<close>

lemma fold_max_cong: "mset a = mset b \<Longrightarrow> fold max a (0::nat) = fold max b 0"
  by (metis Max.set_eq_fold list.set(2) mset_eq_setD)

lemma most_frequent_cong:
  assumes "mset c = mset c'" "distinct c" "distinct c'"
  shows "most_frequent c = (most_frequent c' :: (sol_error, 'k) res)"
proof (cases "\<exists>p. most_frequent c = (Inr p :: (sol_error, 'k) res)")
  case True
  then obtain p where p: "most_frequent c = (Inr p :: (sol_error, 'k) res)" by blast
  with assms have "most_frequent c' = (Inr p :: (sol_error, 'k) res)"
    by (simp add: most_frequent_iff) (metis mset_eq_setD)
  with p show ?thesis by simp
next
  case False
  with assms have False': "\<nexists>p. most_frequent c' = (Inr p :: (sol_error, 'k) res)"
    by (simp add: most_frequent_iff) (metis mset_eq_setD)
  have m: "mset (map snd c) = mset (map snd c')" using assms(1) by simp
  have l: "length (filter P (map snd c)) = length (filter P (map snd c'))" for P
    using m by (metis mset_filter size_mset)
  have "c = [] \<longleftrightarrow> c' = []" using assms(1) by auto
  with False False' show ?thesis
    unfolding most_frequent_def Let_def l fold_max_cong[OF m]
    by (cases "max_by_count c"; cases "max_by_count c'")
      (auto simp: max_by_count_None split: if_splits)
qed

lemma most_frequent_mset:
  "mset xs = mset ys \<Longrightarrow> most_frequent (tally xs) = most_frequent (tally ys)"
  using keys_tally[of xs] keys_tally[of ys]
  by (intro most_frequent_cong mset_tally_cong) (simp_all add: distinct_map)

subsection \<open>What a round has collected\<close>

text \<open>The answers among the events of a round.\<close>

definition answers :: "'a inner_event list \<Rightarrow> ('a \<times> string) set" where
  "answers es = {(a, from). \<exists>t. Message t (Inr a) from \<in> set es}"

lemma answers_simps [simp]:
  "answers [] = {}" "answers (Elapsed # es) = answers es"
  "answers (Message t (Inr a) from # es) = insert (a, from) (answers es)"
  "answers (Message t (Inl e) from # es) = answers es"
  by (auto simp: answers_def)

text \<open>A loop that still waits has met no error.\<close>

lemma collect_None_ok:
  "collect n ins decide rs es = None \<Longrightarrow> Message t m url \<in> set es \<Longrightarrow> \<exists>a. m = Inr a"
proof (induction es arbitrary: rs)
  case (Cons ev es)
  then show ?case
    by (cases "(n, ins, decide, rs, ev # es)" rule: collect.cases)
      (auto simp: Let_def split: if_splits)
qed simp

text \<open>A loop that still waits has met no message after a minute.\<close>

lemma collect_None_time:
  "collect n ins decide rs es = None \<Longrightarrow> Message t m url \<in> set es \<Longrightarrow> t < 60"
proof (induction es arbitrary: rs)
  case (Cons ev es)
  then show ?case
    by (cases "(n, ins, decide, rs, ev # es)" rule: collect.cases)
      (auto simp: Let_def split: if_splits)
qed simp

text \<open>A schedule names workers only, all its messages come within a minute, and whom it names.\<close>

definition sched_ok :: "schedule \<Rightarrow> nat \<Rightarrow> bool" where
  "sched_ok sched n \<longleftrightarrow> (\<forall>t i. Some (t, i) \<in> set sched \<longrightarrow> i < n)"

definition in_time :: "schedule \<Rightarrow> bool" where
  "in_time sched \<longleftrightarrow> (\<forall>t i. Some (t, i) \<in> set sched \<longrightarrow> t < 60)"

lemma sched_okD: "sched_ok sched n \<Longrightarrow> Some (t, i) \<in> set sched \<Longrightarrow> i < n"
  and in_timeD: "in_time sched \<Longrightarrow> Some (t, i) \<in> set sched \<Longrightarrow> t < 60"
  unfolding sched_ok_def in_time_def by blast+

lemma round_message:
  "Message t m url \<in> set (round_events replies sched) \<Longrightarrow>
   \<exists>i. Some (t, i) \<in> set sched \<and> m = fst (replies ! i) \<and> url = snd (replies ! i)"
  by (auto simp: round_events_def split: option.splits)

definition heard :: "schedule \<Rightarrow> nat set" where
  "heard sched = {i. \<exists>t. Some (t, i) \<in> set sched}"

text \<open>
  The two kinds of collections of a round, abstractly: inserting an answer for an endpoint
  adds it; with one answer per endpoint the size is the number of endpoints heard.
\<close>

locale round_collection =
  fixes ins :: "'a \<Rightarrow> string \<Rightarrow> 'r list \<Rightarrow> 'r list"
    and entry :: "'a \<Rightarrow> string \<Rightarrow> 'r"
    and url_of :: "'r \<Rightarrow> string"
    and good :: "'r list \<Rightarrow> bool"
  assumes good_Nil: "good []"
    and good_distinct: "good rs \<Longrightarrow> distinct rs"
    and good_ins: "good rs \<Longrightarrow> good (ins a url rs)"
    and url_of_entry: "url_of (entry a url) = url"
    and set_ins: "good rs \<Longrightarrow> set (ins a url rs) \<subseteq> insert (entry a url) (set rs)"
    and set_ins_fresh: "good rs \<Longrightarrow> (\<forall>r \<in> set rs. url_of r = url \<longrightarrow> r = entry a url) \<Longrightarrow>
      set (ins a url rs) = insert (entry a url) (set rs)"
begin

lemma decided:
  "collect n ins decide rs es = Some (Decided d) \<Longrightarrow> good rs \<Longrightarrow>
   \<exists>rs'. d = decide rs' \<and> length rs' = n \<and> good rs' \<and>
     set rs' \<subseteq> set rs \<union> (\<lambda>(a, url). entry a url) ` answers es"
proof (induction es arbitrary: rs)
  case (Cons ev es)
  show ?case
  proof (cases "(n, ins, decide, rs, ev # es)" rule: collect.cases)
    case (4 n' ins' decide' rs' t a url es')
    then have ev: "ev = Message t (Inr a) url" by simp
    have s: "set (ins a url rs) \<subseteq> insert (entry a url) (set rs)"
      using Cons.prems(2) by (rule set_ins)
    show ?thesis
    proof (cases "length (ins a url rs) = n")
      case True
      with Cons.prems ev s good_ins show ?thesis by auto
    next
      case False
      with Cons.prems ev have "collect n ins decide (ins a url rs) es = Some (Decided d)"
        by (simp add: Let_def split: if_splits)
      from Cons.IH[OF this good_ins[OF Cons.prems(2)]] s show ?thesis
        unfolding ev by (simp, blast)
    qed
  qed (use Cons in auto)
qed simp

lemma failed:
  "collect n ins decide rs es = Some (Worker_Failed url e) \<Longrightarrow> \<exists>t. Message t (Inl e) url \<in> set es"
proof (induction es arbitrary: rs)
  case (Cons ev es)
  then show ?case
    by (cases "(n, ins, decide, rs, ev # es)" rule: collect.cases)
      (auto simp: Let_def split: if_splits)
qed simp

lemma cancelled:
  "collect n ins decide rs es = Some Cancelled_Round \<Longrightarrow> \<exists>t m url. 60 \<le> t \<and> Message t m url \<in> set es"
proof (induction es arbitrary: rs)
  case (Cons ev es)
  have "(\<exists>t m url. 60 \<le> t \<and> ev = Message t m url) \<or>
      (\<exists>rs'. collect n ins decide rs' es = Some Cancelled_Round)"
    using Cons.prems
    by (cases "(n, ins, decide, rs, ev # es)" rule: collect.cases) (auto simp: Let_def split: if_splits)
  with Cons.IH show ?case by (metis list.set_intros)
qed simp

text \<open>A round that still waits has heard from fewer endpoints than it waits for.\<close>

lemma waiting:
  assumes "collect n ins decide rs es = None" "good rs" "length rs \<noteq> n"
    and "\<And>t m url. Message t m url \<in> set es \<Longrightarrow> t < 60 \<and> m = Inr (A url)"
    and "set rs \<subseteq> range (\<lambda>url. entry (A url) url)"
  shows "card (set rs \<union> (\<lambda>(a, url). entry a url) ` answers es) \<noteq> n"
  using assms
proof (induction es arbitrary: rs)
  case Nil
  with good_distinct[of rs] distinct_card[of rs] show ?case by auto
next
  case (Cons ev es)
  show ?case
  proof (cases "(n, ins, decide, rs, ev # es)" rule: collect.cases)
    case (2 n' ins' decide' rs' es')
    with Cons show ?thesis by auto
  next
    case (3 n' ins' decide' rs' t e url es')
    with Cons.prems(1) show ?thesis by auto
  next
    case (4 n' ins' decide' rs' t a url es')
    then have ev: "ev = Message t (Inr a) url" by simp
    with Cons.prems(4)[of t "Inr a" url] have a: "a = A url" "t < 60" by auto
    let ?rs = "ins a url rs"
    have s: "set ?rs = insert (entry a url) (set rs)"
      using Cons.prems(2,5) by (intro set_ins_fresh) (auto simp: a url_of_entry)
    from Cons.prems(1) ev a have c: "collect n ins decide ?rs es = None" "length ?rs \<noteq> n"
      by (auto simp: Let_def split: if_splits)
    have "card (set ?rs \<union> (\<lambda>(a, url). entry a url) ` answers es) \<noteq> n"
      using Cons.prems(4,5) s a by (intro Cons.IH c good_ins Cons.prems(2)) auto
    then show ?thesis by (simp add: s ev)
  qed auto
qed

lemma answers_round:
  assumes "sched_ok sched (length replies)"
  shows "answers (round_events replies sched) \<subseteq> {(a, url). \<exists>i < length replies. replies ! i = (Inr a, url)}"
  using assms by (force simp: answers_def round_events_def sched_ok_def split: option.splits prod.splits)

lemma round_decided:
  assumes "collect n ins decide [] (round_events replies sched) = Some (Decided d)"
    and "sched_ok sched n" "length replies = n" "distinct (map snd replies)"
  obtains as rs where "length as = n" "\<forall>i < n. fst (replies ! i) = Inr (as ! i)" "d = decide rs"
    "mset rs = mset (map2 entry as (map snd replies))"
proof -
  let ?e = "\<lambda>i. entry (projr (fst (replies ! i))) (snd (replies ! i))"
  let ?I = "{i. i < n \<and> (\<exists>a. fst (replies ! i) = Inr a)}"
  obtain rs where rs: "d = decide rs" "length rs = n" "good rs"
      "set rs \<subseteq> (\<lambda>(a, url). entry a url) ` answers (round_events replies sched)"
    using decided[OF assms(1) good_Nil] by auto
  have sub: "set rs \<subseteq> ?e ` ?I"
  proof
    fix r assume "r \<in> set rs"
    with rs(4) obtain a url where r: "r = entry a url" "(a, url) \<in> answers (round_events replies sched)"
      by auto
    with answers_round[of sched replies] assms(2,3)
    obtain i where "i < n" "replies ! i = (Inr a, url)" by auto
    with r(1) have "r = entry a url" "i < n" "replies ! i = (Inr a, url)" by auto
    then show "r \<in> ?e ` ?I" by (intro image_eqI[of _ _ i]) auto
  qed
  have "n = card (set rs)" using good_distinct[OF rs(3)] rs(2) by (simp add: distinct_card)
  also have "\<dots> \<le> card (?e ` ?I)" using sub by (intro card_mono) auto
  also have "\<dots> \<le> card ?I" by (intro card_image_le) auto
  finally have "card {..<n} \<le> card ?I" by simp
  then have I: "?I = {..<n}" by (intro card_seteq) auto
  let ?as = "map (projr \<circ> fst) replies"
  let ?es = "map2 entry ?as (map snd replies)"
  have all: "\<forall>i < n. fst (replies ! i) = Inr (?as ! i)"
  proof (intro allI impI)
    fix i assume i: "i < n"
    with I have "i \<in> ?I" by blast
    with i assms(3) show "fst (replies ! i) = Inr (?as ! i)" by auto
  qed
  have "map url_of ?es = map snd replies"
    by (rule nth_equalityI) (simp_all add: url_of_entry)
  with assms(4) have dist: "distinct ?es" by (metis distinct_map)
  have "?e ` ?I \<subseteq> set ?es"
    using assms(3) by (force simp: set_conv_nth)
  with sub have "set rs \<subseteq> set ?es" by blast
  moreover have "card (set ?es) = n" using dist assms(3) by (simp only: distinct_card) simp
  ultimately have "set rs = set ?es"
    using good_distinct[OF rs(3)] rs(2) by (intro card_subset_eq) (auto simp: distinct_card)
  with dist good_distinct[OF rs(3)] have "mset rs = mset ?es"
    using set_eq_iff_mset_eq_distinct by blast
  with all rs(1) assms(3) show ?thesis by (intro that[of ?as rs]) auto
qed

lemma round_not_waiting:
  assumes "collect n ins decide [] (round_events replies sched) = None"
    and "sched_ok sched n" "in_time sched" "length replies = n" "distinct (map snd replies)" "0 < n"
    and "\<forall>i < n. \<exists>a. fst (replies ! i) = Inr a"
  obtains i where "i < n" "i \<notin> heard sched"
proof (rule ccontr)
  assume n: "\<not> thesis"
  with that have h: "\<forall>i < n. i \<in> heard sched" by blast
  define A where "A = (\<lambda>url. projr (the (map_of (zip (map snd replies) (map fst replies)) url)))"
  have r: "fst (replies ! i) = Inr (A (snd (replies ! i)))" if "i < n" for i
    using map_of_zip_nth[of "map snd replies" "map fst replies" i] assms(4,5,7) that
    by (auto simp: A_def)
  have ev: "t < 60 \<and> m = Inr (A url)" if "Message t m url \<in> set (round_events replies sched)" for t m url
    using round_message[OF that] assms(2,3) r by (metis in_timeD sched_okD)
  have "(\<lambda>(a, url). entry a url) ` answers (round_events replies sched) =
      (\<lambda>i. entry (A (snd (replies ! i))) (snd (replies ! i))) ` {..<n}" (is "?L = ?R")
  proof (intro equalityI subsetI)
    fix x assume "x \<in> ?L"
    then show "x \<in> ?R"
      using assms(2) r by (force simp: answers_def round_events_def sched_ok_def split: option.splits)
  next
    fix x assume "x \<in> ?R"
    then obtain i t where i: "i < n" "x = entry (A (snd (replies ! i))) (snd (replies ! i))"
        "Some (t, i) \<in> set sched"
      using h by (auto simp: heard_def)
    have "Message t (Inr (A (snd (replies ! i)))) (snd (replies ! i)) \<in> set (round_events replies sched)"
      using i(1,3) r by (force simp: round_events_def image_iff intro: bexI[of _ "Some (t, i)"])
    with i(2) show "x \<in> ?L" by (force simp: answers_def)
  qed
  moreover have "inj_on (\<lambda>i. entry (A (snd (replies ! i))) (snd (replies ! i))) {..<n}"
  proof (rule inj_onI)
    fix i j
    assume ij: "i \<in> {..<n}" "j \<in> {..<n}"
      "entry (A (snd (replies ! i))) (snd (replies ! i)) = entry (A (snd (replies ! j))) (snd (replies ! j))"
    then have "snd (replies ! i) = snd (replies ! j)" by (metis url_of_entry)
    with ij assms(4,5) show "i = j" by (auto simp: distinct_conv_nth)
  qed
  ultimately have "card ?L = n" by (simp add: card_image)
  moreover have "card (set [] \<union> ?L) \<noteq> n"
    using ev assms(6) by (intro waiting[OF assms(1) good_Nil, where A = A]) auto
  ultimately show False by simp
qed

text \<open>Everybody heard: the round is over, whatever the messages say and however late they are.\<close>

lemma round_heard_all:
  assumes "sched_ok sched n" "{..<n} \<subseteq> heard sched" "length replies = n" "distinct (map snd replies)" "0 < n"
  shows "collect n ins decide [] (round_events replies sched) \<noteq> None"
proof
  assume none: "collect n ins decide [] (round_events replies sched) = None"
  have ev: "Message t (fst (replies ! i)) (snd (replies ! i)) \<in> set (round_events replies sched)"
    if "Some (t, i) \<in> set sched" for t i
    using that by (force simp: round_events_def image_iff intro: bexI[of _ "Some (t, i)"])
  have "in_time sched" unfolding in_time_def using collect_None_time[OF none ev] by blast
  moreover have "\<forall>i < n. \<exists>a. fst (replies ! i) = Inr a"
    using assms(2) ev collect_None_ok[OF none] by (fastforce simp: heard_def)
  ultimately obtain i where "i < n" "i \<notin> heard sched"
    using round_not_waiting[OF none assms(1) _ assms(3-5)] by blast
  with assms(2) show False by blast
qed

text \<open>All answers in time and everybody heard: the round is decided, whatever the order.\<close>

lemma round_complete:
  assumes "sched_ok sched n" "in_time sched" "{..<n} \<subseteq> heard sched" "length replies = n"
    and "distinct (map snd replies)" "0 < n" "\<forall>i < n. fst (replies ! i) = Inr (as ! i)" "length as = n"
  obtains rs where "collect n ins decide [] (round_events replies sched) = Some (Decided (decide rs))"
    "mset rs = mset (map2 entry as (map snd replies))"
proof -
  let ?c = "collect n ins decide [] (round_events replies sched)"
  have ev: "t < 60 \<and> (\<exists>a. m = Inr a)" if "Message t m url \<in> set (round_events replies sched)" for t m url
    using round_message[OF that] assms(1,2,7) by (metis in_timeD sched_okD)
  have all: "\<forall>i < n. \<exists>a. fst (replies ! i) = Inr a" using assms(7) by auto
  have "?c \<noteq> None"
    using round_not_waiting[OF _ assms(1,2,4,5,6) all] assms(3) by blast
  moreover have "?c \<noteq> Some Cancelled_Round" using cancelled ev by fastforce
  moreover have "?c \<noteq> Some (Worker_Failed url e)" for url e using failed ev by fastforce
  ultimately obtain d where d: "?c = Some (Decided d)" by (metis not_None_eq round_end.exhaust)
  then obtain as' rs where "length as' = n" "\<forall>i < n. fst (replies ! i) = Inr (as' ! i)"
      "d = decide rs" "mset rs = mset (map2 entry as' (map snd replies))"
    using round_decided[OF _ assms(1,4,5)] by blast
  moreover from this assms(7,8) have "as' = as" by (simp add: list_eq_iff_nth_eq)
  ultimately show ?thesis using that d by blast
qed

lemma round_complete_ex:
  assumes "sched_ok sched n" "in_time sched" "{..<n} \<subseteq> heard sched" "length replies = n"
    and "distinct (map snd replies)" "0 < n" "\<forall>i < n. fst (replies ! i) = Inr (as ! i)" "length as = n"
  shows "\<exists>d. collect n ins decide [] (round_events replies sched) = Some (Decided d)"
  by (rule round_complete[OF assms, of decide]) blast

text \<open>The error of a worker that is heard in time ends the round.\<close>

lemma round_failed:
  assumes "sched_ok sched n" "in_time sched" "i \<in> heard sched" "length replies = n"
    and "distinct (map snd replies)" "\<And>a. fst (replies ! i) \<noteq> Inr a"
  shows "\<exists>url e. collect n ins decide [] (round_events replies sched) = Some (Worker_Failed url e)"
    (is "\<exists>url e. ?c = _")
proof -
  obtain t where t: "Some (t, i) \<in> set sched" using assms(3) by (auto simp: heard_def)
  with assms(1) have i: "i < n" by (rule sched_okD)
  from t have "Message t (fst (replies ! i)) (snd (replies ! i)) \<in> set (round_events replies sched)"
    by (force simp: round_events_def image_iff intro: bexI[of _ "Some (t, i)"])
  with assms(6) have "?c \<noteq> None" by (metis collect_None_ok)
  moreover have "?c \<noteq> Some Cancelled_Round"
    by (metis cancelled round_message assms(2) in_timeD not_less)
  moreover have "?c \<noteq> Some (Decided d)" for d
  proof
    assume "?c = Some (Decided d)"
    then obtain as where "\<forall>i < n. fst (replies ! i) = Inr (as ! i)"
      by (rule round_decided[OF _ assms(1,4,5)])
    with assms(6) i show False by blast
  qed
  ultimately show ?thesis by (metis not_None_eq round_end.exhaust)
qed

text \<open>All answers in time but somebody not heard: the round waits, however often it looks.\<close>

lemma round_stuck:
  assumes "sched_ok sched n" "in_time sched" "j < n" "j \<notin> heard sched" "length replies = n"
    and "distinct (map snd replies)" "\<forall>i < n. \<exists>a. fst (replies ! i) = Inr a"
  shows "collect n ins decide [] (round_events replies sched) = None"
proof (rule ccontr)
  let ?c = "collect n ins decide [] (round_events replies sched)"
  assume "?c \<noteq> None"
  have ev: "t < 60 \<and> (\<exists>a. m = Inr a)" if "Message t m url \<in> set (round_events replies sched)" for t m url
    using round_message[OF that] assms(1,2,7) by (metis in_timeD sched_okD)
  have "?c \<noteq> Some Cancelled_Round" using cancelled ev by fastforce
  moreover have "?c \<noteq> Some (Worker_Failed url e)" for url e using failed ev by fastforce
  ultimately obtain d where d: "?c = Some (Decided d)"
    using \<open>?c \<noteq> None\<close> by (metis not_None_eq round_end.exhaust)
  from decided[OF this good_Nil] obtain rs where rs: "length rs = n" "good rs"
      "set rs \<subseteq> (\<lambda>(a, url). entry a url) ` answers (round_events replies sched)" by auto
  let ?e = "\<lambda>i. entry (projr (fst (replies ! i))) (snd (replies ! i))"
  have "set rs \<subseteq> ?e ` ({..<n} - {j})"
  proof
    fix r assume "r \<in> set rs"
    with rs(3) obtain a url t where r: "r = entry a url"
        "Message t (Inr a) url \<in> set (round_events replies sched)"
      by (force simp: answers_def)
    from round_message[OF r(2)] obtain i where i: "Some (t, i) \<in> set sched" "Inr a = fst (replies ! i)"
        "url = snd (replies ! i)" by blast
    with assms(1,4) have "i \<in> {..<n} - {j}" by (auto simp: heard_def dest: sched_okD)
    moreover have "r = ?e i" using r(1) i(2,3) by (metis sum.sel(2))
    ultimately show "r \<in> ?e ` ({..<n} - {j})" by blast
  qed
  then have "card (set rs) \<le> card (?e ` ({..<n} - {j}))" by (intro card_mono) auto
  also have "\<dots> \<le> card ({..<n} - {j})" by (intro card_image_le) auto
  also have "\<dots> < n" using assms(3) by simp
  finally show False using good_distinct[OF rs(2)] rs(1) by (simp add: distinct_card)
qed

end

text \<open>A \<open>HashSet\<close> of answers with their senders, and a \<open>HashMap\<close> from senders to answers.\<close>

interpretation hset: round_collection "\<lambda>a url. List.insert (f a, url)" "\<lambda>a url. (f a, url)" snd distinct
  for f :: "'a \<Rightarrow> 'r"
  by unfold_locales auto

lemma set_update_fresh:
  "distinct (map fst rs) \<Longrightarrow> (\<forall>r \<in> set rs. fst r = k \<longrightarrow> r = (k, v)) \<Longrightarrow>
   set (AList.update k v rs) = insert (k, v) (set rs)"
  by (induction rs) (auto simp: image_iff)

lemma set_update_subset: "set (AList.update k v rs) \<subseteq> insert (k, v) (set rs)"
  by (induction rs) auto

interpretation hmap: round_collection "\<lambda>a url. AList.update url a" "\<lambda>a url. (url, a)" fst
    "\<lambda>rs. distinct (map fst rs)"
proof unfold_locales
  fix rs :: "(string \<times> 'a) list" and a url
  assume rs: "distinct (map fst rs)"
  then show "distinct rs" by (simp add: distinct_map)
  from rs show "distinct (map fst (AList.update url a rs))" by (rule distinct_update)
  show "set (AList.update url a rs) \<subseteq> insert (url, a) (set rs)" by (rule set_update_subset)
  assume "\<forall>r \<in> set rs. fst r = url \<longrightarrow> r = (url, a)"
  with rs show "set (AList.update url a rs) = insert (url, a) (set rs)" by (rule set_update_fresh)
qed simp_all

end
