(* ===== verification/Sol_Query_Facts.thy ===== *)
theory Sol_Query_Facts
  imports Sol_Facts
begin

text \<open>
  Lemmas on the five Solana queries: what the judge is asked, what the workers of a round
  report, and what a query returns once its round is decided, failed or waits.
\<close>

subsection \<open>Judge and workers\<close>

definition tx_call :: "('w, 'c, 'tx, 'acc, 'sg) sol_rpc_api \<Rightarrow> signature \<Rightarrow> 'c option \<Rightarrow> ('w, 'tx) rpc_call" where
  "tx_call R sig c =
     (case c of None \<Rightarrow> rpc_get_transaction R sig | Some config \<Rightarrow> rpc_get_transaction_with_config R sig config)"

definition slot_call :: "('w, 'c, 'tx, 'acc, 'sg) sol_rpc_api \<Rightarrow> 'c option \<Rightarrow> ('w, u64) rpc_call" where
  "slot_call R c =
     (case c of None \<Rightarrow> rpc_get_slot R | Some config \<Rightarrow> rpc_get_slot_with_commitment R config)"

definition sigs_call ::
    "('w, 'c, 'tx, 'acc, 'sg) sol_rpc_api \<Rightarrow> pubkey \<Rightarrow> 'c sig_config option \<Rightarrow> ('w, 'sg list) rpc_call" where
  "sigs_call R key c =
     (case c of None \<Rightarrow> rpc_get_signatures R key | Some config \<Rightarrow> rpc_get_signatures_with_config R key config)"

definition pacc_call ::
    "('w, 'c, 'tx, 'acc, 'sg) sol_rpc_api \<Rightarrow> pubkey \<Rightarrow> 'c option \<Rightarrow> ('w, (pubkey \<times> 'acc) list) rpc_call" where
  "pacc_call R key c =
     (case c of None \<Rightarrow> rpc_get_program_accounts R key
      | Some config \<Rightarrow> rpc_get_program_accounts_with_config R key config)"

lemmas call_defs = tx_call_def slot_call_def sigs_call_def pacc_call_def

text \<open>What an endpoint answers within the attempts of a worker.\<close>

definition reported :: "('w \<Rightarrow> ('x + 'a) \<times> 'w) \<Rightarrow> 'w \<Rightarrow> 'a option" where
  "reported call w = fst (try_rpc 3 call w)"

text \<open>The messages of the workers that run \<open>call\<close> on their endpoints.\<close>

definition replies_of ::
    "('w, 'c, 'tx, 'acc, 'sg) sol_rpc_api \<Rightarrow> ('w \<Rightarrow> ('x + 'a) \<times> 'w) \<Rightarrow> 'w list \<Rightarrow> 'a inner_message list" where
  "replies_of R call ws = map (\<lambda>w. worker_message (rpc_url R w) (reported call w)) ws"

definition urls_ok :: "('w, 'c, 'tx, 'acc, 'sg) sol_rpc_api \<Rightarrow> 'w list \<Rightarrow> bool" where
  "urls_ok R ws \<longleftrightarrow> distinct (map (rpc_url R) ws)"

lemma length_replies [simp]: "length (replies_of R call ws) = length ws"
  by (simp add: replies_of_def)

lemma snd_replies: "map snd (replies_of R call ws) = map (rpc_url R) ws"
  by (simp add: replies_of_def worker_message_def o_def split: option.split)

lemma fst_replies:
  "i < length ws \<Longrightarrow> fst (replies_of R call ws ! i) = Inr a \<longleftrightarrow> reported call (ws ! i) = Some a"
  by (simp add: replies_of_def worker_message_def split: option.split)

lemma worker_replies:
  "map (fst \<circ> (\<lambda>w. client_worker_do call (rpc_url R w) w)) ws = replies_of R call ws"
  by (simp add: replies_of_def reported_def client_worker_do_def split: prod.split)

text \<open>The answers of all endpoints, when each has one.\<close>

lemma reported_all:
  "length as = length ws \<Longrightarrow>
   (\<forall>i < length ws. fst (replies_of R call ws ! i) = Inr (as ! i)) \<longleftrightarrow> map (reported call) ws = map Some as"
  by (auto simp: fst_replies list_eq_iff_nth_eq)

subsection \<open>A query after its round\<close>

text \<open>
  Everything a query adds to its round: \<open>check\<close> compares a decided answer with the judge's;
  errors pass through, a dispatcher that panics reads as "not found".
\<close>

definition after_round ::
    "('b \<Rightarrow> (sol_error, 'r) res) \<Rightarrow> (sol_error \<Rightarrow> (sol_error, 'r) res) \<Rightarrow> 'b round_end \<Rightarrow> (sol_error, 'r) res" where
  "after_round check failed r =
     (case r of
        Worker_Failed url e \<Rightarrow> failed (Internal (Received_Error url e))
      | Decided (Inr b) \<Rightarrow> check b
      | Decided (Inl (Err e)) \<Rightarrow> Inl (Err e)
      | Decided (Inl (Panic site)) \<Rightarrow> Inl (Err (Custom Not_Found))
      | Cancelled_Round \<Rightarrow> Inl (Err (TimeOut Cancelled)))"

lemma respond_after:
  assumes "\<And>e. g (ok (Inl e)) = Inl (Err e)"
  shows "(case (case respond ok failed x of Inl _ \<Rightarrow> None | Inr ev \<Rightarrow> Some ev) of
      None \<Rightarrow> Inl (Err (Custom Not_Found)) | Some ev \<Rightarrow> g ev) =
    after_round (\<lambda>b. g (ok (Inr b))) (\<lambda>e. g (failed e)) x"
  using assms by (cases "(ok, failed, x)" rule: respond.cases) (simp_all add: after_round_def)

text \<open>The round of a query on a client with at least one extra endpoint.\<close>

definition slot_round where
  "slot_round V c ws =
     collect (length ws) (\<lambda>slot url. List.insert (slot, url)) deal_get_slot_res []
       (round_events (replies_of (env_rpc V) (slot_call (env_rpc V) c) ws) (env_schedule V))"

definition tx_round where
  "tx_round V sig c ws =
     collect (length ws) (\<lambda>tx url. List.insert (tx_to_vec (env_json V) tx, url))
       (deal_get_transaction_res (env_json V)) []
       (round_events (replies_of (env_rpc V) (tx_call (env_rpc V) sig c) ws) (env_schedule V))"

definition account_round where
  "account_round V key c ws =
     collect (length ws) (\<lambda>a url. List.insert (acc_to_vec (env_json V) a, url))
       (deal_get_account_res (env_json V)) []
       (round_events (replies_of (env_rpc V) (account_call (env_rpc V) c key) ws) (env_schedule V))"

definition sigs_round where
  "sigs_round V key c ws =
     collect (length ws) (\<lambda>sigs url. AList.update url sigs)
       (deal_get_signatures_for_address_res (env_json V) (order_senders (env_order V))) []
       (round_events (replies_of (env_rpc V) (sigs_call (env_rpc V) key c) ws) (env_schedule V))"

definition pacc_round where
  "pacc_round V key c ws =
     collect (length ws) (\<lambda>accs url. AList.update url accs)
       (deal_get_program_accounts_res (env_json V) (order_counts (env_order V))) []
       (round_events (replies_of (env_rpc V) (pacc_call (env_rpc V) key c) ws) (env_schedule V))"

lemma fst_ask_judge:
  "fst (ask_judge call client) =
     (case fst (call (sol_judge_rpc client)) of
        Inl e \<Rightarrow> Inl (Err (Custom (Rpc_Error (re_debug e)))) | Inr a \<Rightarrow> Inr a)"
  and extra_ask_judge: "sol_extra_rpc (snd (ask_judge call client)) = sol_extra_rpc client"
  by (simp_all add: ask_judge_def split: prod.splits sum.splits)

lemmas worker_defs =
  client_worker_do_get_transaction_def client_worker_do_get_slot_def client_worker_do_get_account_def
  client_worker_do_get_signatures_for_address_def client_worker_do_get_program_accounts_def

lemma ask_judge_Inr:
  assumes "fst (call (sol_judge_rpc client)) = Inr a"
  obtains client' where "ask_judge call client = (Inr a, client')"
    "sol_extra_rpc client' = sol_extra_rpc client"
  using that assms fst_ask_judge[of call client] extra_ask_judge[of call client]
  by (metis prod.collapse sum.simps(6))

lemmas round_unfold =
  ask_dispatcher_def dispatch_def run_workers_def open_round_def option.map_comp o_def respond_after

lemma get_slot_run:
  assumes "sol_extra_rpc client \<noteq> []" "fst (slot_call (env_rpc V) c (sol_judge_rpc client)) = Inr judge"
  shows "fst (get_slot V c client) =
    map_option (after_round
      (\<lambda>slot. if judge \<le> slot then Inr judge else Inl (Err (Custom (Slot_Not_Same slot judge))))
      (\<lambda>e. Inl (Err e))) (slot_round V c (sol_extra_rpc client))"
proof -
  obtain client' where j: "ask_judge (slot_call (env_rpc V) c) client = (Inr judge, client')"
    "sol_extra_rpc client' = sol_extra_rpc client" using assms(2) by (rule ask_judge_Inr)
  have w: "map (\<lambda>x. fst (client_worker_do_get_slot (env_rpc V) c x)) ws =
      replies_of (env_rpc V) (slot_call (env_rpc V) c) ws" for ws
    using worker_replies[of "slot_call (env_rpc V) c" "env_rpc V" ws]
    by (simp add: client_worker_do_get_slot_def slot_call_def o_def)
  show ?thesis
    using assms(1) unfolding get_slot_def slot_call_def[symmetric]
    by (simp add: j round_unfold deal_get_slot_def w slot_round_def)
qed

lemma get_transaction_run:
  assumes "sol_extra_rpc client \<noteq> []" "fst (tx_call (env_rpc V) sig c (sol_judge_rpc client)) = Inr judge"
  shows "fst (get_transaction V sig c client) =
    map_option (after_round (\<lambda>tx. if tx = judge then Inr tx else Inl (Err (Custom Not_Same)))
      (\<lambda>e. Inl (Err e))) (tx_round V sig c (sol_extra_rpc client))"
proof -
  obtain client' where j: "ask_judge (tx_call (env_rpc V) sig c) client = (Inr judge, client')"
    "sol_extra_rpc client' = sol_extra_rpc client" using assms(2) by (rule ask_judge_Inr)
  have w: "map (\<lambda>x. fst (client_worker_do_get_transaction (env_rpc V) c sig x)) ws =
      replies_of (env_rpc V) (tx_call (env_rpc V) sig c) ws" for ws
    using worker_replies[of "tx_call (env_rpc V) sig c" "env_rpc V" ws]
    by (simp add: client_worker_do_get_transaction_def tx_call_def o_def)
  show ?thesis
    using assms(1) unfolding get_transaction_def tx_call_def[symmetric]
    by (simp add: j round_unfold deal_get_transaction_def w tx_round_def)
qed

text \<open>A failed worker's response has another query's constructor: the query panics.\<close>

lemma get_account_info_run:
  assumes "sol_extra_rpc client \<noteq> []"
    "fst (judge_account_call (env_rpc V) c key (sol_judge_rpc client)) = Inr judge"
  shows "fst (get_account_info V key c client) =
    map_option (after_round (\<lambda>a. if a = judge then Inr a else Inl (Err (Custom Not_Same)))
      (\<lambda>e. Inl (Panic ''get_account_info: unreachable''))) (account_round V key c (sol_extra_rpc client))"
proof -
  obtain client' where j: "ask_judge (judge_account_call (env_rpc V) c key) client = (Inr judge, client')"
    "sol_extra_rpc client' = sol_extra_rpc client" using assms(2) by (rule ask_judge_Inr)
  have w: "map (\<lambda>x. fst (client_worker_do_get_account (env_rpc V) c key x)) ws =
      replies_of (env_rpc V) (account_call (env_rpc V) c key) ws" for ws
    using worker_replies[of "account_call (env_rpc V) c key" "env_rpc V" ws]
    by (simp add: client_worker_do_get_account_def o_def)
  show ?thesis
    using assms(1) unfolding get_account_info_def
    by (simp add: j round_unfold deal_get_account_info_def w account_round_def)
qed

lemma get_signatures_run:
  assumes "sol_extra_rpc client \<noteq> []"
    "fst (sigs_call (env_rpc V) key c (sol_judge_rpc client)) = Inr (first # judge)"
    "signature_from_str (env_json V) (sig_text (env_json V) first) = Inr b"
  shows "fst (get_signatures_for_address V key c client) =
    map_option (after_round (merge_signatures (env_json V) first judge) (\<lambda>e. Inl (Err e)))
      (sigs_round V key (Some (config_before b c)) (sol_extra_rpc client))"
proof -
  obtain client' where j: "ask_judge (sigs_call (env_rpc V) key c) client = (Inr (first # judge), client')"
    "sol_extra_rpc client' = sol_extra_rpc client" using assms(2) by (rule ask_judge_Inr)
  have w: "map (\<lambda>x. fst (client_worker_do_get_signatures_for_address (env_rpc V) c key x)) ws =
      replies_of (env_rpc V) (sigs_call (env_rpc V) key c) ws" for ws c
    using worker_replies[of "sigs_call (env_rpc V) key c" "env_rpc V" ws]
    by (simp add: client_worker_do_get_signatures_for_address_def sigs_call_def o_def)
  show ?thesis
    using assms(1,3) unfolding get_signatures_for_address_def sigs_call_def[symmetric]
    by (simp add: j round_unfold deal_get_signatures_for_address_def w sigs_round_def)
qed

lemma get_program_accounts_run:
  assumes "sol_extra_rpc client \<noteq> []"
    "fst (pacc_call (env_rpc V) key c (sol_judge_rpc client)) = Inr judge"
  shows "fst (get_program_accounts V key c client) =
    map_option (after_round (merge_program_accounts (env_json V) (order_counts (env_order V)) judge)
      (\<lambda>e. Inl (Err e))) (pacc_round V key c (sol_extra_rpc client))"
proof -
  obtain client' where j: "ask_judge (pacc_call (env_rpc V) key c) client = (Inr judge, client')"
    "sol_extra_rpc client' = sol_extra_rpc client" using assms(2) by (rule ask_judge_Inr)
  have w: "map (\<lambda>x. fst (client_worker_do_get_program_accounts (env_rpc V) c key x)) ws =
      replies_of (env_rpc V) (pacc_call (env_rpc V) key c) ws" for ws
    using worker_replies[of "pacc_call (env_rpc V) key c" "env_rpc V" ws]
    by (simp add: client_worker_do_get_program_accounts_def pacc_call_def o_def)
  show ?thesis
    using assms(1) unfolding get_program_accounts_def pacc_call_def[symmetric]
    by (simp add: j round_unfold deal_get_program_accounts_def w pacc_round_def)
qed

text \<open>A query that returns an answer has asked a judge and at least one extra endpoint.\<close>

lemma get_slot_Inr:
  assumes "fst (get_slot V c client) = Some (Inr s)"
  shows "sol_extra_rpc client \<noteq> [] \<and> (\<exists>j. fst (slot_call (env_rpc V) c (sol_judge_rpc client)) = Inr j)"
  using assms fst_ask_judge[of "slot_call (env_rpc V) c" client]
    extra_ask_judge[of "slot_call (env_rpc V) c" client]
  unfolding get_slot_def slot_call_def[symmetric]
  by (auto simp: ask_dispatcher_def dispatch_def run_workers_def deal_get_slot_def open_round_def
      split: prod.splits sum.splits) (metis sumE)

lemma get_transaction_Inr:
  assumes "fst (get_transaction V sig c client) = Some (Inr tx)"
  shows "sol_extra_rpc client \<noteq> [] \<and> (\<exists>j. fst (tx_call (env_rpc V) sig c (sol_judge_rpc client)) = Inr j)"
  using assms fst_ask_judge[of "tx_call (env_rpc V) sig c" client]
    extra_ask_judge[of "tx_call (env_rpc V) sig c" client]
  unfolding get_transaction_def tx_call_def[symmetric]
  by (auto simp: ask_dispatcher_def dispatch_def run_workers_def deal_get_transaction_def open_round_def
      split: prod.splits sum.splits) (metis sumE)

lemma after_round_Inr:
  "after_round check failed r = Inr a \<Longrightarrow> (\<And>e. failed e \<noteq> Inr a) \<Longrightarrow>
   \<exists>b. r = Decided (Inr b) \<and> check b = Inr a"
  by (auto simp: after_round_def split: round_end.splits sum.splits fault.splits)

subsection \<open>Decisions\<close>

lemma map_fst_map2: "length xs = length ys \<Longrightarrow> map fst (map2 (\<lambda>a b. (f a, b)) xs ys) = map f xs"
  by (induction xs ys rule: list_induct2) auto

lemma map_snd_map2: "length xs = length ys \<Longrightarrow> map snd (map2 (\<lambda>a b. (b, f a)) xs ys) = map f xs"
  by (induction xs ys rule: list_induct2) auto

lemma mset_collected:
  assumes "mset rs = mset (map2 (\<lambda>a b. (f a, b)) as urls)" "length as = length urls"
  shows "mset (map fst rs) = mset (map f as)"
  using assms by (metis map_fst_map2 mset_map)

lemma deal_slot_plurality: "deal_get_slot_res slots = Inr s \<longleftrightarrow> plurality (map fst slots) s"
  by (simp add: deal_get_slot_res_def most_frequent_Inr)

lemma count_list_inj: "inj f \<Longrightarrow> count_list (map f xs) (f x) = count_list xs x"
  by (induction xs) (auto dest: injD)

lemma plurality_map_inj: "inj f \<Longrightarrow> plurality (map f xs) (f p) \<longleftrightarrow> plurality xs p"
  by (auto simp: plurality_def count_list_inj dest: injD)

text \<open>Parsing what was serialised gives the value back.\<close>

definition sol_json_ok :: "('tx, 'acc, 'sg) sol_json \<Rightarrow> bool" where
  "sol_json_ok S \<longleftrightarrow>
     (\<forall>x. tx_from_slice S (tx_to_vec S x) = Some x) \<and> (\<forall>x. acc_from_slice S (acc_to_vec S x) = Some x) \<and>
     (\<forall>x. pacc_from_str S (pacc_to_string S x) = Some x) \<and> (\<forall>x. sig_from_str S (sig_to_string S x) = Some x)"

lemma sol_json_inj:
  assumes "sol_json_ok S"
  shows "inj (tx_to_vec S)" "inj (acc_to_vec S)" "inj (pacc_to_string S)" "inj (sig_to_string S)"
  using assms unfolding sol_json_ok_def inj_def by (metis option.inject)+

text \<open>The most frequent serialised answer is the serialisation of the most frequent answer.\<close>

lemma most_frequent_map:
  assumes "\<And>x. from (to x) = Some x" "mset vs = mset (map to xs)"
  shows "bind_res (most_frequent (tally vs)) (\<lambda>v. unwrap_res site (from v)) = Inr x \<longleftrightarrow> plurality xs x"
proof -
  have inj: "inj to" using assms(1) by (metis injI option.inject)
  have "most_frequent (tally vs) = Inr v \<longleftrightarrow> (\<exists>y. v = to y \<and> plurality xs y)" for v
  proof -
    have "most_frequent (tally vs) = Inr v \<longleftrightarrow> plurality (map to xs) v"
      by (simp add: most_frequent_mset[OF assms(2)] most_frequent_Inr)
    moreover have "plurality (map to xs) v \<Longrightarrow> \<exists>y. v = to y" by (auto simp: plurality_def)
    ultimately show ?thesis using plurality_map_inj[OF inj] by metis
  qed
  with assms(1) show ?thesis by (auto simp: res_simps)
qed

lemma most_frequent_no_panic: "most_frequent c \<noteq> Inl (Panic site)"
  by (auto simp: most_frequent_def ok_or_def Let_def split: option.splits)

subsection \<open>Rounds of slots and transactions\<close>

text \<open>
  The schedule names only workers of the client, whose endpoints have different URLs; it is
  prompt if it has a message of every worker, each within a minute.
\<close>

definition round_ok :: "('w, 'c, 'tx, 'acc, 'sg) sol_env \<Rightarrow> 'w sol_client \<Rightarrow> bool" where
  "round_ok V client \<longleftrightarrow> sol_extra_rpc client \<noteq> [] \<and> urls_ok (env_rpc V) (sol_extra_rpc client) \<and>
     sched_ok (env_schedule V) (length (sol_extra_rpc client))"

definition prompt :: "('w, 'c, 'tx, 'acc, 'sg) sol_env \<Rightarrow> 'w sol_client \<Rightarrow> bool" where
  "prompt V client \<longleftrightarrow> in_time (env_schedule V) \<and>
     {..<length (sol_extra_rpc client)} \<subseteq> heard (env_schedule V)"

lemma round_okD:
  assumes "round_ok V client"
  shows "sol_extra_rpc client \<noteq> []" "sched_ok (env_schedule V) (length (sol_extra_rpc client))"
    "distinct (map snd (replies_of (env_rpc V) call (sol_extra_rpc client)))"
  using assms by (simp_all add: round_ok_def urls_ok_def snd_replies)

lemma slot_round_decided:
  assumes "slot_round V c (sol_extra_rpc client) = Some (Decided d)" "round_ok V client"
  obtains slots where
    "map (reported (slot_call (env_rpc V) c)) (sol_extra_rpc client) = map Some slots"
    "\<And>s. d = Inr s \<longleftrightarrow> plurality slots s" "\<And>site. d \<noteq> Inl (Panic site)"
proof -
  obtain slots rs where r: "length slots = length (sol_extra_rpc client)"
      "\<forall>i < length (sol_extra_rpc client). fst (replies_of (env_rpc V) (slot_call (env_rpc V) c)
         (sol_extra_rpc client) ! i) = Inr (slots ! i)"
      "d = deal_get_slot_res rs"
      "mset rs = mset (map2 Pair slots (map snd (replies_of (env_rpc V) (slot_call (env_rpc V) c) (sol_extra_rpc client))))"
    using hset.round_decided[where f = "\<lambda>x. x", OF assms(1)[unfolded slot_round_def] round_okD(2)[OF assms(2)]
        length_replies round_okD(3)[OF assms(2)]] by metis
  have "mset (map fst rs) = mset slots"
    using mset_collected[where f = "\<lambda>x. x", OF r(4)] r(1) by simp
  then have "d = Inr s \<longleftrightarrow> plurality slots s" for s
    unfolding r(3) deal_slot_plurality by (rule plurality_cong)
  moreover have "d \<noteq> Inl (Panic site)" for site
    unfolding r(3) deal_get_slot_res_def by (rule most_frequent_no_panic)
  ultimately show ?thesis using that r(2) reported_all[OF r(1)] by blast
qed

lemma tx_round_decided:
  assumes "tx_round V sig c (sol_extra_rpc client) = Some (Decided d)" "round_ok V client"
    and json: "sol_json_ok (env_json V)"
  obtains txs where
    "map (reported (tx_call (env_rpc V) sig c)) (sol_extra_rpc client) = map Some txs"
    "\<And>t. d = Inr t \<longleftrightarrow> plurality txs t"
proof -
  obtain txs rs where r: "length txs = length (sol_extra_rpc client)"
      "\<forall>i < length (sol_extra_rpc client). fst (replies_of (env_rpc V) (tx_call (env_rpc V) sig c)
         (sol_extra_rpc client) ! i) = Inr (txs ! i)"
      "d = deal_get_transaction_res (env_json V) rs"
      "mset rs = mset (map2 (\<lambda>a url. (tx_to_vec (env_json V) a, url)) txs
         (map snd (replies_of (env_rpc V) (tx_call (env_rpc V) sig c) (sol_extra_rpc client))))"
    using hset.round_decided[where f = "tx_to_vec (env_json V)", OF assms(1)[unfolded tx_round_def]
        round_okD(2)[OF assms(2)] length_replies round_okD(3)[OF assms(2)]] by metis
  have "mset (map fst rs) = mset (map (tx_to_vec (env_json V)) txs)"
    using mset_collected[OF r(4)] r(1) by simp
  with json have "d = Inr t \<longleftrightarrow> plurality txs t" for t
    unfolding r(3) deal_get_transaction_res_def
    by (intro most_frequent_map) (simp_all add: sol_json_ok_def)
  with that r reported_all[OF r(1)] show ?thesis by blast
qed

text \<open>A prompt round of endpoints that all answer is decided.\<close>

lemma prompt_decided:
  assumes "round_ok V client" "prompt V client"
    and "map (reported call) (sol_extra_rpc client) = map Some as"
  shows "\<exists>d. collect (length (sol_extra_rpc client)) (\<lambda>a url. List.insert (f a, url)) decide []
      (round_events (replies_of (env_rpc V) call (sol_extra_rpc client)) (env_schedule V)) = Some (Decided d)"
proof -
  have l: "length as = length (sol_extra_rpc client)" using assms(3) by (metis length_map)
  have p: "in_time (env_schedule V)" "{..<length (sol_extra_rpc client)} \<subseteq> heard (env_schedule V)"
    using assms(2) by (simp_all add: prompt_def)
  have a: "\<forall>i < length (sol_extra_rpc client).
      fst (replies_of (env_rpc V) call (sol_extra_rpc client) ! i) = Inr (as ! i)"
    using assms(3) reported_all[OF l] by blast
  have "0 < length (sol_extra_rpc client)" using round_okD(1)[OF assms(1)] by simp
  from hset.round_complete_ex[where f = f, OF round_okD(2)[OF assms(1)] p length_replies
      round_okD(3)[OF assms(1)] this a l] show ?thesis .
qed

text \<open>Which rounds end with a worker's error, and that a round waits for a silent worker.\<close>

lemma failing_worker:
  assumes "round_ok V client" "in_time (env_schedule V)" "i \<in> heard (env_schedule V)"
    and "reported call (sol_extra_rpc client ! i) = None"
  shows "\<exists>url e. collect (length (sol_extra_rpc client)) (\<lambda>a url. List.insert (f a, url)) decide []
      (round_events (replies_of (env_rpc V) call (sol_extra_rpc client)) (env_schedule V)) =
      Some (Worker_Failed url e)"
proof (rule hset.round_failed[OF round_okD(2)[OF assms(1)] assms(2,3) _ round_okD(3)[OF assms(1)]])
  have "i < length (sol_extra_rpc client)"
    using assms(3) round_okD(2)[OF assms(1)] by (auto simp: heard_def dest: sched_okD)
  with assms(4) show "fst (replies_of (env_rpc V) call (sol_extra_rpc client) ! i) \<noteq> Inr a" for a
    by (simp add: fst_replies)
qed simp

lemma silent_worker:
  assumes "round_ok V client" "in_time (env_schedule V)" "i < length (sol_extra_rpc client)"
    "i \<notin> heard (env_schedule V)"
    and "\<forall>w \<in> set (sol_extra_rpc client). reported call w \<noteq> None"
  shows "collect (length (sol_extra_rpc client)) (\<lambda>a url. List.insert (f a, url)) decide []
      (round_events (replies_of (env_rpc V) call (sol_extra_rpc client)) (env_schedule V)) = None"
proof (rule hset.round_stuck[OF round_okD(2)[OF assms(1)] assms(2-4) _ round_okD(3)[OF assms(1)]])
  show "\<forall>i < length (sol_extra_rpc client).
      \<exists>a. fst (replies_of (env_rpc V) call (sol_extra_rpc client) ! i) = Inr a"
    using assms(5) by (metis fst_replies not_None_eq nth_mem)
qed simp

end
