(* ===== verification/Sample_Sol.thy ===== *)
theory Sample_Sol
  imports Sol_Query_Facts
begin

text \<open>
  A concrete Solana setting for witnesses: an endpoint is its URL, its slot and the entries it
  lists; slot 0 stands for an endpoint that does not answer. Transactions are byte strings,
  accounts and signature states strings, with injective JSON forms.
\<close>

type_synonym endpoint = "string \<times> u64 \<times> string list"

definition ep_answer :: "(endpoint \<Rightarrow> 'a) \<Rightarrow> (endpoint, 'a) rpc_call" where
  "ep_answer f w =
     (if fst (snd w) = 0 then Inl \<lparr>re_transaction = None, re_debug = ''down''\<rparr> else Inr (f w), w)"

definition sample_sol_rpc :: "(endpoint, unit, bytes, string, string) sol_rpc_api" where
  "sample_sol_rpc =
     \<lparr>rpc_new = \<lambda>url. (url, 1, []), rpc_url = fst, rpc_get_health = ep_answer (\<lambda>_. ()),
      rpc_get_transaction = \<lambda>sig. ep_answer (\<lambda>w. [ucast (fst (snd w))]),
      rpc_get_transaction_with_config = \<lambda>sig _. ep_answer (\<lambda>w. [ucast (fst (snd w))]),
      rpc_get_slot = ep_answer (fst \<circ> snd), rpc_get_slot_with_commitment = \<lambda>_. ep_answer (fst \<circ> snd),
      rpc_get_account = \<lambda>key. ep_answer fst, rpc_get_account_with_config = \<lambda>key _. ep_answer (Some \<circ> fst),
      rpc_get_signatures = \<lambda>key. ep_answer (snd \<circ> snd),
      rpc_get_signatures_with_config = \<lambda>key _. ep_answer (snd \<circ> snd),
      rpc_get_program_accounts = \<lambda>key. ep_answer (map (Pair key) \<circ> snd \<circ> snd),
      rpc_get_program_accounts_with_config = \<lambda>key _. ep_answer (map (Pair key) \<circ> snd \<circ> snd)\<rparr>"

definition byte_char :: "u8 \<Rightarrow> char" where
  "byte_char b = char_of (unat b)"

definition char_byte :: "char \<Rightarrow> u8" where
  "char_byte c = of_nat (of_char c)"

lemma char_byte_inverse: "char_byte (byte_char b) = b" "byte_char (char_byte c) = c"
proof -
  have b: "unat b < 256" using unsigned_less[where 'a = nat, of b] by simp
  then show "char_byte (byte_char b) = b" by (simp add: byte_char_def char_byte_def of_char_of)
  show "byte_char (char_byte c) = c"
    by (simp add: byte_char_def char_byte_def unat_of_nat)
qed

fun parse_pacc :: "string \<Rightarrow> (pubkey \<times> string) option" where
  "parse_pacc [] = None"
| "parse_pacc [c] = Some ([], [])"
| "parse_pacc (c # d # s) =
     (if c = CHR '':'' then Some ([], d # s)
      else map_option (\<lambda>(k, a). (char_byte d # k, a)) (parse_pacc s))"

definition show_pacc :: "pubkey \<times> string \<Rightarrow> string" where
  "show_pacc p = concat (map (\<lambda>b. [CHR ''b'', byte_char b]) (fst p)) @ CHR '':'' # snd p"

lemma parse_show_pacc: "parse_pacc (show_pacc (k, a)) = Some (k, a)"
proof (induction k)
  case Nil
  show ?case by (cases a) (simp_all add: show_pacc_def)
qed (simp add: show_pacc_def char_byte_inverse)

definition sample_sol_json :: "(bytes, string, string) sol_json" where
  "sample_sol_json =
     \<lparr>tx_to_vec = id, tx_from_slice = Some,
      acc_to_vec = (\<lambda>a. case a of None \<Rightarrow> [] | Some s \<Rightarrow> 1 # map char_byte s),
      acc_from_slice = (\<lambda>v. case v of [] \<Rightarrow> Some None | _ # s \<Rightarrow> Some (Some (map byte_char s))),
      pacc_to_string = show_pacc, pacc_from_str = parse_pacc,
      sig_to_string = id, sig_from_str = Some, sig_text = id, signature_from_str = (\<lambda>_. Inr [])\<rparr>"

lemma sample_sol_json_ok: "sol_json_ok sample_sol_json"
  by (auto simp: sol_json_ok_def sample_sol_json_def parse_show_pacc char_byte_inverse o_def map_idI
      split: option.split)

definition sample_env :: "schedule \<Rightarrow> (endpoint, unit, bytes, string, string) sol_env" where
  "sample_env sched =
     \<lparr>env_rpc = sample_sol_rpc, env_json = sample_sol_json,
      env_order = \<lparr>order_counts = id, order_senders = id\<rparr>, env_schedule = sched\<rparr>"

lemma sample_env_sel [simp]:
  "env_rpc (sample_env sched) = sample_sol_rpc" "env_json (sample_env sched) = sample_sol_json"
  "env_order (sample_env sched) = \<lparr>order_counts = id, order_senders = id\<rparr>"
  "env_schedule (sample_env sched) = sched"
  by (simp_all add: sample_env_def)

lemma sample_sig_sel [simp]: "signature_from_str sample_sol_json s = Inr []"
  by (simp add: sample_sol_json_def)

text \<open>Three extra endpoints and a judge; the last extra endpoint is behind.\<close>

definition sample_sol_client :: "endpoint sol_client" where
  "sample_sol_client =
     \<lparr>sol_extra_rpc = [(''a'', 9, [''x'', ''y'']), (''b'', 9, [''y'', ''x'']), (''c'', 8, [''x''])],
      sol_judge_rpc = (''j'', 9, [''w'', ''x'', ''y''])\<rparr>"

definition sample_schedule :: schedule where
  "sample_schedule = [None, Some (1, 2), Some (1, 0), None, Some (3, 1)]"

lemma sample_round_ok:
  "set (map snd (List.map_filter id sched)) \<subseteq> {..<3} \<Longrightarrow> round_ok (sample_env sched) sample_sol_client"
  by (force simp: round_ok_def urls_ok_def sched_ok_def sample_env_def sample_sol_client_def
      sample_sol_rpc_def map_filter_def)

lemma sample_prompt: "prompt (sample_env sample_schedule) sample_sol_client"
  by (auto simp: prompt_def in_time_def heard_def sample_env_def sample_sol_client_def
      sample_schedule_def numeral_eq_Suc lessThan_Suc)

lemma try_ep_answer: "try_rpc n (ep_answer f) w = (if fst (snd w) = 0 \<or> n = 0 then None else Some (f w), w)"
  by (induction n) (auto simp: ep_answer_def)

lemma reported_ep: "reported (ep_answer f) w = (if fst (snd w) = 0 then None else Some (f w))"
  by (simp add: reported_def try_ep_answer)

end
