(* ===== verification/Sol_Properties.thy ===== *)
theory Sol_Properties
  imports Sample_Sol
begin

text \<open>
  What the Solana queries promise: answers are the judge's own, confirmed by the most frequent
  answer of the extra endpoints; a prompt round always returns; and where the code does not
  keep what its comments and configuration suggest.
\<close>

subsection \<open>Slots and transactions\<close>

text \<open>
  C14: a slot that \<open>getSlot\<close> returns is the judge's, every extra endpoint has reported one, and
  the one reported strictly most often is not behind it.
\<close>

theorem get_slot_sound:
  assumes "fst (get_slot V c client) = Some (Inr s)" "round_ok V client"
  shows "fst (slot_call (env_rpc V) c (sol_judge_rpc client)) = Inr s \<and>
    (\<exists>slots p. map (reported (slot_call (env_rpc V) c)) (sol_extra_rpc client) = map Some slots \<and>
       plurality slots p \<and> s \<le> p)"
proof -
  from get_slot_Inr[OF assms(1)] obtain j where j: "fst (slot_call (env_rpc V) c (sol_judge_rpc client)) = Inr j"
    by blast
  from assms(1)[unfolded get_slot_run[OF round_okD(1)[OF assms(2)] j]] obtain p where
    p: "slot_round V c (sol_extra_rpc client) = Some (Decided (Inr p))" "s = j" "j \<le> p"
    by (auto dest!: after_round_Inr split: if_splits)
  from slot_round_decided[OF p(1) assms(2)] obtain slots where
    "map (reported (slot_call (env_rpc V) c)) (sol_extra_rpc client) = map Some slots" "plurality slots p"
    by metis
  with j p show ?thesis by blast
qed

theorem get_slot_sound_witness:
  "fst (get_slot (sample_env sample_schedule) None sample_sol_client) = Some (Inr 9) \<and>
   (\<exists>slots p. map (reported (slot_call sample_sol_rpc None)) (sol_extra_rpc sample_sol_client) = map Some slots \<and>
      plurality slots p \<and> 9 \<le> p)"
proof -
  have r: "fst (get_slot (sample_env sample_schedule) None sample_sol_client) = Some (Inr 9)"
    by code_simp
  have "round_ok (sample_env sample_schedule) sample_sol_client"
    by (rule sample_round_ok) (simp add: sample_schedule_def map_filter_simps)
  from get_slot_sound[OF r this] r show ?thesis by (simp add: sample_env_def)
qed



text \<open>
  an answer that more than half of the endpoints agree on is always the one chosen, whoever
  reports it and in whatever order.
\<close>

lemma slot_majority:
  assumes "length slots < 2 * count_list (map fst slots) s"
  shows "deal_get_slot_res slots = Inr s"
proof -
  let ?xs = "map fst slots"
  have "count_list ?xs y < count_list ?xs s" if "y \<noteq> s" for y
  proof -
    have "count_list ?xs y + count_list ?xs s \<le> length ?xs"
      using that by (induction slots) auto
    with assms show ?thesis by simp
  qed
  moreover have "s \<in> set ?xs" using assms by (metis count_notin mult_0_right not_less_zero)
  ultimately show ?thesis by (simp add: deal_slot_plurality plurality_def)
qed

lemma slot_majority_witness:
  "deal_get_slot_res [(7, ''a''), (8, ''b''), (7, ''c'')] = Inr 7"
  by (rule slot_majority) simp

text \<open>
  but a majority is not required: two of five endpoints decide if the others disagree among
  themselves, and a tie is an error.
\<close>

lemma slot_minority_decides:
  "deal_get_slot_res [(7, a), (7, b), (1, c), (2, d), (3, e)] = Inr 7 \<and>
   deal_get_slot_res [(7, a), (8, b)] = Inl (Err (Custom (Max_Count_Elements 2)))"
  by (simp add: deal_get_slot_res_def tally_def count_entry_def most_frequent_def Let_def)

text \<open>
  C35: a worker that never reports blocks the dispatcher, and with it every later request: the
  minute's limit is looked at only after a message, so \<open>getSlot\<close> has not returned after any
  number of further waits.
\<close>

theorem silent_worker_blocks:
  assumes "round_ok V client" "in_time (env_schedule V)" "i < length (sol_extra_rpc client)"
    "i \<notin> heard (env_schedule V)"
    and "\<forall>w \<in> set (sol_extra_rpc client). reported (slot_call (env_rpc V) c) w \<noteq> None"
    and "fst (slot_call (env_rpc V) c (sol_judge_rpc client)) = Inr j"
  shows "fst (get_slot (V\<lparr>env_schedule := env_schedule V @ replicate k None\<rparr>) c client) = None"
proof -
  let ?V = "V\<lparr>env_schedule := env_schedule V @ replicate k None\<rparr>"
  have "round_ok ?V client" "in_time (env_schedule ?V)" "i \<notin> heard (env_schedule ?V)"
    using assms(1,2,4) by (auto simp: round_ok_def sched_ok_def in_time_def heard_def)
  from silent_worker[OF this(1,2) assms(3) this(3)] assms(5)
  have "slot_round ?V c (sol_extra_rpc client) = None" by (simp add: slot_round_def)
  with get_slot_run[of client ?V c j] round_okD(1)[OF assms(1)] assms(6) show ?thesis by simp
qed

theorem silent_worker_blocks_witness:
  "fst (get_slot ((sample_env [Some (1, 0), Some (1, 2)])
     \<lparr>env_schedule := env_schedule (sample_env [Some (1, 0), Some (1, 2)]) @ replicate 3600 None\<rparr>)
     None sample_sol_client) = None"
  by (rule silent_worker_blocks[where i = 1 and j = 9, OF sample_round_ok])
    (simp_all add: map_filter_simps in_time_def heard_def sample_env_def slot_call_def
      sample_sol_rpc_def sample_sol_client_def ep_answer_def reported_ep)

subsection \<open>Accounts\<close>

text \<open>
  C36: if an extra endpoint fails a worker's three attempts and its message is heard in time,
  the request for an account does not end with an error but panics: the worker's error comes back
  as the response to another kind of request.
\<close>

theorem get_account_info_panics:
  assumes "round_ok V client" "in_time (env_schedule V)" "i \<in> heard (env_schedule V)"
    and "reported (account_call (env_rpc V) c key) (sol_extra_rpc client ! i) = None"
    and "fst (judge_account_call (env_rpc V) c key (sol_judge_rpc client)) = Inr judge"
  shows "fst (get_account_info V key c client) = Some (Inl (Panic ''get_account_info: unreachable''))"
proof -
  from failing_worker[OF assms(1-4)] obtain url e where
    "account_round V key c (sol_extra_rpc client) = Some (Worker_Failed url e)"
    unfolding account_round_def by blast
  with get_account_info_run[OF round_okD(1)[OF assms(1)] assms(5)] show ?thesis
    by (simp add: after_round_def)
qed

text \<open>In the witness the second extra endpoint is down.\<close>

theorem get_account_info_panics_witness:
  "fst (get_account_info (sample_env sample_schedule) [] (Some ())
     \<lparr>sol_extra_rpc = [(''a'', 9, []), (''b'', 0, []), (''c'', 9, [])], sol_judge_rpc = (''j'', 9, [])\<rparr>) =
   Some (Inl (Panic ''get_account_info: unreachable''))"
proof (rule get_account_info_panics[where i = 1])
  have "reported (account_call sample_sol_rpc (Some ()) []) (''b'', 0, []) = None" by code_simp
  then show "reported (account_call (env_rpc (sample_env sample_schedule)) (Some ()) [])
      (sol_extra_rpc \<lparr>sol_extra_rpc = [(''a'', 9, []), (''b'', 0, []), (''c'', 9, [])],
         sol_judge_rpc = (''j'', 9, [])\<rparr> ! 1) = None"
    by (simp add: sample_env_def)
qed (auto simp: round_ok_def urls_ok_def sched_ok_def in_time_def heard_def sample_env_def sample_sol_rpc_def
      sample_schedule_def judge_account_call_def ep_answer_def)

end
