(* ===== verification/Sol_Lists.thy ===== *)
theory Sol_Lists
  imports Sample_Sol
begin

text \<open>
  The two Solana queries that answer with a list: signature states of an address, and accounts
  of a program. The code counts occurrences where it means to intersect, which agrees on lists
  without repetitions and not on others.
\<close>

subsection \<open>Counting as intersection\<close>

lemma tally_map_inj: "inj f \<Longrightarrow> tally (map f xs) = map (apfst f) (tally xs)"
proof (induction xs rule: rev_induct)
  case (snoc x xs)
  have "AList.update (f x) v (map (apfst f) c) = map (apfst f) (AList.update x v c)" for v :: nat and c
    using snoc.prems by (induction c) (auto dest: injD)
  moreover have "map_of (map (apfst f) c) (f x) = map_of c x" for c :: "('a \<times> nat) list"
    using snoc.prems by (induction c) (auto dest: injD)
  ultimately show ?case using snoc by (simp add: tally_snoc count_entry_def)
qed (simp add: tally_def)

lemma keys_with_count_map: "keys_with_count n (map (apfst f) c) = map f (keys_with_count n c)"
  by (induction c) (auto simp: keys_with_count_def)

lemma unwrap_all_map: "(\<And>x. from (to x) = Some x) \<Longrightarrow> unwrap_all site (map from (map to xs)) = Inr xs"
  by (induction xs) simp_all

lemma unwrap_counted:
  assumes "\<And>x. from (to x) = Some x"
  shows "unwrap_all site (map from (keys_with_count n (tally (map to xs)))) = Inr (keys_with_count n (tally xs))"
proof -
  have "inj to" using assms by (metis injI option.inject)
  then show ?thesis using assms by (simp only: tally_map_inj keys_with_count_map unwrap_all_map)
qed

text \<open>The same with the entries iterated in any order.\<close>

lemma unwrap_counted_order:
  assumes "\<And>x. from (to x) = Some x" "mset (it (tally (map to xs))) = mset (tally (map to xs))"
  shows "\<exists>ys. unwrap_all site (map from (keys_with_count n (it (tally (map to xs))))) = Inr ys \<and>
    set ys = set (keys_with_count n (tally xs)) \<and> distinct ys"
proof -
  have inj: "inj to" using assms(1) by (metis injI option.inject)
  let ?ks = "keys_with_count n (it (tally (map to xs)))"
  have "set ?ks = set (keys_with_count n (tally (map to xs)))"
    using assms(2) by (rule set_keys_with_count_perm)
  then have s: "set ?ks = to ` set (keys_with_count n (tally xs))"
    by (simp add: tally_map_inj[OF inj] keys_with_count_map)
  then have "map to (map (the_inv to) ?ks) = ?ks"
    by (auto simp: the_inv_f_f[OF inj] intro!: map_idI)
  then obtain ys where ys: "?ks = map to ys" by metis
  with s inj have "set ys = set (keys_with_count n (tally xs))" by (simp add: inj_image_eq_iff)
  have "mset ?ks = mset (keys_with_count n (tally (map to xs)))"
    using assms(2) by (simp add: keys_with_count_def)
  moreover have "distinct (keys_with_count n (tally (map to xs)))"
    using keys_tally[of "map to xs"] by (simp add: keys_with_count_tally)
  ultimately have "distinct ?ks" using mset_eq_imp_distinct_iff by blast
  with ys have "distinct ys" by (simp add: distinct_map)
  show ?thesis using ys \<open>set ys = _\<close> \<open>distinct ys\<close> unwrap_all_map[where to = to, OF assms(1)] by metis
qed

lemma count_list_distinct: "distinct xs \<Longrightarrow> count_list xs x = (if x \<in> set xs then 1 else 0)"
  by (induction xs) auto

lemma count_concat_distinct:
  "\<forall>l \<in> set ls. distinct l \<Longrightarrow> count_list (concat ls) x = length (filter (\<lambda>l. x \<in> set l) ls)"
  by (induction ls) (simp_all add: count_list_distinct)

text \<open>What every list of a family has, counted.\<close>

lemma counted_intersection:
  assumes "\<forall>l \<in> set ls. distinct l" "ls \<noteq> []"
  shows "set (keys_with_count (length ls) (tally (concat ls))) = {x. \<forall>l \<in> set ls. x \<in> set l}"
    and "distinct (keys_with_count (length ls) (tally (concat ls)))"
proof -
  have "count_list (concat ls) x = length ls \<longleftrightarrow> (\<forall>l \<in> set ls. x \<in> set l)" for x
    using assms(1) by (simp add: count_concat_distinct) (metis filter_True length_filter_less less_irrefl)
  with assms(2) show "set (keys_with_count (length ls) (tally (concat ls))) = {x. \<forall>l \<in> set ls. x \<in> set l}"
    by (simp add: set_keys_with_count)
  show "distinct (keys_with_count (length ls) (tally (concat ls)))"
    using keys_tally[of "concat ls"] by (simp add: keys_with_count_tally)
qed

text \<open>The second comparison keeps the order of the judge.\<close>

lemma counted_twice:
  assumes "distinct xs" "distinct ys"
  shows "keys_with_count 2 (tally (xs @ ys)) = filter (\<lambda>x. x \<in> set ys) xs"
proof -
  have "filter (\<lambda>x. count_list (xs @ ys) x = 2) xs = filter (\<lambda>x. x \<in> set ys) xs"
    using assms by (intro filter_cong) (auto simp: count_list_distinct)
  moreover have "filter (\<lambda>x. count_list (xs @ ys) x = 2) (filter (\<lambda>y. y \<notin> set xs) ys) = []"
    using assms by (auto simp: filter_empty_conv count_list_distinct)
  ultimately show ?thesis
    unfolding keys_with_count_tally keys_tally_append keys_tally_distinct[OF assms(1)]
      keys_tally_distinct[OF assms(2)] filter_append by simp
qed

subsection \<open>Rounds of lists\<close>

definition orders_ok :: "'sg hash_order \<Rightarrow> bool" where
  "orders_ok H \<longleftrightarrow> (\<forall>c. mset (order_counts H c) = mset c) \<and> (\<forall>s. mset (order_senders H s) = mset s)"

lemma hmap_decided:
  assumes "round_ok V client" "prompt V client"
    and "map (reported call) (sol_extra_rpc client) = map Some ls"
  obtains rs where
    "collect (length (sol_extra_rpc client)) (\<lambda>a url. AList.update url a) decide []
      (round_events (replies_of (env_rpc V) call (sol_extra_rpc client)) (env_schedule V)) =
     Some (Decided (decide rs))"
    "mset (map snd rs) = mset ls" "length rs = length ls"
proof -
  have l: "length ls = length (sol_extra_rpc client)" using assms(3) by (metis length_map)
  have p: "in_time (env_schedule V)" "{..<length (sol_extra_rpc client)} \<subseteq> heard (env_schedule V)"
    using assms(2) by (simp_all add: prompt_def)
  have a: "\<forall>i < length (sol_extra_rpc client).
      fst (replies_of (env_rpc V) call (sol_extra_rpc client) ! i) = Inr (ls ! i)"
    using assms(3) reported_all[OF l] by blast
  have n: "0 < length (sol_extra_rpc client)" using round_okD(1)[OF assms(1)] by simp
  obtain rs where rs: "collect (length (sol_extra_rpc client)) (\<lambda>a url. AList.update url a) decide []
      (round_events (replies_of (env_rpc V) call (sol_extra_rpc client)) (env_schedule V)) =
     Some (Decided (decide rs))"
    "mset rs = mset (map2 (\<lambda>a url. (url, a)) ls (map snd (replies_of (env_rpc V) call (sol_extra_rpc client))))"
    by (rule hmap.round_complete[OF round_okD(2)[OF assms(1)] p length_replies round_okD(3)[OF assms(1)] n a l])
  have "mset (map snd rs) = mset ls"
    using rs(2) l map_snd_map2[where f = "\<lambda>x. x" and xs = ls]
    by (metis length_map length_replies list.map_ident mset_map)
  moreover from this have "length rs = length ls" by (metis length_map size_mset)
  ultimately show ?thesis using that rs(1) by blast
qed

text \<open>
  C16: when all endpoints answer promptly and no answer, the judge's included, repeats an entry (entries
  are counted, not endpoints), \<open>getSignaturesForAddress\<close>
  returns the judge's first entry and then, in the judge's order, those of its other entries that
  every extra endpoint also has, whatever the order of the messages and of the hash maps.
\<close>

theorem get_signatures_intersects:
  assumes "round_ok V client" "prompt V client" "sol_json_ok (env_json V)" "orders_ok (env_order V)"
    and "fst (sigs_call (env_rpc V) key c (sol_judge_rpc client)) = Inr (first # judge)" "distinct judge"
    and "signature_from_str (env_json V) (sig_text (env_json V) first) = Inr b"
    and "map (reported (sigs_call (env_rpc V) key (Some (config_before b c)))) (sol_extra_rpc client) = map Some ls"
    and "\<forall>l \<in> set ls. distinct l"
  shows "fst (get_signatures_for_address V key c client) =
    Some (Inr (first # filter (\<lambda>s. \<forall>l \<in> set ls. s \<in> set l) judge))"
proof -
  let ?S = "env_json V" and ?it = "order_senders (env_order V)"
  have S: "\<And>x. sig_from_str ?S (sig_to_string ?S x) = Some x" using assms(3) by (simp add: sol_json_ok_def)
  obtain rs where rs: "sigs_round V key (Some (config_before b c)) (sol_extra_rpc client) =
      Some (Decided (deal_get_signatures_for_address_res ?S ?it rs))"
    "mset (map snd rs) = mset ls" "length rs = length ls"
    using hmap_decided[OF assms(1,2,8)] unfolding sigs_round_def by blast
  let ?ls = "map snd (?it rs)"
  have m: "mset ?ls = mset ls" using rs(2) assms(4) by (metis mset_map orders_ok_def)
  then have ls: "set ?ls = set ls" "length ?ls = length ls"
    using mset_eq_setD mset_eq_length by blast+
  have ne: "?ls \<noteq> []"
    using round_okD(1)[OF assms(1)] assms(8) ls(2) by (metis length_0_conv length_map)
  let ?sigs = "keys_with_count (length ?ls) (tally (concat ?ls))"
  have "deal_get_signatures_for_address_res ?S ?it rs = Inr ?sigs"
    unfolding deal_get_signatures_for_address_res_def Let_def unwrap_counted[where to = "sig_to_string ?S", OF S]
    using rs(3) ls(2) by simp
  moreover have "set ?sigs = {s. \<forall>l \<in> set ls. s \<in> set l}" "distinct ?sigs"
    using counted_intersection[of ?ls] assms(9) ne unfolding ls(1) by blast+
  moreover have "merge_signatures ?S first judge ?sigs = Inr (first # keys_with_count 2 (tally (judge @ ?sigs)))"
    unfolding merge_signatures_def Let_def map_append[symmetric] unwrap_counted[where to = "sig_to_string ?S", OF S]
    by simp
  ultimately show ?thesis
    using get_signatures_run[OF round_okD(1)[OF assms(1)] assms(5,7)] assms(6)
    by (simp add: rs(1) after_round_def counted_twice)
qed

theorem get_signatures_intersects_witness:
  "fst (get_signatures_for_address (sample_env sample_schedule) [] None sample_sol_client) =
     Some (Inr (''w'' # filter (\<lambda>s. \<forall>l \<in> set [[''x'', ''y''], [''y'', ''x''], [''x'']]. s \<in> set l) [''x'', ''y'']))"
  by (rule get_signatures_intersects[OF sample_round_ok sample_prompt])
    (simp_all add: sample_schedule_def map_filter_simps sample_sol_json_ok sigs_call_def
      sample_sol_rpc_def sample_sol_client_def ep_answer_def reported_ep orders_ok_def)

text \<open>
  the first entry of the judge is returned whatever the extra endpoints say: no other
  endpoint is asked about it.
\<close>

lemma get_signatures_head_unchecked:
  assumes "fst (get_signatures_for_address V key c client) = Some (Inr res)" "sol_extra_rpc client \<noteq> []"
  shows "\<exists>judge. fst (sigs_call (env_rpc V) key c (sol_judge_rpc client)) = Inr judge \<and>
    (judge = [] \<longleftrightarrow> res = []) \<and> (judge \<noteq> [] \<longrightarrow> hd res = hd judge)"
proof (cases "fst (sigs_call (env_rpc V) key c (sol_judge_rpc client))")
  case (Inl e)
  with assms fst_ask_judge[of "sigs_call (env_rpc V) key c" client] show ?thesis
    unfolding get_signatures_for_address_def sigs_call_def[symmetric] by (auto split: prod.splits)
next
  case (Inr judge)
  obtain client' where j: "ask_judge (sigs_call (env_rpc V) key c) client = (Inr judge, client')"
    using Inr by (rule ask_judge_Inr)
  show ?thesis
  proof (cases judge)
    case Nil
    with assms(1) j Inr show ?thesis
      unfolding get_signatures_for_address_def sigs_call_def[symmetric] by simp
  next
    case (Cons first rest)
    show ?thesis
    proof (cases "signature_from_str (env_json V) (sig_text (env_json V) first)")
      case (Inl e)
      with assms(1) j Cons show ?thesis
        unfolding get_signatures_for_address_def sigs_call_def[symmetric] by simp
    next
      case (Inr b)
      from assms(1)[unfolded get_signatures_run[OF assms(2)
          \<open>fst (sigs_call (env_rpc V) key c (sol_judge_rpc client)) = Inr judge\<close>[unfolded Cons] Inr]]
      obtain sigs where "merge_signatures (env_json V) first rest sigs = Inr res"
        by (auto dest!: after_round_Inr)
      then have "hd res = first" "res \<noteq> []" by (auto simp: merge_signatures_def Let_def res_simps)
      with Cons \<open>fst (sigs_call _ _ _ _) = Inr judge\<close> show ?thesis by simp
    qed
  qed
qed

lemma get_signatures_head_unchecked_witness:
  "\<exists>judge. fst (sigs_call sample_sol_rpc [] None (''j'', 9, [''w'', ''x'', ''y''])) = Inr judge \<and>
     (judge = [] \<longleftrightarrow> [''w'', ''x''] = ([] :: string list)) \<and> (judge \<noteq> [] \<longrightarrow> hd [''w'', ''x''] = hd judge)"
proof -
  have "fst (get_signatures_for_address (sample_env sample_schedule) [] None sample_sol_client) =
      Some (Inr [''w'', ''x''])"
    by code_simp
  from get_signatures_head_unchecked[OF this] show ?thesis by (simp add: sample_sol_client_def)
qed

text \<open>
  Counting replaces intersecting: a single extra endpoint that lists an entry as often as
  there are endpoints, none of the others having it, puts it into the extra endpoints' answer; and
  the judge alone, listing an entry twice, has it returned.
\<close>

lemma repetitions_forge_signatures:
  assumes "sol_json_ok S"
  shows "deal_get_signatures_for_address_res S (\<lambda>s. s)
      ((url, replicate (Suc (length others)) s) # map (\<lambda>other. (other, [])) others) = Inr [s] \<and>
    merge_signatures S first [s, s] [] = Inr [first, s]"
proof -
  have S: "\<And>x. sig_from_str S (sig_to_string S x) = Some x" using assms by (simp add: sol_json_ok_def)
  have t: "tally (replicate (Suc n) s) = [(s, Suc n)]" for n
  proof (induction n)
    case (Suc n)
    have "replicate (Suc (Suc n)) s = replicate (Suc n) s @ [s]" by (simp add: replicate_append_same)
    with Suc show ?case by (simp only: tally_snoc) (simp add: count_entry_def)
  qed (simp add: tally_def count_entry_def)
  let ?m = "(url, replicate (Suc (length others)) s) # map (\<lambda>other. (other, [])) others"
  have "concat (map snd ?m) = replicate (Suc (length others)) s"
    by (simp add: o_def)
  then have "deal_get_signatures_for_address_res S (\<lambda>s. s) ?m = Inr [s]"
    unfolding deal_get_signatures_for_address_res_def Let_def
    by (simp only: unwrap_counted[where to = "sig_to_string S", OF S] t) (simp add: keys_with_count_def)
  moreover have "merge_signatures S first [s, s] [] = Inr [first, s]"
    unfolding merge_signatures_def Let_def map_append[symmetric] unwrap_counted[where to = "sig_to_string S", OF S]
    using t[of 1] by (simp add: keys_with_count_def numeral_2_eq_2)
  ultimately show ?thesis by blast
qed

lemma repetitions_forge_signatures_witness:
  "deal_get_signatures_for_address_res sample_sol_json (\<lambda>s. s)
      ((''a'', replicate (Suc (length [''b'', ''c''])) ''s'') # map (\<lambda>other. (other, [])) [''b'', ''c'']) =
      Inr [''s''] \<and>
    merge_signatures sample_sol_json ''f'' [''s'', ''s''] [] = Inr [''f'', ''s'']"
  by (rule repetitions_forge_signatures[OF sample_sol_json_ok])

text \<open>
  C23: when all endpoints answer promptly and no answer, the judge's included, repeats an account (accounts
  are counted, not endpoints), \<open>getProgramAccounts\<close> returns
  the accounts that the judge and every extra endpoint have, in an arbitrary order.
\<close>

theorem get_program_accounts_intersects:
  assumes "round_ok V client" "prompt V client" "sol_json_ok (env_json V)" "orders_ok (env_order V)"
    and "fst (pacc_call (env_rpc V) key c (sol_judge_rpc client)) = Inr judge" "distinct judge"
    and "map (reported (pacc_call (env_rpc V) key c)) (sol_extra_rpc client) = map Some ls"
    and "\<forall>l \<in> set ls. distinct l"
  shows "\<exists>res. fst (get_program_accounts V key c client) = Some (Inr res) \<and>
    set res = {a \<in> set judge. \<forall>l \<in> set ls. a \<in> set l}"
proof -
  let ?S = "env_json V" and ?it = "order_counts (env_order V)"
  have S: "\<And>x. pacc_from_str ?S (pacc_to_string ?S x) = Some x" using assms(3) unfolding sol_json_ok_def by blast
  have it: "mset (?it c) = mset c" for c using assms(4) by (simp add: orders_ok_def)
  obtain rs where rs: "pacc_round V key c (sol_extra_rpc client) =
      Some (Decided (deal_get_program_accounts_res ?S ?it rs))"
    "mset (map snd rs) = mset ls" "length rs = length ls"
    using hmap_decided[OF assms(1,2,7)] unfolding pacc_round_def by blast
  have ls: "set (map snd rs) = set ls" using rs(2) mset_eq_setD by blast
  have ne: "map snd rs \<noteq> []"
    using round_okD(1)[OF assms(1)] assms(7) rs(3) by (metis length_0_conv length_map)
  obtain accs where accs: "deal_get_program_accounts_res ?S ?it rs = Inr accs" "distinct accs"
      "set accs = set (keys_with_count (length (map snd rs)) (tally (concat (map snd rs))))"
    using unwrap_counted_order[where to = "pacc_to_string ?S" and it = ?it, OF S it]
    unfolding deal_get_program_accounts_res_def Let_def length_map by metis
  have a: "set accs = {a. \<forall>l \<in> set ls. a \<in> set l}"
    using counted_intersection(1)[of "map snd rs"] assms(8) ne unfolding accs(3) ls by blast
  obtain res where "merge_program_accounts ?S ?it judge accs = Inr res"
      "set res = set (keys_with_count 2 (tally (judge @ accs)))"
    using unwrap_counted_order[where to = "pacc_to_string ?S" and it = ?it, OF S it]
    unfolding merge_program_accounts_def Let_def map_append[symmetric] by metis
  moreover from this have "set res = {a \<in> set judge. \<forall>l \<in> set ls. a \<in> set l}"
    unfolding counted_twice[OF assms(6) accs(2)] using a by auto
  ultimately show ?thesis
    using get_program_accounts_run[OF round_okD(1)[OF assms(1)] assms(5)] rs(1) accs(1)
    by (simp add: after_round_def)
qed

theorem get_program_accounts_intersects_witness:
  "\<exists>res. fst (get_program_accounts (sample_env sample_schedule) [] None sample_sol_client) = Some (Inr res) \<and>
     set res = {a \<in> set [([], ''w''), ([], ''x''), ([], ''y'')].
       \<forall>l \<in> set [[([], ''x''), ([], ''y'')], [([], ''y''), ([], ''x'')], [([], ''x'')]]. a \<in> set l}"
  by (rule get_program_accounts_intersects[OF sample_round_ok sample_prompt])
    (simp_all add: sample_schedule_def map_filter_simps sample_sol_json_ok pacc_call_def
      sample_sol_rpc_def sample_sol_client_def ep_answer_def reported_ep orders_ok_def)

subsection \<open>Start\<close>

text \<open>
  C31: a client started with the Solana service on has extra endpoints, with different URLs, all those of the
  option and no other, and the judge of its option; unless the environment variable that allows a
  single endpoint is set, their number is odd and at least three.
\<close>

theorem initialize_sol_client_quorum:
  assumes "initialize_sol_client R it single_rpc service judge_url extra_urls = Inr (Some client)"
    and "\<And>us. mset (it us) = mset us" "\<And>u. rpc_url R (rpc_new R u) = u"
    and "\<And>w. rpc_url R (snd (rpc_get_health R w)) = rpc_url R w"
  shows "(\<not> single_rpc \<longrightarrow> odd (length (sol_extra_rpc client)) \<and> 3 \<le> length (sol_extra_rpc client)) \<and>
    sol_extra_rpc client \<noteq> [] \<and> urls_ok R (sol_extra_rpc client) \<and>
    set (map (rpc_url R) (sol_extra_rpc client)) = set (split_char (CHR '','') extra_urls) \<and>
    rpc_url R (sol_judge_rpc client) = judge_url"
proof -
  let ?us = "it (remdups (split_char (CHR '','') extra_urls))"
  have av: "map (rpc_url R) (snd (is_all_client_available R ws)) = map (rpc_url R) ws" for ws
    using assms(4) by (induction ws) (auto split: prod.splits, metis snd_conv)
  obtain ws where ws: "snd (is_all_client_available R (map (rpc_new R) ?us @ [rpc_new R judge_url])) = ws"
      "client = \<lparr>sol_extra_rpc = butlast ws, sol_judge_rpc = last ws\<rparr>"
    "\<not> single_rpc \<longrightarrow> 3 \<le> length ?us \<and> odd (length ?us)"
    using assms(1) by (auto simp: initialize_sol_client_def Let_def odd_iff_mod_2_eq_one split: if_splits prod.splits bool.splits)
  have "map (rpc_url R) ws = ?us @ [judge_url]"
    using av[of "map (rpc_new R) ?us @ [rpc_new R judge_url]"] ws(1) assms(3) by (simp add: o_def)
  then have "map (rpc_url R) (butlast ws) = ?us" "rpc_url R (last ws) = judge_url" "ws \<noteq> []"
    by (auto simp: map_butlast last_map) (metis last_map last_snoc Nil_is_map_conv snoc_eq_iff_butlast)
  moreover from this have "length (butlast ws) = length ?us" by (metis length_map)
  moreover have "distinct ?us" "set ?us = set (split_char (CHR '','') extra_urls)"
    using assms(2)[of "remdups (split_char (CHR '','') extra_urls)"]
    by (metis distinct_remdups mset_eq_imp_distinct_iff) (metis assms(2) mset_eq_setD set_remdups)
  moreover have "split_char (CHR '','') extra_urls \<noteq> []"
    by (cases extra_urls) (auto split: list.split)
  ultimately show ?thesis using ws(2,3) by (auto simp: urls_ok_def simp flip: set_map)
qed

theorem initialize_sol_client_quorum_witness:
  "\<exists>client. initialize_sol_client sample_sol_rpc (\<lambda>us. us) False (start_services [''sol'']) ''j'' ''a,b,c,a'' =
     Inr (Some client) \<and> odd (length (sol_extra_rpc client)) \<and> 3 \<le> length (sol_extra_rpc client) \<and>
     urls_ok sample_sol_rpc (sol_extra_rpc client)"
proof -
  let ?c = "\<lparr>sol_extra_rpc = [(''b'', 1, []), (''c'', 1, []), (''a'', 1, [])],
    sol_judge_rpc = (''j'', 1, [])\<rparr> :: endpoint sol_client"
  have r: "initialize_sol_client sample_sol_rpc (\<lambda>us. us) False (start_services [''sol'']) ''j'' ''a,b,c,a'' =
      Inr (Some ?c)"
    by code_simp
  have "(\<not> False \<longrightarrow> odd (length (sol_extra_rpc ?c)) \<and> 3 \<le> length (sol_extra_rpc ?c)) \<and>
      sol_extra_rpc ?c \<noteq> [] \<and> urls_ok sample_sol_rpc (sol_extra_rpc ?c) \<and>
      set (map (rpc_url sample_sol_rpc) (sol_extra_rpc ?c)) = set (split_char (CHR '','') ''a,b,c,a'') \<and>
      rpc_url sample_sol_rpc (sol_judge_rpc ?c) = ''j''"
    by (rule initialize_sol_client_quorum[OF r])
      (auto simp: sample_sol_rpc_def ep_answer_def)
  with r show ?thesis by blast
qed

end
