(* ===== verification/Eth_Rpc.thy ===== *)
theory Eth_Rpc
  imports Chain_State Btc_Rpc
begin

text \<open>
  \<open>ethrpc/mod.rs\<close>: the JSON-RPC endpoints \<open>/eth\<close>, \<open>/eth2\<close> and \<open>/optimism\<close>. They ask a light
  client of the helios library, which is the argument \<open>H\<close> on a client state \<open>'e\<close>; its filters,
  logs, blocks and receipts are values of a type \<open>'h\<close>. Receipts are kept in the response cache
  that the Bitcoin endpoints use too. The requests of a batch are awaited one after the other.
\<close>

subsection \<open>Interfaces\<close>

record ('e, 'h, 'v) helios_api =
  hl_filter :: "'v \<Rightarrow> string + 'h"
  hl_hash_from_hex :: "string \<Rightarrow> string + bytes"
  hl_get_logs :: "'e \<Rightarrow> 'h \<Rightarrow> (string + 'h) \<times> 'e"
  hl_get_block_by_number :: "'e \<Rightarrow> u64 \<Rightarrow> (string + 'h option) \<times> 'e"
  hl_get_transaction_receipt :: "'e \<Rightarrow> bytes \<Rightarrow> (string + 'h option) \<times> 'e"
  hl_chain_id :: "'e \<Rightarrow> u64 \<times> 'e"
  hl_get_block_number :: "'e \<Rightarrow> (string + 256 word) \<times> 'e"
  hl_to_value :: "'h \<Rightarrow> string + 'v"

subsection \<open>Numbers\<close>

text \<open>\<open>str::parse::<u64>\<close>: an optional plus sign and decimal digits, at most the greatest \<open>u64\<close>.\<close>

datatype parse_int_error = Empty | Invalid_Digit | Pos_Overflow

definition to_digit :: "char \<Rightarrow> nat option" where
  "to_digit c = (let n = of_char c :: nat in if 48 \<le> n \<and> n \<le> 57 then Some (n - 48) else None)"

fun parse_digits :: "nat \<Rightarrow> string \<Rightarrow> parse_int_error + nat" where
  "parse_digits acc [] = Inr acc"
| "parse_digits acc (c # cs) =
     (case to_digit c of
        None \<Rightarrow> Inl Invalid_Digit
      | Some d \<Rightarrow>
          if acc * 10 \<ge> 2 ^ 64 \<or> acc * 10 + d \<ge> 2 ^ 64 then Inl Pos_Overflow
          else parse_digits (acc * 10 + d) cs)"

definition parse_u64 :: "string \<Rightarrow> parse_int_error + u64" where
  "parse_u64 s =
     (if s = [] then Inl Empty
      else if s = ''+'' \<or> s = ''-'' then Inl Invalid_Digit
      else map_sum id of_nat (parse_digits 0 (if hd s = CHR ''+'' then tl s else s)))"

subsection \<open>Requests and responses\<close>

datatype eth_text =
    Eth_Params_Not_Array
  | Eth_Method_Unsupported string
  | Eth_Wrong_Params_Number
  | Eth_Filter_Error string
  | Eth_Params_Type_Wrong
  | Eth_Error_Number parse_int_error
  | Eth_Error_Tx_Hash
  | Eth_H256_Error string
  | Helios_Error string

record 'v eth_resp =
  er_jsonrpc :: string
  er_error :: "eth_text option"
  er_id :: 'v
  er_result :: "'v option"

definition create_eth_response :: "eth_text option \<Rightarrow> 'v \<Rightarrow> 'v option \<Rightarrow> 'v eth_resp" where
  "create_eth_response err i result =
     \<lparr>er_jsonrpc = ''2.0'', er_error = err, er_id = i, er_result = result\<rparr>"

text \<open>
  The two serialised forms of a response: with a result, or with an error object of the fixed
  code. \<open>ser\<close> is the JSON text of a reply.
\<close>

record 'v json_rpc_error =
  je_code :: int
  je_message :: eth_text
  je_data :: "'v option"

datatype 'v eth_reply =
    Eth_Resp_Ok string 'v "'v option"
  | Eth_Resp_Err string "'v json_rpc_error" 'v

fun convert :: "('v eth_reply \<Rightarrow> string) \<Rightarrow> 'v eth_resp list \<Rightarrow> string list" where
  "convert ser [] = []"
| "convert ser (input # inputs) =
     ser (case er_error input of
            None \<Rightarrow> Eth_Resp_Ok (er_jsonrpc input) (er_id input) (er_result input)
          | Some e \<Rightarrow> Eth_Resp_Err (er_jsonrpc input) \<lparr>je_code = - 999, je_message = e, je_data = None\<rparr> (er_id input))
     # convert ser inputs"

subsection \<open>Handlers\<close>

type_synonym ('e, 'v) eth_state = "'e \<times> (bytes, 'v) simple_cache"

text \<open>\<open>serde_json::to_value(..).unwrap()\<close> on a value of the library.\<close>

definition eth_value :: "('e, 'h, 'v) helios_api \<Rightarrow> 'h \<Rightarrow> (unit, 'v) res" where
  "eth_value H x = (case hl_to_value H x of Inl _ \<Rightarrow> Inl (Panic ''to_value'') | Inr v \<Rightarrow> Inr v)"

definition handle_get_logs ::
    "('e, 'h, 'v) helios_api \<Rightarrow> 'v list \<Rightarrow> 'v \<Rightarrow> ('e, unit, 'v eth_resp) act" where
  "handle_get_logs H params i e =
     (if length params \<noteq> 1 then (Inr (create_eth_response (Some Eth_Wrong_Params_Number) i None), e)
      else (case hl_filter H (params ! 0) of
              Inl err \<Rightarrow> (Inr (create_eth_response (Some (Eth_Filter_Error err)) i None), e)
            | Inr flt \<Rightarrow>
                (case hl_get_logs H e flt of
                   (Inr logs, e) \<Rightarrow>
                     (bind_res (eth_value H logs) (\<lambda>v. Inr (create_eth_response None i (Some v))), e)
                 | (Inl err, e) \<Rightarrow> (Inr (create_eth_response (Some (Helios_Error err)) i None), e))))"

definition handle_get_block_by_number ::
    "'v json_api \<Rightarrow> ('e, 'h, 'v) helios_api \<Rightarrow> 'v list \<Rightarrow> 'v \<Rightarrow> ('e, unit, 'v eth_resp) act" where
  "handle_get_block_by_number J H params i e =
     (if length params \<noteq> 1 then (Inr (create_eth_response (Some Eth_Wrong_Params_Number) i None), e)
      else (case jas_str J (params ! 0) of
              None \<Rightarrow> (Inr (create_eth_response (Some Eth_Params_Type_Wrong) i None), e)
            | Some height \<Rightarrow>
                (case parse_u64 height of
                   Inl err \<Rightarrow> (Inr (create_eth_response (Some (Eth_Error_Number err)) i None), e)
                 | Inr num \<Rightarrow>
                     (case hl_get_block_by_number H e num of
                        (Inr (Some block), e) \<Rightarrow>
                          (bind_res (eth_value H block) (\<lambda>v. Inr (create_eth_response None i (Some v))), e)
                      | (Inr None, e) \<Rightarrow> (Inr (create_eth_response None i None), e)
                      | (Inl err, e) \<Rightarrow> (Inr (create_eth_response (Some (Helios_Error err)) i None), e)))))"

definition handle_get_transaction_receipt ::
    "'v json_api \<Rightarrow> ('e, 'h, 'v) helios_api \<Rightarrow> 'v list \<Rightarrow> 'v \<Rightarrow> (('e, 'v) eth_state, unit, 'v eth_resp) act" where
  "handle_get_transaction_receipt J H params i = (\<lambda>(e, cache).
     if length params \<noteq> 1
     then (Inr (create_eth_response (Some Eth_Wrong_Params_Number) i None), (e, cache))
     else
       (case jas_str J (params ! 0) of
          None \<Rightarrow> (Inr (create_eth_response (Some Eth_Error_Tx_Hash) i None), (e, cache))
        | Some hex \<Rightarrow>
            (case hl_hash_from_hex H hex of
               Inl err \<Rightarrow> (Inr (create_eth_response (Some (Eth_H256_Error err)) i None), (e, cache))
             | Inr txhash \<Rightarrow>
                 (case cache_get cache txhash of
                    Some receipt \<Rightarrow> (Inr (create_eth_response None i (Some receipt)), (e, cache))
                  | None \<Rightarrow>
                      (case hl_get_transaction_receipt H e txhash of
                         (Inr (Some receipt), e) \<Rightarrow>
                           (case eth_value H receipt of
                              Inl f \<Rightarrow> (Inl f, (e, cache))
                            | Inr receipt_str \<Rightarrow>
                                (Inr (create_eth_response None i (Some receipt_str)),
                                 (e, cache_insert cache txhash receipt_str)))
                       | (Inr None, e) \<Rightarrow> (Inr (create_eth_response None i None), (e, cache))
                       | (Inl err, e) \<Rightarrow>
                           (Inr (create_eth_response (Some (Helios_Error err)) i None), (e, cache)))))))"

text \<open>A handler that uses the client only.\<close>

definition on_client :: "('e, unit, 'r) act \<Rightarrow> ('e \<times> 'c, unit, 'r) act" where
  "on_client m = (\<lambda>(e, cache). case m e of (r, e) \<Rightarrow> (r, (e, cache)))"

type_synonym 'v eth_req = "'v btc_req"

definition handle_request ::
    "'v json_api \<Rightarrow> ('e, 'h, 'v) helios_api \<Rightarrow> 'v eth_req \<Rightarrow> (('e, 'v) eth_state, unit, 'v eth_resp) act" where
  "handle_request J H req s =
     (case jas_array J (bq_params req) of
        None \<Rightarrow> (Inr (create_eth_response (Some Eth_Params_Not_Array) (bq_id req) None), s)
      | Some params \<Rightarrow>
          if bq_method req = ''eth_getLogs'' then on_client (handle_get_logs H params (bq_id req)) s
          else if bq_method req = ''eth_getBlockByNumber''
            then on_client (handle_get_block_by_number J H params (bq_id req)) s
          else if bq_method req = ''eth_getTransactionReceipt''
            then handle_get_transaction_receipt J H params (bq_id req) s
          else (Inr (create_eth_response (Some (Eth_Method_Unsupported (bq_method req))) (bq_id req) None), s))"

text \<open>The source repeats the four handlers for the Optimism client, word by word.\<close>

definition handle_get_logs_op ::
    "('o, 'h, 'v) helios_api \<Rightarrow> 'v list \<Rightarrow> 'v \<Rightarrow> ('o, unit, 'v eth_resp) act" where
  "handle_get_logs_op H params i = handle_get_logs H params i"

definition handle_get_block_by_number_op ::
    "'v json_api \<Rightarrow> ('o, 'h, 'v) helios_api \<Rightarrow> 'v list \<Rightarrow> 'v \<Rightarrow> ('o, unit, 'v eth_resp) act" where
  "handle_get_block_by_number_op J H params i = handle_get_block_by_number J H params i"

definition handle_get_transaction_receipt_op ::
    "'v json_api \<Rightarrow> ('o, 'h, 'v) helios_api \<Rightarrow> 'v list \<Rightarrow> 'v \<Rightarrow> (('o, 'v) eth_state, unit, 'v eth_resp) act" where
  "handle_get_transaction_receipt_op J H params i = handle_get_transaction_receipt J H params i"

definition handle_request_op ::
    "'v json_api \<Rightarrow> ('o, 'h, 'v) helios_api \<Rightarrow> 'v eth_req \<Rightarrow> (('o, 'v) eth_state, unit, 'v eth_resp) act" where
  "handle_request_op J H req s =
     (case jas_array J (bq_params req) of
        None \<Rightarrow> (Inr (create_eth_response (Some Eth_Params_Not_Array) (bq_id req) None), s)
      | Some params \<Rightarrow>
          if bq_method req = ''eth_getLogs'' then on_client (handle_get_logs_op H params (bq_id req)) s
          else if bq_method req = ''eth_getBlockByNumber''
            then on_client (handle_get_block_by_number_op J H params (bq_id req)) s
          else if bq_method req = ''eth_getTransactionReceipt''
            then handle_get_transaction_receipt_op J H params (bq_id req) s
          else (Inr (create_eth_response (Some (Eth_Method_Unsupported (bq_method req))) (bq_id req) None), s))"

subsection \<open>Endpoints\<close>

text \<open>
  \<open>sign\<close> is the enclave's signature on a text. \<open>/eth\<close> takes a batch and does not sign; a
  batch of one is answered with the bare response, any other with the list \<open>ser_list\<close> of texts.
\<close>

fun handle_requests ::
    "'v json_api \<Rightarrow> ('e, 'h, 'v) helios_api \<Rightarrow> 'v eth_req list \<Rightarrow> (('e, 'v) eth_state, unit, 'v eth_resp list) act" where
  "handle_requests J H [] = ret_act (Inr [])"
| "handle_requests J H (req # reqs) =
     bind_act (handle_request J H req) (\<lambda>resp.
     bind_act (handle_requests J H reqs) (\<lambda>resps. ret_act (Inr (resp # resps))))"

definition eth ::
    "'v json_api \<Rightarrow> ('e, 'h, 'v) helios_api \<Rightarrow> ('v eth_reply \<Rightarrow> string) \<Rightarrow> (string list \<Rightarrow> string)
      \<Rightarrow> 'v eth_req list \<Rightarrow> (('w, 'db, 'p, 'e, 'o, 's, 'v) chains_state, unit, string) act" where
  "eth J H ser ser_list payload st =
     (case helios_client st of
        None \<Rightarrow> (Inl (Panic ''eth: helios_client''), st)
      | Some e \<Rightarrow>
          (case handle_requests J H payload (e, response_cache st) of
             (r, e, cache) \<Rightarrow>
               (bind_res r (\<lambda>resps_all.
                  let resp = convert ser resps_all
                  in Inr (if length resp = 1 then resp ! 0 else ser_list resp)),
                st\<lparr>helios_client := Some e, response_cache := cache\<rparr>)))"

definition eth2 ::
    "'v json_api \<Rightarrow> ('e, 'h, 'v) helios_api \<Rightarrow> ('v eth_reply \<Rightarrow> string) \<Rightarrow> (string \<Rightarrow> string)
      \<Rightarrow> 'v eth_req \<Rightarrow> (('w, 'db, 'p, 'e, 'o, 's, 'v) chains_state, unit, string) act" where
  "eth2 J H ser sign payload st =
     (case helios_client st of
        None \<Rightarrow> (Inl (Panic ''eth2: helios_client''), st)
      | Some e \<Rightarrow>
          (case handle_request J H payload (e, response_cache st) of
             (r, e, cache) \<Rightarrow>
               (bind_res r (\<lambda>resp. Inr (sign (convert ser [resp] ! 0))),
                st\<lparr>helios_client := Some e, response_cache := cache\<rparr>)))"

definition optimism ::
    "'v json_api \<Rightarrow> ('o, 'h, 'v) helios_api \<Rightarrow> ('v eth_reply \<Rightarrow> string) \<Rightarrow> (string \<Rightarrow> string)
      \<Rightarrow> 'v eth_req \<Rightarrow> (('w, 'db, 'p, 'e, 'o, 's, 'v) chains_state, unit, string) act" where
  "optimism J H ser sign payload st =
     (case helios_op_client st of
        None \<Rightarrow> (Inl (Panic ''optimism: helios_op_client''), st)
      | Some e \<Rightarrow>
          (case handle_request_op J H payload (e, response_cache st) of
             (r, e, cache) \<Rightarrow>
               (bind_res r (\<lambda>resp. Inr (sign (convert ser [resp] ! 0))),
                st\<lparr>helios_op_client := Some e, response_cache := cache\<rparr>)))"

end
