(* ===== verification/Sol_Rpc.thy ===== *)
theory Sol_Rpc
  imports Chain_State Btc_Rpc Sol_Query
begin

text \<open>
  \<open>solrpc/mod.rs\<close>: the JSON-RPC endpoint \<open>/sol\<close>. A request is parsed, handed to the Solana client
  and answered; transactions are kept in the shared response cache under their signature. The
  result \<open>None\<close> of a handler says that the dispatcher has not answered yet.
\<close>

subsection \<open>Interfaces\<close>

text \<open>
  Parsing of keys, signatures and request options, and the JSON values of the answers (whose
  construction does not fail).
\<close>

record 'c raw_sig_config =
  rs_before :: "string option"
  rs_until :: "string option"
  rs_limit :: "u64 option"
  rs_commitment :: "'c option"

record ('c, 'tx, 'acc, 'sg, 'v) sol_values =
  pubkey_from_str :: "string \<Rightarrow> string + pubkey"
  sv_signature :: "string \<Rightarrow> string + signature"
  de_program_config :: "'v \<Rightarrow> string + 'c option"
  de_signatures_config :: "'v \<Rightarrow> string + 'c raw_sig_config option"
  de_account_config :: "'v \<Rightarrow> string + 'c option"
  de_commitment :: "'v \<Rightarrow> string + 'c option"
  de_tx_config :: "'v \<Rightarrow> string + 'c option"
  program_accounts_value :: "(pubkey \<times> 'acc) list \<Rightarrow> 'v"
  signatures_value :: "'sg list \<Rightarrow> 'v"
  account_value :: "'acc option \<Rightarrow> 'v"
  slot_value :: "u64 \<Rightarrow> 'v"
  tx_value :: "'tx \<Rightarrow> 'v"
  tx_from_value :: "'v \<Rightarrow> string + 'tx"

subsection \<open>Requests and responses\<close>

datatype sol_method =
    GetTransaction | GetSlot | GetAccountInfo | GetSignaturesForAddress | GetProgramAccounts

datatype sol_rpc_text =
    Unsupported_Method string
  | Sol_Params_Not_Array
  | Sol_Wrong_Params_Number
  | Sol_Wrong_Params_Type
  | Invalid_Pubkey string
  | Invalid_Signature string
  | Invalid_Config string string
  | Client_Error shown_error

definition sol_method_from :: "string \<Rightarrow> sol_rpc_text + sol_method" where
  "sol_method_from value =
     (if value = ''getTransaction'' then Inr GetTransaction
      else if value = ''getSlot'' then Inr GetSlot
      else if value = ''getAccountInfo'' then Inr GetAccountInfo
      else if value = ''getSignaturesForAddress'' then Inr GetSignaturesForAddress
      else if value = ''getProgramAccounts'' then Inr GetProgramAccounts
      else Inl (Unsupported_Method value))"

type_synonym 'v sol_req = "'v btc_req"

record 'v sol_resp =
  sr_jsonrpc :: string
  sr_error :: "sol_rpc_text option"
  sr_id :: 'v
  sr_result :: "'v option"

definition create_sol_response :: "sol_rpc_text option \<Rightarrow> 'v \<Rightarrow> 'v option \<Rightarrow> 'v sol_resp" where
  "create_sol_response err i result =
     \<lparr>sr_jsonrpc = ''2.0'', sr_error = err, sr_id = i, sr_result = result\<rparr>"

record 'v sol_json_rpc_error =
  sje_code :: int
  sje_message :: sol_rpc_text
  sje_data :: "'v option"

datatype 'v sol_reply =
    Sol_Resp_Ok string 'v "'v option"
  | Sol_Resp_Err string "'v sol_json_rpc_error" 'v

fun sol_convert :: "('v sol_reply \<Rightarrow> string) \<Rightarrow> 'v sol_resp list \<Rightarrow> string list" where
  "sol_convert ser [] = []"
| "sol_convert ser (input # inputs) =
     ser (case sr_error input of
            None \<Rightarrow> Sol_Resp_Ok (sr_jsonrpc input) (sr_id input) (sr_result input)
          | Some e \<Rightarrow> Sol_Resp_Err (sr_jsonrpc input) \<lparr>sje_code = - 999, sje_message = e, sje_data = None\<rparr> (sr_id input))
     # sol_convert ser inputs"

subsection \<open>Handlers\<close>

type_synonym ('w, 'v) sol_state = "'w sol_client \<times> (bytes, 'v) simple_cache"
type_synonym ('s, 'a) waiting_act = "'s \<Rightarrow> (unit, 'a) res option \<times> 's"

text \<open>The first parameter as a key, or the error text to answer with.\<close>

definition pubkey_param ::
    "'v json_api \<Rightarrow> ('c, 'tx, 'acc, 'sg, 'v) sol_values \<Rightarrow> 'v list \<Rightarrow> sol_rpc_text + pubkey" where
  "pubkey_param J L params =
     (case params of
        [] \<Rightarrow> Inl Sol_Wrong_Params_Number
      | pbk_v # _ \<Rightarrow>
          (case jas_str J pbk_v of
             None \<Rightarrow> Inl Sol_Wrong_Params_Type
           | Some pbk_s \<Rightarrow>
               (case pubkey_from_str L pbk_s of Inl err \<Rightarrow> Inl (Invalid_Pubkey err) | Inr pbk \<Rightarrow> Inr pbk)))"

definition config_param :: "string \<Rightarrow> ('v \<Rightarrow> string + 'x option) \<Rightarrow> nat \<Rightarrow> 'v list \<Rightarrow> sol_rpc_text + 'x option" where
  "config_param what de n params =
     (if n < length params
      then (case de (params ! n) of Inl err \<Rightarrow> Inl (Invalid_Config what err) | Inr config \<Rightarrow> Inr config)
      else Inr None)"

text \<open>The answer to a result of the client.\<close>

definition sol_answer ::
    "('a \<Rightarrow> 'v) \<Rightarrow> 'v \<Rightarrow> (sol_error, 'a) res option \<Rightarrow> (unit, 'v sol_resp) res option" where
  "sol_answer to_value i r =
     map_option (\<lambda>r. case r of
        Inr a \<Rightarrow> Inr (create_sol_response None i (Some (to_value a)))
      | Inl (Err err) \<Rightarrow> Inr (create_sol_response (Some (Client_Error (show_sol_error err))) i None)
      | Inl (Panic site) \<Rightarrow> Inl (Panic site)) r"

definition handle_get_program_accounts ::
    "'v json_api \<Rightarrow> ('c, 'tx, 'acc, 'sg, 'v) sol_values \<Rightarrow> ('w, 'c, 'tx, 'acc, 'sg) sol_env \<Rightarrow> 'v list \<Rightarrow> 'v
      \<Rightarrow> ('w sol_client, 'v sol_resp) waiting_act" where
  "handle_get_program_accounts J L V params i client =
     (case pubkey_param J L params of
        Inl text \<Rightarrow> (Some (Inr (create_sol_response (Some text) i None)), client)
      | Inr key \<Rightarrow>
          (case config_param ''RpcAccountInfoConfig'' (de_program_config L) 1 params of
             Inl text \<Rightarrow> (Some (Inr (create_sol_response (Some text) i None)), client)
           | Inr config \<Rightarrow>
               (case get_program_accounts V key config client of
                  (r, client) \<Rightarrow> (sol_answer (program_accounts_value L) i r, client))))"

text \<open>The options of \<open>getSignaturesForAddress\<close>, whose two signatures are parsed one after the other.\<close>

definition parse_opt_signature ::
    "('c, 'tx, 'acc, 'sg, 'v) sol_values \<Rightarrow> string option \<Rightarrow> sol_rpc_text + signature option" where
  "parse_opt_signature L s =
     (case s of
        None \<Rightarrow> Inr None
      | Some b \<Rightarrow> (case sv_signature L b of Inl err \<Rightarrow> Inl (Invalid_Config ''RpcSignaturesForAddressConfig'' err) | Inr sig \<Rightarrow> Inr (Some sig)))"

definition signatures_config ::
    "('c, 'tx, 'acc, 'sg, 'v) sol_values \<Rightarrow> 'v list \<Rightarrow> sol_rpc_text + 'c sig_config option" where
  "signatures_config L params =
     (case config_param ''RpcSignaturesForAddressConfig'' (de_signatures_config L) 1 params of
        Inl text \<Rightarrow> Inl text
      | Inr None \<Rightarrow> Inr None
      | Inr (Some config) \<Rightarrow>
          (case parse_opt_signature L (rs_before config) of
             Inl text \<Rightarrow> Inl text
           | Inr before \<Rightarrow>
               (case parse_opt_signature L (rs_until config) of
                  Inl text \<Rightarrow> Inl text
                | Inr until \<Rightarrow>
                    Inr (Some \<lparr>sc_before = before, sc_until = until, sc_limit = rs_limit config,
                      sc_commitment = rs_commitment config\<rparr>))))"

definition handle_get_signatures_for_address ::
    "'v json_api \<Rightarrow> ('c, 'tx, 'acc, 'sg, 'v) sol_values \<Rightarrow> ('w, 'c, 'tx, 'acc, 'sg) sol_env \<Rightarrow> 'v list \<Rightarrow> 'v
      \<Rightarrow> ('w sol_client, 'v sol_resp) waiting_act" where
  "handle_get_signatures_for_address J L V params i client =
     (case pubkey_param J L params of
        Inl text \<Rightarrow> (Some (Inr (create_sol_response (Some text) i None)), client)
      | Inr key \<Rightarrow>
          (case signatures_config L params of
             Inl text \<Rightarrow> (Some (Inr (create_sol_response (Some text) i None)), client)
           | Inr config \<Rightarrow>
               (case get_signatures_for_address V key config client of
                  (r, client) \<Rightarrow> (sol_answer (signatures_value L) i r, client))))"

definition handle_get_account ::
    "'v json_api \<Rightarrow> ('c, 'tx, 'acc, 'sg, 'v) sol_values \<Rightarrow> ('w, 'c, 'tx, 'acc, 'sg) sol_env \<Rightarrow> 'v list \<Rightarrow> 'v
      \<Rightarrow> ('w sol_client, 'v sol_resp) waiting_act" where
  "handle_get_account J L V params i client =
     (case pubkey_param J L params of
        Inl text \<Rightarrow> (Some (Inr (create_sol_response (Some text) i None)), client)
      | Inr key \<Rightarrow>
          (case config_param ''RpcAccountInfoConfig'' (de_account_config L) 1 params of
             Inl text \<Rightarrow> (Some (Inr (create_sol_response (Some text) i None)), client)
           | Inr config \<Rightarrow>
               (case get_account_info V key config client of
                  (r, client) \<Rightarrow> (sol_answer (account_value L) i r, client))))"

definition handle_get_slot ::
    "('c, 'tx, 'acc, 'sg, 'v) sol_values \<Rightarrow> ('w, 'c, 'tx, 'acc, 'sg) sol_env \<Rightarrow> 'v list \<Rightarrow> 'v
      \<Rightarrow> ('w sol_client, 'v sol_resp) waiting_act" where
  "handle_get_slot L V params i client =
     (case config_param ''CommitmentConfig'' (de_commitment L) 0 params of
        Inl text \<Rightarrow> (Some (Inr (create_sol_response (Some text) i None)), client)
      | Inr config \<Rightarrow>
          (case get_slot V config client of (r, client) \<Rightarrow> (sol_answer (slot_value L) i r, client)))"

definition signature_param ::
    "'v json_api \<Rightarrow> ('c, 'tx, 'acc, 'sg, 'v) sol_values \<Rightarrow> 'v list \<Rightarrow> sol_rpc_text + signature" where
  "signature_param J L params =
     (case params of
        [] \<Rightarrow> Inl Sol_Wrong_Params_Number
      | signature_v # _ \<Rightarrow>
          (case jas_str J signature_v of
             None \<Rightarrow> Inl Sol_Wrong_Params_Type
           | Some s \<Rightarrow>
               (case sv_signature L s of Inl err \<Rightarrow> Inl (Invalid_Signature err) | Inr sig \<Rightarrow> Inr sig)))"

text \<open>
  A cached value that is a transaction is the answer; one that is none is removed, and the
  client is asked; what the client answers is cached.
\<close>

definition handle_get_transaction ::
    "'v json_api \<Rightarrow> ('c, 'tx, 'acc, 'sg, 'v) sol_values \<Rightarrow> ('w, 'c, 'tx, 'acc, 'sg) sol_env \<Rightarrow> 'v list \<Rightarrow> 'v
      \<Rightarrow> (('w, 'v) sol_state, 'v sol_resp) waiting_act" where
  "handle_get_transaction J L V params i = (\<lambda>(client, cache).
     case signature_param J L params of
       Inl text \<Rightarrow> (Some (Inr (create_sol_response (Some text) i None)), (client, cache))
     | Inr cache_key \<Rightarrow>
         (let cached = Option.bind (cache_get cache cache_key)
                (\<lambda>tx_v. case tx_from_value L tx_v of Inr tx \<Rightarrow> Some tx | Inl _ \<Rightarrow> None)
          in case cached of
               Some tx \<Rightarrow> (Some (Inr (create_sol_response None i (Some (tx_value L tx)))), (client, cache))
             | None \<Rightarrow>
                 (let cache = (case cache_get cache cache_key of
                        None \<Rightarrow> cache | Some _ \<Rightarrow> cache_remove cache cache_key)
                  in case config_param ''RpcTransactionConfig'' (de_tx_config L) 1 params of
                       Inl text \<Rightarrow> (Some (Inr (create_sol_response (Some text) i None)), (client, cache))
                     | Inr tx_config \<Rightarrow>
                         (case get_transaction V cache_key tx_config client of
                            (r, client) \<Rightarrow>
                              (sol_answer (tx_value L) i r,
                               (client,
                                case r of
                                  Some (Inr tx) \<Rightarrow> cache_insert cache cache_key (tx_value L tx)
                                | _ \<Rightarrow> cache))))))"

definition on_sol :: "('w sol_client, 'r) waiting_act \<Rightarrow> ('w sol_client \<times> 'c, 'r) waiting_act" where
  "on_sol m = (\<lambda>(client, cache). case m client of (r, client) \<Rightarrow> (r, (client, cache)))"

definition handle_sol_request ::
    "'v json_api \<Rightarrow> ('c, 'tx, 'acc, 'sg, 'v) sol_values \<Rightarrow> ('w, 'c, 'tx, 'acc, 'sg) sol_env \<Rightarrow> 'v sol_req
      \<Rightarrow> (('w, 'v) sol_state, 'v sol_resp) waiting_act" where
  "handle_sol_request J L V req s =
     (case jas_array J (bq_params req) of
        None \<Rightarrow> (Some (Inr (create_sol_response (Some Sol_Params_Not_Array) (bq_id req) None)), s)
      | Some params \<Rightarrow>
          (case sol_method_from (bq_method req) of
             Inl err \<Rightarrow> (Some (Inr (create_sol_response (Some err) (bq_id req) None)), s)
           | Inr GetTransaction \<Rightarrow> handle_get_transaction J L V params (bq_id req) s
           | Inr GetSlot \<Rightarrow> on_sol (handle_get_slot L V params (bq_id req)) s
           | Inr GetAccountInfo \<Rightarrow> on_sol (handle_get_account J L V params (bq_id req)) s
           | Inr GetSignaturesForAddress \<Rightarrow>
               on_sol (handle_get_signatures_for_address J L V params (bq_id req)) s
           | Inr GetProgramAccounts \<Rightarrow> on_sol (handle_get_program_accounts J L V params (bq_id req)) s))"

definition sol ::
    "'v json_api \<Rightarrow> ('c, 'tx, 'acc, 'sg, 'v) sol_values \<Rightarrow> ('w, 'c, 'tx, 'acc, 'sg) sol_env
      \<Rightarrow> ('v sol_reply \<Rightarrow> string) \<Rightarrow> (string \<Rightarrow> string) \<Rightarrow> 'v sol_req
      \<Rightarrow> (('x, 'db, 'p, 'e, 'o, 'w sol_client, 'v) chains_state, string) waiting_act" where
  "sol J L V ser sign payload st =
     (case chains_state.sol_client st of
        None \<Rightarrow> (Some (Inl (Panic ''sol: sol_client'')), st)
      | Some client \<Rightarrow>
          (case handle_sol_request J L V payload (client, response_cache st) of
             (r, client, cache) \<Rightarrow>
               (map_option (\<lambda>r. bind_res r (\<lambda>resp. Inr (sign (sol_convert ser [resp] ! 0)))) r,
                st\<lparr>sol_client := Some client, response_cache := cache\<rparr>)))"

end
