(* ===== verification/Server.thy ===== *)
theory Server
  imports Eth_Rpc Sol_Rpc
begin

text \<open>
  \<open>server.rs\<close> and \<open>main.rs\<close>: the routes of the HTTP server, the check that a request's service is
  switched on, the status endpoints, and the start of the node, which builds the shared state.
  Serialisers and the enclave's signature are arguments, gathered in \<open>node_libs\<close> with the
  libraries of the components.
\<close>

subsection \<open>State\<close>

record network_type =
  nt_btc :: network
  nt_doge :: network

record ('w, 'db, 'p, 'e, 'o, 's, 'v) app_state =
  chain_state :: "('w, 'db, 'p, 'e, 'o, 's, 'v) chains_state"
  as_sgx :: bool
  as_network :: network_type
  as_service :: service

record sync_status =
  p2p_btc_height :: u64
  rpc_btc_tip :: u64
  lightclient_eth_height :: u64
  p2p_doge_height :: u64
  lightclient_op_height :: u64
  ss_btc_chainid :: u64
  ss_eth_chainid :: u64
  ss_doge_chainid :: u64
  ss_op_chainid :: u64

record ('tx, 'pmt, 'w, 'p, 'e, 'o, 'h, 'g, 'ep, 'c, 'stx, 'acc, 'sg, 'v) node_libs =
  lb_json :: "'v json_api"
  lb_bitcoin :: "('tx, 'pmt) bitcoin_api"
  lb_merkle :: "'pmt merkle_api"
  lb_p2p :: "('p, 'v) nakamoto_api"
  lb_send :: "('w, 'v) transport"
  lb_eth :: "('e, 'h, 'v) helios_api"
  lb_op :: "('o, 'g, 'v) helios_api"
  lb_sol :: "('c, 'stx, 'acc, 'sg, 'v) sol_values"
  lb_sol_env :: "('ep, 'c, 'stx, 'acc, 'sg) sol_env"
  ser_verify :: "'v verify_response \<Rightarrow> string"
  ser_btc :: "'v btc_resp list \<Rightarrow> string"
  ser_eth :: "'v eth_reply \<Rightarrow> string"
  ser_sol :: "'v sol_reply \<Rightarrow> string"
  ser_texts :: "string list \<Rightarrow> string"
  ser_status :: "sync_status \<Rightarrow> string"
  show_ping :: "string \<Rightarrow> bool \<Rightarrow> u64 \<Rightarrow> block_hash \<Rightarrow> block_hash \<Rightarrow> u64 \<Rightarrow> string"
  sgx_sign :: "string \<Rightarrow> string"

subsection \<open>Which services answer\<close>

definition is_service_enabled :: "service \<Rightarrow> string \<Rightarrow> bool" where
  "is_service_enabled service path =
     (if str_contains path ''/verify_tx_doge'' then sv_doge service
      else if str_contains path ''/verify_tx'' \<and> \<not> str_contains path ''/verify_tx_doge'' then sv_btc service
      else if path = ''/btc'' then sv_btc service
      else if path = ''/doge'' then sv_doge service
      else if path = ''/eth'' then sv_eth service
      else if path = ''/eth2'' then sv_eth service
      else if path = ''/optimism'' then sv_op service
      else if path = ''/sol'' then sv_sol service
      else path = ''/status'')"

subsection \<open>Status\<close>

definition btc_chainid :: "network \<Rightarrow> u64" where
  "btc_chainid n = (case n of Bitcoin \<Rightarrow> 0xa0898816 | Testnet \<Rightarrow> 0x10340fc0 | _ \<Rightarrow> 0)"

definition doge_chainid :: "network \<Rightarrow> u64" where
  "doge_chainid n = (case n of DogecoinMainnet \<Rightarrow> 0xad6c4d97 | DogecoinTestnet \<Rightarrow> 0x343b2383 | _ \<Rightarrow> 0)"

text \<open>The height of a chain's P2P client, 0 for a service that is off or a client that fails.\<close>

definition p2p_height ::
    "('p, 'v) nakamoto_api \<Rightarrow> proof_chain \<Rightarrow> bool
      \<Rightarrow> (('w, 'db, 'p, 'e, 'o, 's, 'v) chains_state, unit, u64) act" where
  "p2p_height N chain on st =
     (if on then
        (case chain_handle chain st of
           None \<Rightarrow> (Inl (Panic ''status: handle''), st)
         | Some p \<Rightarrow>
             (case nk_get_tip N p of
                (Inr (height, _), p) \<Rightarrow> (Inr height, set_chain_handle chain p st)
              | (Inl _, p) \<Rightarrow> (Inr 0, set_chain_handle chain p st)))
      else (Inr 0, st))"

text \<open>Height and chain id of a light client: the lowest limb of the block number.\<close>

definition lightclient_status :: "('e, 'h, 'v) helios_api \<Rightarrow> 'e \<Rightarrow> (u64 \<times> u64) \<times> 'e" where
  "lightclient_status H e =
     (case hl_chain_id H e of
        (chainid, e) \<Rightarrow>
          (case hl_get_block_number H e of
             (Inr res, e) \<Rightarrow> ((ucast res, chainid), e)
           | (Inl _, e) \<Rightarrow> ((0, chainid), e)))"

definition eth_status ::
    "('e, 'h, 'v) helios_api \<Rightarrow> bool \<Rightarrow> (('w, 'db, 'p, 'e, 'o, 's, 'v) chains_state, unit, u64 \<times> u64) act" where
  "eth_status H on st =
     (if on then
        (case helios_client st of
           None \<Rightarrow> (Inl (Panic ''status: helios_client''), st)
         | Some e \<Rightarrow> (case lightclient_status H e of (r, e) \<Rightarrow> (Inr r, st\<lparr>helios_client := Some e\<rparr>)))
      else (Inr (0, 0), st))"

definition op_status ::
    "('o, 'h, 'v) helios_api \<Rightarrow> bool \<Rightarrow> (('w, 'db, 'p, 'e, 'o, 's, 'v) chains_state, unit, u64 \<times> u64) act" where
  "op_status H on st =
     (if on then
        (case helios_op_client st of
           None \<Rightarrow> (Inl (Panic ''status: helios_op_client''), st)
         | Some e \<Rightarrow> (case lightclient_status H e of (r, e) \<Rightarrow> (Inr r, st\<lparr>helios_op_client := Some e\<rparr>)))
      else (Inr (0, 0), st))"

definition sync_status_of ::
    "('tx, 'pmt, 'w, 'p, 'e, 'o, 'h, 'g, 'ep, 'c, 'stx, 'acc, 'sg, 'v) node_libs \<Rightarrow> network_type \<Rightarrow> service
      \<Rightarrow> (('w, 'db, 'p, 'e, 'o, 's, 'v) chains_state, unit, sync_status) act" where
  "sync_status_of LB net sv =
     bind_act (p2p_height (lb_p2p LB) BitCoin (sv_btc sv)) (\<lambda>btc_height.
     bind_act (p2p_height (lb_p2p LB) DogeCoin (sv_doge sv)) (\<lambda>doge_height.
     bind_act (eth_status (lb_eth LB) (sv_eth sv)) (\<lambda>(eth_height, eth_id).
     bind_act (op_status (lb_op LB) (sv_op sv)) (\<lambda>(op_height, op_id).
       ret_act (Inr \<lparr>p2p_btc_height = btc_height, rpc_btc_tip = 0, lightclient_eth_height = eth_height,
         p2p_doge_height = doge_height, lightclient_op_height = op_height,
         ss_btc_chainid = btc_chainid (nt_btc net), ss_eth_chainid = eth_id,
         ss_doge_chainid = doge_chainid (nt_doge net), ss_op_chainid = op_id\<rparr>)))))"

definition status where
  "status LB net sv = bind_act (sync_status_of LB net sv)
     (\<lambda>s. ret_act (Inr (sgx_sign LB (ser_status LB s))))"

definition p2p_tip ::
    "('p, 'v) nakamoto_api \<Rightarrow> proof_chain
      \<Rightarrow> (('w, 'db, 'p, 'e, 'o, 's, 'v) chains_state, unit, u64 \<times> block_header) act" where
  "p2p_tip N chain st =
     (case chain_handle chain st of
        None \<Rightarrow> (Inl (Panic ''ping: handle''), st)
      | Some p \<Rightarrow>
          (case nk_get_tip N p of
             (Inl _, p) \<Rightarrow> (Inl (Panic ''ping: get_tip''), set_chain_handle chain p st)
           | (Inr tip, p) \<Rightarrow> (Inr tip, set_chain_handle chain p st)))"

definition ping where
  "ping LB sgx str =
     bind_act (p2p_tip (lb_p2p LB) BitCoin) (\<lambda>(height, tip).
     bind_act (\<lambda>st. (get_tip (sync_headers (cs_store st)), st)) (\<lambda>rpc_tip.
     bind_act (p2p_tip (lb_p2p LB) DogeCoin) (\<lambda>(doge_height, _).
       ret_act (Inr (show_ping LB str sgx height (nk_block_hash (lb_p2p LB) tip) rpc_tip doge_height)))))"

subsection \<open>Routes\<close>

datatype http_method = GET | POST

datatype route =
    R_Status | R_Verify_Tx string | R_Verify_Tx_Doge string | R_Ping string
  | R_Btc | R_Doge | R_Eth | R_Eth2 | R_Optimism | R_Sol

text \<open>The router's patterns: fixed segments and, for three routes, a non-empty parameter.\<close>

definition route_of :: "string \<Rightarrow> (http_method \<times> route) option" where
  "route_of path =
     (let segments = split_char (CHR ''/'') path
      in if path = ''/status'' then Some (GET, R_Status)
         else if path = ''/btc'' then Some (POST, R_Btc)
         else if path = ''/doge'' then Some (POST, R_Doge)
         else if path = ''/eth'' then Some (POST, R_Eth)
         else if path = ''/eth2'' then Some (POST, R_Eth2)
         else if path = ''/optimism'' then Some (POST, R_Optimism)
         else if path = ''/sol'' then Some (POST, R_Sol)
         else (case segments of
                 [s0, s1, param] \<Rightarrow>
                   if s0 \<noteq> [] \<or> param = [] then None
                   else if s1 = ''verify_tx'' then Some (GET, R_Verify_Tx param)
                   else if s1 = ''verify_tx_doge'' then Some (GET, R_Verify_Tx_Doge param)
                   else if s1 = ''ping'' then Some (GET, R_Ping param)
                   else None
               | _ \<Rightarrow> None))"

datatype http_response =
    Text string | Service_Unavailable | Route_Not_Found | Method_Not_Allowed | Unprocessable

text \<open>The JSON body of a request as the list of its values, or as requests of one or many calls.\<close>

definition de_requests :: "'v json_api \<Rightarrow> 'v \<Rightarrow> 'v btc_req list option" where
  "de_requests J body =
     Option.bind (jas_array J body) (\<lambda>vs.
       if list_all (\<lambda>v. de_btc_req J v \<noteq> None) vs then Some (map (\<lambda>v. the (de_btc_req J v)) vs) else None)"

definition lift_act :: "('s, unit, 'a) act \<Rightarrow> ('s, 'a) waiting_act" where
  "lift_act m s = (case m s of (r, s) \<Rightarrow> (Some r, s))"

definition text_act :: "('s, string) waiting_act \<Rightarrow> ('s, http_response) waiting_act" where
  "text_act m s = (case m s of (r, s) \<Rightarrow> (map_option (\<lambda>r. bind_res r (\<lambda>t. Inr (Text t))) r, s))"

definition with_body :: "'b option \<Rightarrow> ('b \<Rightarrow> ('s, http_response) waiting_act) \<Rightarrow> ('s, http_response) waiting_act" where
  "with_body b k = (case b of None \<Rightarrow> (\<lambda>s. (Some (Inr Unprocessable), s)) | Some b \<Rightarrow> k b)"

definition run_route ::
    "('tx, 'pmt, 'w, 'p, 'e, 'o, 'h, 'g, 'ep, 'c, 'stx, 'acc, 'sg, 'v) node_libs
      \<Rightarrow> bool \<Rightarrow> network_type \<Rightarrow> service \<Rightarrow> route \<Rightarrow> 'v option
      \<Rightarrow> (('w, 'db, 'p, 'e, 'o, 'ep sol_client, 'v) chains_state, http_response) waiting_act" where
  "run_route LB sgx net sv r body =
     (let J = lb_json LB; sign = sgx_sign LB;
          verify = verify_transaction J (lb_bitcoin LB) (lb_merkle LB) (lb_p2p LB) (lb_send LB)
            (\<lambda>v. sign (ser_verify LB v))
      in case r of
           R_Status \<Rightarrow> text_act (lift_act (status LB net sv))
         | R_Verify_Tx txid \<Rightarrow> text_act (lift_act (verify txid BitCoin))
         | R_Verify_Tx_Doge txid \<Rightarrow> text_act (lift_act (verify txid DogeCoin))
         | R_Ping str \<Rightarrow> text_act (lift_act (ping LB sgx str))
         | R_Btc \<Rightarrow> with_body (Option.bind body (jas_array J))
             (\<lambda>vs. text_act (lift_act (btc J (lb_p2p LB) (\<lambda>resps. sign (ser_btc LB resps)) vs)))
         | R_Doge \<Rightarrow> with_body (Option.bind body (jas_array J))
             (\<lambda>vs. text_act (lift_act (doge J (lb_p2p LB) (\<lambda>resps. sign (ser_btc LB resps)) vs)))
         | R_Eth \<Rightarrow> with_body (Option.bind body (de_requests J))
             (\<lambda>reqs. text_act (lift_act (eth J (lb_eth LB) (ser_eth LB) (ser_texts LB) reqs)))
         | R_Eth2 \<Rightarrow> with_body (Option.bind body (de_btc_req J))
             (\<lambda>req. text_act (lift_act (eth2 J (lb_eth LB) (ser_eth LB) sign req)))
         | R_Optimism \<Rightarrow> with_body (Option.bind body (de_btc_req J))
             (\<lambda>req. text_act (lift_act (optimism J (lb_op LB) (ser_eth LB) sign req)))
         | R_Sol \<Rightarrow> with_body (Option.bind body (de_btc_req J))
             (\<lambda>req. text_act (sol J (lb_sol LB) (lb_sol_env LB) (ser_sol LB) sign req)))"

text \<open>One request: the middleware first, then the router.\<close>

definition middle_ware ::
    "('tx, 'pmt, 'w, 'p, 'e, 'o, 'h, 'g, 'ep, 'c, 'stx, 'acc, 'sg, 'v) node_libs
      \<Rightarrow> http_method \<Rightarrow> string \<Rightarrow> 'v option
      \<Rightarrow> (('w, 'db, 'p, 'e, 'o, 'ep sol_client, 'v) app_state, http_response) waiting_act" where
  "middle_ware LB verb path body st =
     (if is_service_enabled (as_service st) path then
        (case route_of path of
           None \<Rightarrow> (Some (Inr Route_Not_Found), st)
         | Some (m, r) \<Rightarrow>
             if verb \<noteq> m then (Some (Inr Method_Not_Allowed), st)
             else
               (case run_route LB (as_sgx st) (as_network st) (as_service st) r body (chain_state st) of
                  (resp, cs) \<Rightarrow> (resp, st\<lparr>chain_state := cs\<rparr>)))
      else (Some (Inr Service_Unavailable), st))"

end
