(* ===== verification/Interleaving.thy ===== *)
theory Interleaving
  imports Server
begin

text \<open>
  The request handlers as the server really runs them: many at a time, each a program that stops
  between its accesses to the shared state. An access is one operation of the response cache
  (\<open>utils.rs\<close>; the operations lock the map for their whole body) or one call of a client. Between two
  accesses of one handler any other handlers may run. \<open>step_prog\<close> is one access; \<open>run_prog\<close> runs a
  handler without interference, and is what the theories of the handlers define directly.
\<close>

subsection \<open>Programs\<close>

text \<open>
  \<open>Client upd k\<close> changes the clients by \<open>upd\<close> and goes on with \<open>k\<close>, both applied to the state found.
\<close>

datatype ('s, 'v, 'r) prog =
    Reply 'r
  | Lookup bytes "'v option \<Rightarrow> ('s, 'v, 'r) prog"
  | Insert bytes 'v "('s, 'v, 'r) prog"
  | Remove bytes "('s, 'v, 'r) prog"
  | Client "'s \<Rightarrow> 's" "'s \<Rightarrow> ('s, 'v, 'r) prog"

type_synonym ('w, 'db, 'p, 'e, 'o, 's, 'v, 'r) cs_prog =
  "(('w, 'db, 'p, 'e, 'o, 's, 'v) chains_state, 'v, 'r) prog"

primrec and_then :: "('s, 'v, 'a) prog \<Rightarrow> ('a \<Rightarrow> ('s, 'v, 'b) prog) \<Rightarrow> ('s, 'v, 'b) prog" where
  "and_then (Reply r) k = k r"
| "and_then (Lookup key f) k = Lookup key (\<lambda>v. and_then (f v) k)"
| "and_then (Insert key v p) k = Insert key v (and_then p k)"
| "and_then (Remove key p) k = Remove key (and_then p k)"
| "and_then (Client upd f) k = Client upd (\<lambda>s. and_then (f s) k)"

text \<open>A panic ends the program.\<close>

definition and_then_res ::
    "('s, 'v, ('e, 'a) res) prog \<Rightarrow> ('a \<Rightarrow> ('s, 'v, ('e, 'b) res) prog) \<Rightarrow> ('s, 'v, ('e, 'b) res) prog" where
  "and_then_res p k = and_then p (\<lambda>r. case r of Inl f \<Rightarrow> Reply (Inl f) | Inr x \<Rightarrow> k x)"

primrec step_prog ::
    "('w, 'db, 'p, 'e, 'o, 's, 'v, 'r) cs_prog \<Rightarrow> ('w, 'db, 'p, 'e, 'o, 's, 'v) chains_state
      \<Rightarrow> ('w, 'db, 'p, 'e, 'o, 's, 'v, 'r) cs_prog \<times> ('w, 'db, 'p, 'e, 'o, 's, 'v) chains_state" where
  "step_prog (Reply r) s = (Reply r, s)"
| "step_prog (Lookup key f) s = (f (cache_get (response_cache s) key), s)"
| "step_prog (Insert key v p) s = (p, s\<lparr>response_cache := cache_insert (response_cache s) key v\<rparr>)"
| "step_prog (Remove key p) s = (p, s\<lparr>response_cache := cache_remove (response_cache s) key\<rparr>)"
| "step_prog (Client upd f) s = (f s, upd s)"

primrec run_prog ::
    "('w, 'db, 'p, 'e, 'o, 's, 'v, 'r) cs_prog \<Rightarrow> ('w, 'db, 'p, 'e, 'o, 's, 'v) chains_state
      \<Rightarrow> 'r \<times> ('w, 'db, 'p, 'e, 'o, 's, 'v) chains_state" where
  "run_prog (Reply r) s = (r, s)"
| "run_prog (Lookup key f) s = run_prog (f (cache_get (response_cache s) key)) s"
| "run_prog (Insert key v p) s = run_prog p (s\<lparr>response_cache := cache_insert (response_cache s) key v\<rparr>)"
| "run_prog (Remove key p) s = run_prog p (s\<lparr>response_cache := cache_remove (response_cache s) key\<rparr>)"
| "run_prog (Client upd f) s = run_prog (f s) (upd s)"

text \<open>One access of a client held in the state; without the client the handler replies \<open>fail\<close>.\<close>

definition ask_client ::
    "('s \<Rightarrow> 'c option) \<Rightarrow> ('c \<Rightarrow> 's \<Rightarrow> 's) \<Rightarrow> 'r \<Rightarrow> ('c \<Rightarrow> 'a \<times> 'c) \<Rightarrow> ('a \<Rightarrow> ('s, 'v, 'r) prog)
      \<Rightarrow> ('s, 'v, 'r) prog" where
  "ask_client got put fail m k =
     Client (\<lambda>s. case got s of None \<Rightarrow> s | Some c \<Rightarrow> put (snd (m c)) s)
       (\<lambda>s. case got s of None \<Rightarrow> Reply fail | Some c \<Rightarrow> k (fst (m c)))"

definition need_client :: "('s \<Rightarrow> 'c option) \<Rightarrow> 'r \<Rightarrow> ('s, 'v, 'r) prog \<Rightarrow> ('s, 'v, 'r) prog" where
  "need_client got fail p = Client (\<lambda>s. s) (\<lambda>s. if got s = None then Reply fail else p)"

definition act_prog :: "('s, 'e, 'a) act \<Rightarrow> ('s, 'v, ('e, 'a) res) prog" where
  "act_prog m = Client (\<lambda>s. snd (m s)) (\<lambda>s. Reply (fst (m s)))"

abbreviation ask_handle where
  "ask_handle chain \<equiv> ask_client (chain_handle chain) (set_chain_handle chain)"

abbreviation ask_daemon where
  "ask_daemon chain \<equiv> ask_client (chain_daemon chain) (set_chain_daemon chain)"

subsection \<open>Checking a proof\<close>

definition p2p_header_prog ::
    "('p, 'v) nakamoto_api \<Rightarrow> proof_chain \<Rightarrow> block_hash
      \<Rightarrow> ('w, 'db, 'p, 'e, 'o, 's, 'v, ('v proof_error, block_header) res) cs_prog" where
  "p2p_header_prog N chain blockhash_old =
     Lookup blockhash_old (\<lambda>cached. case cached of
       Some block \<Rightarrow>
         Reply (case nk_from_value N block of Inl e \<Rightarrow> Inl (Err (P2P_Json_Error e)) | Inr h \<Rightarrow> Inr h)
     | None \<Rightarrow>
         ask_handle chain (Inl (Panic ''verify_txid: handle'')) (\<lambda>p. nk_get_block N p blockhash_old)
           (\<lambda>r. case r of
                Inl e \<Rightarrow> Reply (Inl (Err (P2P_Header_Error chain e)))
              | Inr None \<Rightarrow> Reply (Inl (Err Block_Not_Found))
              | Inr (Some (_, h)) \<Rightarrow>
                  (case nk_to_value N h of
                     Inl e \<Rightarrow> Reply (Inl (Err (P2P_To_Value_Error chain e)))
                   | Inr header_str \<Rightarrow> Insert blockhash_old header_str (Reply (Inr h)))))"

definition verify_txid_prog ::
    "('tx, 'pmt) bitcoin_api \<Rightarrow> 'pmt merkle_api \<Rightarrow> ('p, 'v) nakamoto_api \<Rightarrow> 'pmt merkle_block
      \<Rightarrow> merkle_proof_param \<Rightarrow> ('w, 'db, 'p, 'e, 'o, 's, 'v, ('v proof_error, bytes) res) cs_prog" where
  "verify_txid_prog B M N mb param =
     (let mb_blockhash = block_hash_of B (mb_header mb)
      in if mp_blockhash param \<noteq> None \<and> the (mp_blockhash param) \<noteq> mb_blockhash
         then Reply (Inl (Err (Blockhash_Mismatch (the (mp_blockhash param)) mb_blockhash)))
         else
           (case extract_matches M (mb_txn mb) of
              Inl e \<Rightarrow> Reply (Inl (Err (Not_Included (mp_txids param) mb_blockhash e)))
            | Inr (txroot, matches, indexes) \<Rightarrow>
                (case nk_old_hash N mb_blockhash of
                   None \<Rightarrow> Reply (Inl (Panic ''verify_txid: old hash''))
                 | Some blockhash_old \<Rightarrow>
                     and_then_res (p2p_header_prog N (mp_chain param) blockhash_old) (\<lambda>h.
                       case nk_new_header N h of
                         None \<Rightarrow> Reply (Inl (Panic ''verify_txid: header''))
                       | Some header_p2p \<Rightarrow>
                           Reply (if txroot \<noteq> merkle_root header_p2p
                             then Inl (Err (Root_Mismatch txroot (merkle_root header_p2p) mb_blockhash))
                             else Inr (ser_merkleblock M mb))))))"

definition fetch_proof_and_verify_prog ::
    "'v json_api \<Rightarrow> ('tx, 'pmt) bitcoin_api \<Rightarrow> 'pmt merkle_api \<Rightarrow> ('p, 'v) nakamoto_api \<Rightarrow> ('w, 'v) transport
      \<Rightarrow> merkle_proof_param \<Rightarrow> ('w, 'db, 'p, 'e, 'o, 's, 'v, ('v proof_error, bytes) res) cs_prog" where
  "fetch_proof_and_verify_prog J B M N send param =
     ask_daemon (mp_chain param) (Inl (Panic ''fetch_proof_and_verify: daemon''))
       (map_err_act (Gettxoutproof_Error (mp_chain param)) (gettxoutproof J B send param))
       (\<lambda>r. case r of Inl f \<Rightarrow> Reply (Inl f) | Inr mb \<Rightarrow> verify_txid_prog B M N mb param)"

definition verify_transaction_prog ::
    "'v json_api \<Rightarrow> ('tx, 'pmt) bitcoin_api \<Rightarrow> 'pmt merkle_api \<Rightarrow> ('p, 'v) nakamoto_api \<Rightarrow> ('w, 'v) transport
      \<Rightarrow> ('v verify_response \<Rightarrow> 'r) \<Rightarrow> string \<Rightarrow> proof_chain
      \<Rightarrow> ('w, 'db, 'p, 'e, 'o, 's, 'v, (unit, 'r) res) cs_prog" where
  "verify_transaction_prog J B M N send sign txid chain =
     (case parse_txid M txid of
        Inl (Err e) \<Rightarrow> Reply (Inr (sign (response_new True e)))
      | Inl (Panic site) \<Rightarrow> Reply (Inl (Panic site))
      | Inr txid \<Rightarrow>
          and_then (fetch_proof_and_verify_prog J B M N send (merkle_proof_param_new [txid] None chain))
            (\<lambda>r. Reply (case r of
                 Inr _ \<Rightarrow> Inr (sign (response_new False (Verified_Txid txid)))
               | Inl (Err e) \<Rightarrow> Inr (sign (response_new True (Proof_Failed e)))
               | Inl (Panic site) \<Rightarrow> Inl (Panic site))))"

subsection \<open>Bitcoin and Dogecoin\<close>

definition getblockheader_prog ::
    "'v json_api \<Rightarrow> ('p, 'v) nakamoto_api \<Rightarrow> proof_chain \<Rightarrow> 'v list \<Rightarrow> 'v
      \<Rightarrow> ('w, 'db, 'p, 'e, 'o, 's, 'v, (unit, 'v btc_resp) res) cs_prog" where
  "getblockheader_prog J N chain params i =
     (if params = [] \<or> length params > 2 then Reply (Inr (create_btc_response (Some Wrong_Params_Number) i None))
      else
        (let verbose = (if length params = 2
               then (case jas_bool J (params ! 1) of None \<Rightarrow> True | Some b \<Rightarrow> b) else True)
         in case jas_str J (params ! 0) of
              None \<Rightarrow> Reply (Inr (create_btc_response (Some Params_Type_Wrong) i None))
            | Some hash_str \<Rightarrow>
                (case nk_hash_from_str N hash_str of
                   Inl e \<Rightarrow> Reply (Inr (create_btc_response (Some (Blockhash_Error e)) i None))
                 | Inr hash \<Rightarrow>
                     Lookup hash (\<lambda>cached. case cached of
                       Some header \<Rightarrow> Reply (Inr (create_btc_response None i (Some header)))
                     | None \<Rightarrow>
                         ask_handle chain (Inl (Panic ''btc: handle'')) (\<lambda>p. nk_get_block N p hash)
                           (\<lambda>r. case r of
                                Inr (Some (height, header)) \<Rightarrow>
                                  (case header_value J N verbose height header of
                                     Inl f \<Rightarrow> Reply (Inl f)
                                   | Inr h \<Rightarrow> Insert hash h (Reply (Inr (create_btc_response None i (Some h)))))
                              | Inr None \<Rightarrow> Reply (Inr (create_btc_response (Some Header_Not_Found) i None))
                              | Inl e \<Rightarrow> Reply (Inr (create_btc_response (Some (P2P_Error e)) i None)))))))"

definition getblockhash_prog ::
    "'v json_api \<Rightarrow> ('p, 'v) nakamoto_api \<Rightarrow> proof_chain \<Rightarrow> 'v list \<Rightarrow> 'v
      \<Rightarrow> ('w, 'db, 'p, 'e, 'o, 's, 'v, (unit, 'v btc_resp) res) cs_prog" where
  "getblockhash_prog J N chain params i =
     (if length params \<noteq> 1 then Reply (Inr (create_btc_response (Some Wrong_Params_Number) i None))
      else
        (case jas_u64 J (params ! 0) of
           None \<Rightarrow> Reply (Inr (create_btc_response (Some Params_Type_Wrong) i None))
         | Some height \<Rightarrow>
             Lookup (to_be_bytes height) (\<lambda>cached. case cached of
               Some header \<Rightarrow> Reply (Inr (create_btc_response None i (Some header)))
             | None \<Rightarrow>
                 ask_handle chain (Inl (Panic ''btc: handle'')) (\<lambda>p. nk_get_block_by_height N p height)
                   (\<lambda>r. case r of
                        Inr (Some header) \<Rightarrow>
                          (case nk_to_value N header of
                             Inl e \<Rightarrow> Reply (Inl (Panic ''getblockhash: to_value''))
                           | Inr header_str \<Rightarrow>
                               Insert (to_be_bytes height) header_str
                                 (Reply (Inr (create_btc_response None i
                                    (Some (jstr J (nk_show_hash N (nk_block_hash N header))))))))
                      | Inr None \<Rightarrow> Reply (Inr (create_btc_response (Some (Height_Not_Found height)) i None))
                      | Inl e \<Rightarrow> Reply (Inr (create_btc_response (Some (P2P_Error e)) i None))))))"

definition getbestblockhash_prog ::
    "'v json_api \<Rightarrow> ('p, 'v) nakamoto_api \<Rightarrow> proof_chain \<Rightarrow> 'v list \<Rightarrow> 'v
      \<Rightarrow> ('w, 'db, 'p, 'e, 'o, 's, 'v, (unit, 'v btc_resp) res) cs_prog" where
  "getbestblockhash_prog J N chain params i =
     (if params \<noteq> [] then Reply (Inr (create_btc_response (Some Wrong_Params_Number) i None))
      else
        ask_handle chain (Inl (Panic ''btc: handle'')) (nk_get_tip N)
          (\<lambda>r. Reply (Inr (case r of
               Inr (_, header) \<Rightarrow>
                 create_btc_response None i (Some (jstr J (nk_show_hash N (nk_block_hash N header))))
             | Inl e \<Rightarrow> create_btc_response (Some (P2P_Error e)) i None))))"

definition btc_request_prog ::
    "'v json_api \<Rightarrow> ('p, 'v) nakamoto_api \<Rightarrow> proof_chain \<Rightarrow> 'v
      \<Rightarrow> ('w, 'db, 'p, 'e, 'o, 's, 'v, (unit, 'v btc_resp) res) cs_prog" where
  "btc_request_prog J N chain req =
     (case parse_request J req of
        Inl (e, i) \<Rightarrow> Reply (Inr (create_btc_response (Some (Invalid_Request e req)) i None))
      | Inr r \<Rightarrow>
          (case jas_array J (bq_params r) of
             None \<Rightarrow> Reply (Inr (create_btc_response (Some Params_Not_Array) (bq_id r) None))
           | Some params \<Rightarrow>
               if bq_method r = ''getbestblockhash'' then getbestblockhash_prog J N chain params (bq_id r)
               else if bq_method r = ''getblockheader'' then getblockheader_prog J N chain params (bq_id r)
               else if bq_method r = ''getblockhash'' then getblockhash_prog J N chain params (bq_id r)
               else Reply (Inr (create_btc_response (Some (Method_Unsupported (bq_method r))) (bq_id r) None))))"

text \<open>
  \<open>futures::future::join_all\<close>: the programs of a batch run as one program that proceeds with the
  program the schedule names, and with the programs in order once the schedule is used up. A
  panic of one program is a panic of all.
\<close>

primrec in_order :: "('s, 'v, ('e, 'a) res) prog list \<Rightarrow> ('s, 'v, ('e, 'a list) res) prog" where
  "in_order [] = Reply (Inr [])"
| "in_order (p # ps) = and_then_res p (\<lambda>x. and_then_res (in_order ps) (\<lambda>xs. Reply (Inr (x # xs))))"

primrec join_all ::
    "nat list \<Rightarrow> ('s, 'v, ('e, 'a) res) prog list \<Rightarrow> ('s, 'v, ('e, 'a list) res) prog" where
  "join_all [] ps = in_order ps"
| "join_all (i # polls) ps =
     (if i < length ps then
        (case ps ! i of
           Reply (Inl f) \<Rightarrow> Reply (Inl f)
         | Reply (Inr x) \<Rightarrow> join_all polls ps
         | Lookup key f \<Rightarrow> Lookup key (\<lambda>v. join_all polls (ps[i := f v]))
         | Insert key v p \<Rightarrow> Insert key v (join_all polls (ps[i := p]))
         | Remove key p \<Rightarrow> Remove key (join_all polls (ps[i := p]))
         | Client upd f \<Rightarrow> Client upd (\<lambda>s. join_all polls (ps[i := f s])))
      else join_all polls ps)"

definition fetch_header_prog ::
    "'v json_api \<Rightarrow> ('p, 'v) nakamoto_api \<Rightarrow> nat list \<Rightarrow> ('v btc_resp list \<Rightarrow> 'r) \<Rightarrow> proof_chain \<Rightarrow> 'v list
      \<Rightarrow> ('w, 'db, 'p, 'e, 'o, 's, 'v, (unit, 'r) res) cs_prog" where
  "fetch_header_prog J N polls sign chain payload =
     need_client (chain_handle chain) (Inl (Panic ''btc: handle''))
       (and_then_res (join_all polls (map (btc_request_prog J N chain) payload)) (\<lambda>resps. Reply (Inr (sign resps))))"

subsection \<open>Ethereum and Optimism\<close>

text \<open>A handler that uses the client only is one access of it.\<close>

definition receipt_prog ::
    "(('w, 'db, 'p, 'e, 'o, 's, 'v) chains_state \<Rightarrow> 'c option)
      \<Rightarrow> ('c \<Rightarrow> ('w, 'db, 'p, 'e, 'o, 's, 'v) chains_state \<Rightarrow> ('w, 'db, 'p, 'e, 'o, 's, 'v) chains_state) \<Rightarrow> string
      \<Rightarrow> 'v json_api \<Rightarrow> ('c, 'h, 'v) helios_api \<Rightarrow> 'v list \<Rightarrow> 'v
      \<Rightarrow> ('w, 'db, 'p, 'e, 'o, 's, 'v, (unit, 'v eth_resp) res) cs_prog" where
  "receipt_prog got put site J H params i =
     (if length params \<noteq> 1 then Reply (Inr (create_eth_response (Some Eth_Wrong_Params_Number) i None))
      else
        (case jas_str J (params ! 0) of
           None \<Rightarrow> Reply (Inr (create_eth_response (Some Eth_Error_Tx_Hash) i None))
         | Some hex \<Rightarrow>
             (case hl_hash_from_hex H hex of
                Inl err \<Rightarrow> Reply (Inr (create_eth_response (Some (Eth_H256_Error err)) i None))
              | Inr txhash \<Rightarrow>
                  Lookup txhash (\<lambda>cached. case cached of
                    Some receipt \<Rightarrow> Reply (Inr (create_eth_response None i (Some receipt)))
                  | None \<Rightarrow>
                      ask_client got put (Inl (Panic site)) (\<lambda>e. hl_get_transaction_receipt H e txhash)
                        (\<lambda>r. case r of
                             Inr (Some receipt) \<Rightarrow>
                               (case eth_value H receipt of
                                  Inl f \<Rightarrow> Reply (Inl f)
                                | Inr receipt_str \<Rightarrow>
                                    Insert txhash receipt_str (Reply (Inr (create_eth_response None i (Some receipt_str)))))
                           | Inr None \<Rightarrow> Reply (Inr (create_eth_response None i None))
                           | Inl err \<Rightarrow> Reply (Inr (create_eth_response (Some (Helios_Error err)) i None)))))))"

definition eth_request_prog ::
    "(('w, 'db, 'p, 'e, 'o, 's, 'v) chains_state \<Rightarrow> 'c option)
      \<Rightarrow> ('c \<Rightarrow> ('w, 'db, 'p, 'e, 'o, 's, 'v) chains_state \<Rightarrow> ('w, 'db, 'p, 'e, 'o, 's, 'v) chains_state) \<Rightarrow> string
      \<Rightarrow> 'v json_api \<Rightarrow> ('c, 'h, 'v) helios_api \<Rightarrow> 'v eth_req
      \<Rightarrow> ('w, 'db, 'p, 'e, 'o, 's, 'v, (unit, 'v eth_resp) res) cs_prog" where
  "eth_request_prog got put site J H req =
     (case jas_array J (bq_params req) of
        None \<Rightarrow> Reply (Inr (create_eth_response (Some Eth_Params_Not_Array) (bq_id req) None))
      | Some params \<Rightarrow>
          if bq_method req = ''eth_getLogs''
            then ask_client got put (Inl (Panic site)) (handle_get_logs H params (bq_id req)) Reply
          else if bq_method req = ''eth_getBlockByNumber''
            then ask_client got put (Inl (Panic site)) (handle_get_block_by_number J H params (bq_id req)) Reply
          else if bq_method req = ''eth_getTransactionReceipt''
            then receipt_prog got put site J H params (bq_id req)
          else Reply (Inr (create_eth_response (Some (Eth_Method_Unsupported (bq_method req))) (bq_id req) None)))"

definition eth_prog ::
    "'v json_api \<Rightarrow> ('e, 'h, 'v) helios_api \<Rightarrow> ('v eth_reply \<Rightarrow> string) \<Rightarrow> (string list \<Rightarrow> string)
      \<Rightarrow> 'v eth_req list \<Rightarrow> ('w, 'db, 'p, 'e, 'o, 's, 'v, (unit, string) res) cs_prog" where
  "eth_prog J H ser ser_list payload =
     need_client helios_client (Inl (Panic ''eth: helios_client''))
       (and_then_res
         (in_order (map (eth_request_prog helios_client (\<lambda>e st. st\<lparr>helios_client := Some e\<rparr>)
            ''eth: helios_client'' J H) payload))
         (\<lambda>resps_all.
            let resp = convert ser resps_all
            in Reply (Inr (if length resp = 1 then resp ! 0 else ser_list resp))))"

definition eth2_prog ::
    "'v json_api \<Rightarrow> ('e, 'h, 'v) helios_api \<Rightarrow> ('v eth_reply \<Rightarrow> string) \<Rightarrow> (string \<Rightarrow> string)
      \<Rightarrow> 'v eth_req \<Rightarrow> ('w, 'db, 'p, 'e, 'o, 's, 'v, (unit, string) res) cs_prog" where
  "eth2_prog J H ser sign payload =
     need_client helios_client (Inl (Panic ''eth2: helios_client''))
       (and_then_res
         (eth_request_prog helios_client (\<lambda>e st. st\<lparr>helios_client := Some e\<rparr>) ''eth2: helios_client'' J H payload)
         (\<lambda>resp. Reply (Inr (sign (convert ser [resp] ! 0)))))"

definition optimism_prog ::
    "'v json_api \<Rightarrow> ('o, 'h, 'v) helios_api \<Rightarrow> ('v eth_reply \<Rightarrow> string) \<Rightarrow> (string \<Rightarrow> string)
      \<Rightarrow> 'v eth_req \<Rightarrow> ('w, 'db, 'p, 'e, 'o, 's, 'v, (unit, string) res) cs_prog" where
  "optimism_prog J H ser sign payload =
     need_client helios_op_client (Inl (Panic ''optimism: helios_op_client''))
       (and_then_res
         (eth_request_prog helios_op_client (\<lambda>e st. st\<lparr>helios_op_client := Some e\<rparr>) ''optimism: helios_op_client'' J H payload)
         (\<lambda>resp. Reply (Inr (sign (convert ser [resp] ! 0)))))"

subsection \<open>Solana\<close>

abbreviation ask_sol where
  "ask_sol \<equiv> ask_client chains_state.sol_client (\<lambda>c st. st\<lparr>sol_client := Some c\<rparr>)
     (Some (Inl (Panic ''sol: sol_client'')))"

definition sol_transaction_prog ::
    "'v json_api \<Rightarrow> ('c, 'tx, 'acc, 'sg, 'v) sol_values \<Rightarrow> ('w, 'c, 'tx, 'acc, 'sg) sol_env \<Rightarrow> 'v list \<Rightarrow> 'v
      \<Rightarrow> ('x, 'db, 'p, 'e, 'o, 'w sol_client, 'v, (unit, 'v sol_resp) res option) cs_prog" where
  "sol_transaction_prog J L V params i =
     (case signature_param J L params of
        Inl text \<Rightarrow> Reply (Some (Inr (create_sol_response (Some text) i None)))
      | Inr cache_key \<Rightarrow>
          Lookup cache_key (\<lambda>cached.
            let ask =
              (case config_param ''RpcTransactionConfig'' (de_tx_config L) 1 params of
                 Inl text \<Rightarrow> Reply (Some (Inr (create_sol_response (Some text) i None)))
               | Inr tx_config \<Rightarrow>
                   ask_sol (get_transaction V cache_key tx_config) (\<lambda>r. case r of
                       Some (Inr tx) \<Rightarrow>
                         Insert cache_key (tx_value L tx) (Reply (sol_answer (tx_value L) i (Some (Inr tx))))
                     | r \<Rightarrow> Reply (sol_answer (tx_value L) i r)))
            in case cached of
                 None \<Rightarrow> ask
               | Some tx_v \<Rightarrow>
                   (case tx_from_value L tx_v of
                      Inr tx \<Rightarrow> Reply (Some (Inr (create_sol_response None i (Some (tx_value L tx)))))
                    | Inl _ \<Rightarrow> Remove cache_key ask)))"

definition sol_request_prog ::
    "'v json_api \<Rightarrow> ('c, 'tx, 'acc, 'sg, 'v) sol_values \<Rightarrow> ('w, 'c, 'tx, 'acc, 'sg) sol_env \<Rightarrow> 'v sol_req
      \<Rightarrow> ('x, 'db, 'p, 'e, 'o, 'w sol_client, 'v, (unit, 'v sol_resp) res option) cs_prog" where
  "sol_request_prog J L V req =
     (case jas_array J (bq_params req) of
        None \<Rightarrow> Reply (Some (Inr (create_sol_response (Some Sol_Params_Not_Array) (bq_id req) None)))
      | Some params \<Rightarrow>
          (case sol_method_from (bq_method req) of
             Inl err \<Rightarrow> Reply (Some (Inr (create_sol_response (Some err) (bq_id req) None)))
           | Inr GetTransaction \<Rightarrow> sol_transaction_prog J L V params (bq_id req)
           | Inr GetSlot \<Rightarrow> ask_sol (handle_get_slot L V params (bq_id req)) Reply
           | Inr GetAccountInfo \<Rightarrow> ask_sol (handle_get_account J L V params (bq_id req)) Reply
           | Inr GetSignaturesForAddress \<Rightarrow>
               ask_sol (handle_get_signatures_for_address J L V params (bq_id req)) Reply
           | Inr GetProgramAccounts \<Rightarrow> ask_sol (handle_get_program_accounts J L V params (bq_id req)) Reply))"

definition sol_prog ::
    "'v json_api \<Rightarrow> ('c, 'tx, 'acc, 'sg, 'v) sol_values \<Rightarrow> ('w, 'c, 'tx, 'acc, 'sg) sol_env
      \<Rightarrow> ('v sol_reply \<Rightarrow> string) \<Rightarrow> (string \<Rightarrow> string) \<Rightarrow> 'v sol_req
      \<Rightarrow> ('x, 'db, 'p, 'e, 'o, 'w sol_client, 'v, (unit, string) res option) cs_prog" where
  "sol_prog J L V ser sign payload =
     need_client chains_state.sol_client (Some (Inl (Panic ''sol: sol_client'')))
       (and_then (sol_request_prog J L V payload)
         (\<lambda>r. Reply (map_option (\<lambda>r. bind_res r (\<lambda>resp. Inr (sign (sol_convert ser [resp] ! 0)))) r)))"

subsection \<open>Routes\<close>

text \<open>The light client of \<open>/status\<close> is asked twice, for its chain id and then for its block number.\<close>

definition lightclient_prog ::
    "('s \<Rightarrow> 'c option) \<Rightarrow> ('c \<Rightarrow> 's \<Rightarrow> 's) \<Rightarrow> string \<Rightarrow> ('c, 'h, 'v) helios_api \<Rightarrow> bool
      \<Rightarrow> ('s, 'v, (unit, u64 \<times> u64) res) prog" where
  "lightclient_prog got put site H on =
     (if on then
        ask_client got put (Inl (Panic site)) (hl_chain_id H) (\<lambda>chainid.
        ask_client got put (Inl (Panic site)) (hl_get_block_number H) (\<lambda>r.
          Reply (Inr (case r of Inr res \<Rightarrow> ucast res | Inl _ \<Rightarrow> 0, chainid))))
      else Reply (Inr (0, 0)))"

definition status_prog ::
    "('tx, 'pmt, 'w, 'p, 'e, 'o, 'h, 'g, 'ep, 'c, 'stx, 'acc, 'sg, 'v) node_libs \<Rightarrow> network_type \<Rightarrow> service
      \<Rightarrow> ('w, 'db, 'p, 'e, 'o, 's, 'v, (unit, string) res) cs_prog" where
  "status_prog LB net sv =
     and_then_res (act_prog (p2p_height (lb_p2p LB) BitCoin (sv_btc sv))) (\<lambda>btc_height.
     and_then_res (act_prog (p2p_height (lb_p2p LB) DogeCoin (sv_doge sv))) (\<lambda>doge_height.
     and_then_res (lightclient_prog helios_client (\<lambda>e st. st\<lparr>helios_client := Some e\<rparr>)
       ''status: helios_client'' (lb_eth LB) (sv_eth sv)) (\<lambda>(eth_height, eth_id).
     and_then_res (lightclient_prog helios_op_client (\<lambda>e st. st\<lparr>helios_op_client := Some e\<rparr>)
       ''status: helios_op_client'' (lb_op LB) (sv_op sv)) (\<lambda>(op_height, op_id).
       Reply (Inr (sgx_sign LB (ser_status LB
         \<lparr>p2p_btc_height = btc_height, rpc_btc_tip = 0, lightclient_eth_height = eth_height,
          p2p_doge_height = doge_height, lightclient_op_height = op_height,
          ss_btc_chainid = btc_chainid (nt_btc net), ss_eth_chainid = eth_id,
          ss_doge_chainid = doge_chainid (nt_doge net), ss_op_chainid = op_id\<rparr>)))))))"

definition ping_prog ::
    "('tx, 'pmt, 'w, 'p, 'e, 'o, 'h, 'g, 'ep, 'c, 'stx, 'acc, 'sg, 'v) node_libs \<Rightarrow> bool \<Rightarrow> string
      \<Rightarrow> ('w, 'db, 'p, 'e, 'o, 's, 'v, (unit, string) res) cs_prog" where
  "ping_prog LB sgx str =
     and_then_res (act_prog (p2p_tip (lb_p2p LB) BitCoin)) (\<lambda>(height, tip).
     and_then_res (act_prog (\<lambda>st. (get_tip (sync_headers (cs_store st)), st))) (\<lambda>rpc_tip.
     and_then_res (act_prog (p2p_tip (lb_p2p LB) DogeCoin)) (\<lambda>(doge_height, _).
       Reply (Inr (show_ping LB str sgx height (nk_block_hash (lb_p2p LB) tip) rpc_tip doge_height)))))"

definition text_prog :: "('s, 'v, (unit, string) res) prog \<Rightarrow> ('s, 'v, (unit, http_response) res option) prog" where
  "text_prog p = and_then p (\<lambda>r. Reply (Some (bind_res r (\<lambda>t. Inr (Text t)))))"

definition body_prog ::
    "'b option \<Rightarrow> ('b \<Rightarrow> ('s, 'v, (unit, http_response) res option) prog)
      \<Rightarrow> ('s, 'v, (unit, http_response) res option) prog" where
  "body_prog b k = (case b of None \<Rightarrow> Reply (Some (Inr Unprocessable)) | Some b \<Rightarrow> k b)"

definition route_prog ::
    "('tx, 'pmt, 'w, 'p, 'e, 'o, 'h, 'g, 'ep, 'c, 'stx, 'acc, 'sg, 'v) node_libs \<Rightarrow> nat list
      \<Rightarrow> bool \<Rightarrow> network_type \<Rightarrow> service \<Rightarrow> route \<Rightarrow> 'v option
      \<Rightarrow> ('w, 'db, 'p, 'e, 'o, 'ep sol_client, 'v, (unit, http_response) res option) cs_prog" where
  "route_prog LB polls sgx net sv r body =
     (let J = lb_json LB; sign = sgx_sign LB;
          verify = verify_transaction_prog J (lb_bitcoin LB) (lb_merkle LB) (lb_p2p LB) (lb_send LB)
            (\<lambda>v. sign (ser_verify LB v));
          headers = fetch_header_prog J (lb_p2p LB) polls (\<lambda>resps. sign (ser_btc LB resps))
      in case r of
           R_Status \<Rightarrow> text_prog (status_prog LB net sv)
         | R_Verify_Tx txid \<Rightarrow> text_prog (verify txid BitCoin)
         | R_Verify_Tx_Doge txid \<Rightarrow> text_prog (verify txid DogeCoin)
         | R_Ping str \<Rightarrow> text_prog (ping_prog LB sgx str)
         | R_Btc \<Rightarrow> body_prog (Option.bind body (jas_array J)) (\<lambda>vs. text_prog (headers BitCoin vs))
         | R_Doge \<Rightarrow> body_prog (Option.bind body (jas_array J)) (\<lambda>vs. text_prog (headers DogeCoin vs))
         | R_Eth \<Rightarrow> body_prog (Option.bind body (de_requests J))
             (\<lambda>reqs. text_prog (eth_prog J (lb_eth LB) (ser_eth LB) (ser_texts LB) reqs))
         | R_Eth2 \<Rightarrow> body_prog (Option.bind body (de_btc_req J))
             (\<lambda>req. text_prog (eth2_prog J (lb_eth LB) (ser_eth LB) sign req))
         | R_Optimism \<Rightarrow> body_prog (Option.bind body (de_btc_req J))
             (\<lambda>req. text_prog (optimism_prog J (lb_op LB) (ser_eth LB) sign req))
         | R_Sol \<Rightarrow> body_prog (Option.bind body (de_btc_req J))
             (\<lambda>req. and_then (sol_prog J (lb_sol LB) (lb_sol_env LB) (ser_sol LB) sign req)
                (\<lambda>r. Reply (map_option (\<lambda>r. bind_res r (\<lambda>t. Inr (Text t))) r))))"

definition middle_ware_prog ::
    "('tx, 'pmt, 'w, 'p, 'e, 'o, 'h, 'g, 'ep, 'c, 'stx, 'acc, 'sg, 'v) node_libs \<Rightarrow> nat list
      \<Rightarrow> bool \<Rightarrow> network_type \<Rightarrow> service \<Rightarrow> http_method \<Rightarrow> string \<Rightarrow> 'v option
      \<Rightarrow> ('w, 'db, 'p, 'e, 'o, 'ep sol_client, 'v, (unit, http_response) res option) cs_prog" where
  "middle_ware_prog LB polls sgx net sv verb path body =
     (if is_service_enabled sv path then
        (case route_of path of
           None \<Rightarrow> Reply (Some (Inr Route_Not_Found))
         | Some (m, r) \<Rightarrow>
             if verb \<noteq> m then Reply (Some (Inr Method_Not_Allowed)) else route_prog LB polls sgx net sv r body)
      else Reply (Some (Inr Service_Unavailable)))"

end
