(* ===== verification/Node_Main.thy ===== *)
theory Node_Main
  imports Server
begin

text \<open>
  \<open>main.rs\<close>: the start of the node. The clients of the services that are switched on are started
  in the source's order, any failure being a panic, then the store is opened and the server
  runs, if one of two options asks for it. What starts the clients outside the repository
  (light clients, P2P clients, the connection to a full node) is gathered in \<open>starters\<close>.
\<close>

text \<open>The options of the command line; addresses are strings.\<close>

record node_config =
  cf_service :: service
  cf_network_type :: network
  cf_daemon_rpc_addr :: string
  cf_cookie :: "string option"
  cf_doge_network_type :: network
  cf_doge_daemon_rpc_addr :: string
  cf_doge_cookie :: "string option"
  cf_regtest_peer :: "string list"
  cf_http_addr :: string
  cf_store :: string
  cf_subclient_url :: string
  cf_device_owner :: string
  cf_watcher_device_id :: string
  cf_relate_device_id_test :: string
  cf_sgx_enable :: bool
  cf_thread :: nat
  cf_consensus_rpc :: string
  cf_execution_rpc :: string
  cf_eth_network :: string
  cf_op_consensus_rpc :: string
  cf_op_execution_rpc :: string
  cf_op_network :: string
  cf_sol_judge_rpc :: string
  cf_sol_extra_rpcs :: string
  cf_electrs_support :: bool
  cf_disable_helios :: bool
  cf_btc_only_p2p :: bool
  cf_start_filter :: string

record ('w, 'db, 'p, 'e, 'o) starters =
  start_eth :: "(unit, 'e) res"
  start_op :: "(unit, 'o) res"
  start_btc :: "network \<Rightarrow> (unit, 'p) res"
  start_doge :: "network \<Rightarrow> (unit, 'p) res"
  connect :: "network \<Rightarrow> string \<Rightarrow> string \<Rightarrow> 'w"
  raw_store :: 'db

text \<open>A client that is started if its service is on.\<close>

definition if_enabled :: "bool \<Rightarrow> (unit, 'a) res \<Rightarrow> (unit, 'a option) res" where
  "if_enabled on start = (if on then bind_res start (\<lambda>a. Inr (Some a)) else Inr None)"

definition initialize_helios_client ::
    "('w, 'db, 'p, 'e, 'o) starters \<Rightarrow> node_config \<Rightarrow> (unit, 'e option \<times> 'o option) res" where
  "initialize_helios_client X cf =
     bind_res (if_enabled (sv_eth (cf_service cf)) (start_eth X)) (\<lambda>eth_client.
     bind_res (if_enabled (sv_op (cf_service cf)) (start_op X)) (\<lambda>op_client.
       Inr (eth_client, op_client)))"

definition initialize_p2p_clients ::
    "('w, 'db, 'p, 'e, 'o) starters \<Rightarrow> node_config \<Rightarrow> (unit, 'p option \<times> 'p option) res" where
  "initialize_p2p_clients X cf =
     bind_res (if_enabled (sv_btc (cf_service cf)) (start_btc X (cf_network_type cf))) (\<lambda>btc_handle.
     bind_res (if_enabled (sv_doge (cf_service cf)) (start_doge X (cf_doge_network_type cf))) (\<lambda>doge_handle.
       Inr (btc_handle, doge_handle)))"

text \<open>A full node's connection needs a cookie; an error of the constructor is unwrapped.\<close>

definition start_daemon ::
    "'v json_api \<Rightarrow> ('tx, 'pmt) bitcoin_api \<Rightarrow> ('w, 'v) transport \<Rightarrow> ('w, 'db, 'p, 'e, 'o) starters
      \<Rightarrow> string \<Rightarrow> string option \<Rightarrow> network \<Rightarrow> bool \<Rightarrow> (unit, 'w daemon) res" where
  "start_daemon J B send X addr cookie network electrs_support =
     bind_res (unwrap_res ''initialize_daemons: cookie'' cookie) (\<lambda>cookie.
       case daemon_new J B send (connect X network addr cookie) network electrs_support of
         Inr d \<Rightarrow> Inr d
       | Inl (Panic site) \<Rightarrow> Inl (Panic site)
       | Inl (Err _) \<Rightarrow> Inl (Panic ''initialize_daemons: new''))"

definition initialize_daemons ::
    "'v json_api \<Rightarrow> ('tx, 'pmt) bitcoin_api \<Rightarrow> ('w, 'v) transport \<Rightarrow> ('w, 'db, 'p, 'e, 'o) starters
      \<Rightarrow> node_config \<Rightarrow> (unit, 'w daemon option \<times> 'w daemon option) res" where
  "initialize_daemons J B send X cf =
     bind_res (if_enabled (sv_btc (cf_service cf))
         (start_daemon J B send X (cf_daemon_rpc_addr cf) (cf_cookie cf) (cf_network_type cf) (cf_electrs_support cf))) (\<lambda>btc_daemon.
     bind_res (if_enabled (sv_doge (cf_service cf))
         (start_daemon J B send X (cf_doge_daemon_rpc_addr cf) (cf_doge_cookie cf) (cf_doge_network_type cf) (cf_electrs_support cf))) (\<lambda>doge_daemon.
       Inr (btc_daemon, doge_daemon)))"

definition initialize_chains_state ::
    "'db store \<Rightarrow> 'w daemon option \<Rightarrow> 'w daemon option \<Rightarrow> 'p option \<Rightarrow> 'p option \<Rightarrow> 'e option \<Rightarrow> 'o option
      \<Rightarrow> 's option \<Rightarrow> (bytes, 'v) simple_cache \<Rightarrow> ('w, 'db, 'p, 'e, 'o, 's, 'v) chains_state" where
  "initialize_chains_state store btc_d doge_d btc_h doge_h eth_c op_c sol_c cache =
     chains_state_new store btc_d doge_d btc_h doge_h eth_c op_c sol_c cache"

text \<open>\<open>main\<close> up to the server: the shared state of the requests.\<close>

definition node_main ::
    "('tx, 'pmt, 'w, 'p, 'e, 'o, 'h, 'g, 'ep, 'c, 'stx, 'acc, 'sg, 'v) node_libs \<Rightarrow> 'db kv_api \<Rightarrow> codec
      \<Rightarrow> (string list \<Rightarrow> string list) \<Rightarrow> bool \<Rightarrow> ('w, 'db, 'p, 'e, 'o) starters \<Rightarrow> node_config
      \<Rightarrow> (unit, ('w, 'db, 'p, 'e, 'o, 'ep sol_client, 'v) chains_state) res" where
  "node_main LB K C url_order single_rpc X cf =
     bind_res (initialize_helios_client X cf) (\<lambda>(eth_c, op_c).
     bind_res (initialize_p2p_clients X cf) (\<lambda>(btc_h, doge_h).
     bind_res (initialize_daemons (lb_json LB) (lb_bitcoin LB) (lb_send LB) X cf) (\<lambda>(btc_d, doge_d).
     bind_res (case initialize_sol_client (env_rpc (lb_sol_env LB)) url_order single_rpc (cf_service cf)
                 (cf_sol_judge_rpc cf) (cf_sol_extra_rpcs cf) of
                 Inl _ \<Rightarrow> Inl (Panic ''main: initialize_sol_client'') | Inr c \<Rightarrow> Inr c) (\<lambda>sol_c.
     bind_res (store_open K C (block_hash_of (lb_bitcoin LB)) (raw_store X)) (\<lambda>store.
       Inr (initialize_chains_state store btc_d doge_d btc_h doge_h eth_c op_c sol_c (cache_new 2000)))))))"

text \<open>
  The state the server's routes share. Binding the address and serving it are the library's; \<open>served\<close> and
  \<open>concurrent\<close> are what it does with the routes.
\<close>

definition start ::
    "('w, 'db, 'p, 'e, 'o, 's, 'v) chains_state \<Rightarrow> bool \<Rightarrow> network_type \<Rightarrow> service
      \<Rightarrow> ('w, 'db, 'p, 'e, 'o, 's, 'v) app_state" where
  "start cs sgx network service =
     \<lparr>chain_state = cs, as_sgx = sgx, as_network = network, as_service = service\<rparr>"

definition run_server ::
    "('w, 'db, 'p, 'e, 'o, 's, 'v) chains_state \<Rightarrow> node_config \<Rightarrow> ('w, 'db, 'p, 'e, 'o, 's, 'v) app_state" where
  "run_server cs cf =
     (let service = cf_service cf
      in start cs (cf_sgx_enable cf) \<lparr>nt_btc = cf_network_type cf, nt_doge = cf_doge_network_type cf\<rparr> service)"

text \<open>None if the process ends instead.\<close>

definition start_server ::
    "('w, 'db, 'p, 'e, 'o, 's, 'v) chains_state \<Rightarrow> node_config
      \<Rightarrow> ('w, 'db, 'p, 'e, 'o, 's, 'v) app_state option" where
  "start_server cs cf =
     (if cf_electrs_support cf \<or> cf_btc_only_p2p cf then Some (run_server cs cf) else None)"

lemma run_server_eq [simp]:
  "run_server cs cf = \<lparr>chain_state = cs, as_sgx = cf_sgx_enable cf,
     as_network = \<lparr>nt_btc = cf_network_type cf, nt_doge = cf_doge_network_type cf\<rparr>, as_service = cf_service cf\<rparr>"
  by (simp add: run_server_def start_def)

text \<open>
  The states of a running server: the start, then any requests one after the other; a request
  whose handler waits or panics leaves the state it has changed so far.
\<close>

inductive served ::
    "('tx, 'pmt, 'w, 'p, 'e, 'o, 'h, 'g, 'ep, 'c, 'stx, 'acc, 'sg, 'v) node_libs \<Rightarrow> 'db kv_api \<Rightarrow> codec
      \<Rightarrow> ('w, 'db, 'p, 'e, 'o) starters \<Rightarrow> node_config
      \<Rightarrow> ('w, 'db, 'p, 'e, 'o, 'ep sol_client, 'v) app_state \<Rightarrow> bool"
  for LB K C X cf where
  served_start:
    "node_main LB K C url_order single_rpc X cf = Inr cs \<Longrightarrow> start_server cs cf = Some app \<Longrightarrow>
     served LB K C X cf app"
| served_request:
    "served LB K C X cf app \<Longrightarrow>
     middle_ware (LB\<lparr>lb_sol_env := (lb_sol_env LB)\<lparr>env_schedule := sched\<rparr>\<rparr>) verb path body app = (resp, app') \<Longrightarrow>
     served LB K C X cf app'"

end
