(* ===== verification/System_Facts.thy ===== *)
theory System_Facts
  imports Node_Main Btc_Rpc_Facts
begin

text \<open>
  What is said of the state all requests share: which clients it holds, its header store, and that the
  response cache has nothing but true headers under the keys of blocks; and how the state starts.
  \<open>Concurrent_Facts\<close> shows that every handler keeps these.
\<close>

subsection \<open>Clients\<close>

text \<open>Which clients a state holds: the fields the services' handlers unwrap.\<close>

definition clients :: "('w, 'db, 'p, 'e, 'o, 's, 'v) chains_state \<Rightarrow> bool list" where
  "clients cs =
     [btc_daemon cs \<noteq> None, btc_handle cs \<noteq> None, doge_daemon cs \<noteq> None, doge_handle cs \<noteq> None,
      helios_client cs \<noteq> None, helios_op_client cs \<noteq> None, chains_state.sol_client cs \<noteq> None]"

definition clients_of :: "service \<Rightarrow> bool list" where
  "clients_of sv = [sv_btc sv, sv_btc sv, sv_doge sv, sv_doge sv, sv_eth sv, sv_op sv, sv_sol sv]"

lemma clients_updates [simp]:
  "clients (cs\<lparr>response_cache := c\<rparr>) = clients cs"
  "chain_handle chain cs = Some p \<Longrightarrow> clients (set_chain_handle chain p' cs) = clients cs"
  "chain_daemon chain cs = Some d \<Longrightarrow> clients (set_chain_daemon chain d' cs) = clients cs"
  "helios_client cs = Some e \<Longrightarrow> clients (cs\<lparr>helios_client := Some e'\<rparr>) = clients cs"
  "helios_op_client cs = Some e1 \<Longrightarrow> clients (cs\<lparr>helios_op_client := Some e1'\<rparr>) = clients cs"
  "helios_client cs = Some e \<Longrightarrow> clients (cs\<lparr>helios_client := Some e', response_cache := c\<rparr>) = clients cs"
  "helios_op_client cs = Some e1 \<Longrightarrow> clients (cs\<lparr>helios_op_client := Some e1', response_cache := c\<rparr>) = clients cs"
  "chains_state.sol_client cs = Some s \<Longrightarrow> clients (cs\<lparr>sol_client := Some s'\<rparr>) = clients cs"
  "chains_state.sol_client cs = Some s \<Longrightarrow> clients (cs\<lparr>sol_client := Some s', response_cache := c\<rparr>) = clients cs"
  by (cases chain; simp add: clients_def chain_handle_def set_chain_handle_def chain_daemon_def set_chain_daemon_def)+

lemma chain_handle_set [simp]:
  "chain_handle chain (set_chain_handle chain p cs) = Some p"
  "chain_handle chain (set_chain_daemon chain' d cs) = chain_handle chain cs"
  "response_cache (set_chain_handle chain p cs) = response_cache cs"
  "response_cache (set_chain_daemon chain d cs) = response_cache cs"
  "chain_handle chain (cs\<lparr>response_cache := c\<rparr>) = chain_handle chain cs"
  "chain_handle chain (cs\<lparr>helios_client := x\<rparr>) = chain_handle chain cs"
  "chain_handle chain (cs\<lparr>helios_op_client := y\<rparr>) = chain_handle chain cs"
  "chain_handle chain (cs\<lparr>sol_client := z\<rparr>) = chain_handle chain cs"
  by (cases chain; cases chain'; simp add: chain_handle_def set_chain_handle_def set_chain_daemon_def)+

lemma chain_handle_set_other:
  "chain_handle chain' (set_chain_handle chain p cs) =
     (if chain' = chain then Some p else chain_handle chain' cs)"
  by (cases chain; cases chain'; simp add: chain_handle_def set_chain_handle_def)

text \<open>A request changes the shared state by its route only.\<close>

lemma middle_ware_state:
  "chain_state (snd (middle_ware LB verb path body app)) = chain_state app \<or>
   (\<exists>r. chain_state (snd (middle_ware LB verb path body app)) =
      snd (run_route LB (as_sgx app) (as_network app) (as_service app) r body (chain_state app)))"
  "as_service (snd (middle_ware LB verb path body app)) = as_service app"
  by (auto simp: middle_ware_def split: option.splits prod.splits) (metis snd_conv)+

text \<open>The libraries with the schedule of one request, and what holds in every state of the server.\<close>

abbreviation scheduled where
  "scheduled LB sched \<equiv> LB\<lparr>lb_sol_env := (lb_sol_env LB)\<lparr>env_schedule := sched\<rparr>\<rparr>"

lemma served_service: "served LB K C X cf app \<Longrightarrow> as_service app = cf_service cf"
proof (induction rule: served.induct)
  case (served_request app sched verb path body resp app')
  then show ?case using middle_ware_state(2)[of "scheduled LB sched" verb path body app] by simp
qed (auto simp: start_server_def split: if_splits)

lemma served_invariant:
  assumes "served LB K C X cf app"
    and "\<And>url_order single_rpc cs. node_main LB K C url_order single_rpc X cf = Inr cs \<Longrightarrow> I cs"
    and "\<And>sched sgx net sv r body cs. I cs \<Longrightarrow> I (snd (run_route (scheduled LB sched) sgx net sv r body cs))"
  shows "I (chain_state app)"
  using assms(1)
proof (induction rule: served.induct)
  case (served_start url_order single_rpc cs app)
  then show ?case using assms(2) by (auto simp: start_server_def split: if_splits)
next
  case (served_request app sched verb path body resp app')
  then show ?case
    using middle_ware_state(1)[of "scheduled LB sched" verb path body app] assms(3) by auto
qed

subsection \<open>The header store\<close>

lemma set_chain_store [simp]:
  "cs_store (set_chain_handle chain p cs) = cs_store cs"
  "cs_store (set_chain_daemon chain d cs) = cs_store cs"
  by (cases chain; simp add: set_chain_handle_def set_chain_daemon_def)+

subsection \<open>The cache stays true\<close>

text \<open>
  The libraries behave as documented: P2P clients return the blocks they are asked for, the JSON
  form of a header is its own only, a receipt is not the JSON form of a header, and Solana
  signatures have 64 bytes (so that they never are the key of a block).
\<close>

definition libs_ok ::
    "('tx, 'pmt, 'w, 'p, 'e, 'o, 'h, 'g, 'ep, 'c, 'stx, 'acc, 'sg, 'v) node_libs \<Rightarrow> ('p \<Rightarrow> bool)
      \<Rightarrow> block_header set \<Rightarrow> bool" where
  "libs_ok LB Q S \<longleftrightarrow> p2p_ok (lb_p2p LB) Q S \<and> header_json_ok (lb_json LB) (lb_p2p LB) \<and>
     nk_conv_ok (lb_bitcoin LB) (lb_p2p LB) \<and>
     (\<forall>x v. hl_to_value (lb_eth LB) x = Inr v \<longrightarrow> (\<exists>e. nk_from_value (lb_p2p LB) v = Inl e)) \<and>
     (\<forall>x v. hl_to_value (lb_op LB) x = Inr v \<longrightarrow> (\<exists>e. nk_from_value (lb_p2p LB) v = Inl e)) \<and>
     (\<forall>t sig. sv_signature (lb_sol LB) t = Inr sig \<longrightarrow> length sig = 64)"

lemma libs_okD:
  assumes "libs_ok LB Q S"
  shows "p2p_ok (lb_p2p LB) Q S" "header_json_ok (lb_json LB) (lb_p2p LB)"
    "nk_conv_ok (lb_bitcoin LB) (lb_p2p LB)"
    "hl_to_value (lb_eth LB) x = Inr v \<Longrightarrow> \<exists>e. nk_from_value (lb_p2p LB) v = Inl e"
    "hl_to_value (lb_op LB) y = Inr v \<Longrightarrow> \<exists>e. nk_from_value (lb_p2p LB) v = Inl e"
    "sv_signature (lb_sol LB) t = Inr sig \<Longrightarrow> length sig = 64"
  using assms unfolding libs_ok_def by blast+

definition state_true ::
    "('p, 'v) nakamoto_api \<Rightarrow> ('p \<Rightarrow> bool) \<Rightarrow> block_header set
      \<Rightarrow> ('w, 'db, 'p, 'e, 'o, 's, 'v) chains_state \<Rightarrow> bool" where
  "state_true N Q S cs \<longleftrightarrow> header_cache N S (response_cache cs) \<and>
     (\<forall>chain p. chain_handle chain cs = Some p \<longrightarrow> Q p)"

lemma handle_request_op_eq: "handle_request_op J H req s = handle_request J H req s"
  by (simp add: handle_request_op_def handle_request_def handle_get_logs_op_def[abs_def]
      handle_get_block_by_number_op_def[abs_def] handle_get_transaction_receipt_op_def[abs_def] split: option.split)

lemma state_true_updates:
  "state_true N Q S (cs\<lparr>helios_client := a\<rparr>) = state_true N Q S cs"
  "state_true N Q S (cs\<lparr>helios_op_client := b\<rparr>) = state_true N Q S cs"
  "state_true N Q S (cs\<lparr>sol_client := c\<rparr>) = state_true N Q S cs"
  "state_true N Q S (set_chain_daemon chain d cs) = state_true N Q S cs"
  "header_cache N S cache \<Longrightarrow> state_true N Q S cs \<Longrightarrow> state_true N Q S (cs\<lparr>response_cache := cache\<rparr>)"
  "Q p \<Longrightarrow> state_true N Q S cs \<Longrightarrow> state_true N Q S (set_chain_handle chain p cs)"
  by (auto simp: state_true_def chain_handle_set_other split: if_splits)

text \<open>The state a started server has, and all later ones.\<close>

lemma started_true:
  assumes "node_main LB K C url_order single_rpc X cf = Inr cs"
    and "\<And>n p. start_btc X n = Inr p \<Longrightarrow> Q p" "\<And>n p. start_doge X n = Inr p \<Longrightarrow> Q p"
  shows "state_true N Q S cs"
proof -
  have on: "if_enabled b r = Inr (Some p) \<Longrightarrow> r = Inr p" for b p and r :: "(unit, 'z) res"
    by (auto simp: if_enabled_def res_simps split: if_splits)
  have "header_cache N S (cache_new n)" for n by (simp add: sc.holds_all_def cache_ok_new)
  with assms show ?thesis
    by (auto simp: node_main_def initialize_p2p_clients_def initialize_chains_state_def state_true_def
        chain_handle_def res_simps split: sum.splits prod.splits proof_chain.splits dest!: on)
qed

end
