(* ===== verification/Interleaving_Facts.thy ===== *)
theory Interleaving_Facts
  imports Interleaving System_Facts
begin

text \<open>
  A program run without interference is the handler it models: \<open>run_prog\<close> of the program of a
  route is the function that \<open>Server\<close> defines for the route. The clients held in the shared state are
  places that can be read and written; the locale \<open>client_slot\<close> states what that means and is
  interpreted for all of them.
\<close>

subsection \<open>Running composed programs\<close>

lemma run_and_then: "run_prog (and_then p k) s = (case run_prog p s of (r, s') \<Rightarrow> run_prog (k r) s')"
  by (induction p arbitrary: s) simp_all

lemma run_and_then_res: "run_prog (and_then_res p k) s = bind_act (run_prog p) (\<lambda>x. run_prog (k x)) s"
  by (auto simp: and_then_res_def run_and_then bind_act_def split: prod.split sum.split)

lemma run_act_prog: "run_prog (act_prog m) s = m s"
  by (simp add: act_prog_def)

lemma run_need_client: "run_prog (need_client got fail p) s = (if got s = None then (fail, s) else run_prog p s)"
  by (simp add: need_client_def)

lemma run_text_prog: "run_prog (text_prog p) s = text_act (lift_act (run_prog p)) s"
  by (simp add: text_prog_def run_and_then text_act_def lift_act_def split: prod.split)

lemma run_body_prog: "run_prog (body_prog b k) s = with_body b (\<lambda>x. run_prog (k x)) s"
  by (simp add: body_prog_def with_body_def split: option.split)

lemmas run_simps = run_and_then_res run_act_prog run_need_client run_text_prog run_body_prog

lemma cache_same [simp]: "s\<lparr>response_cache := response_cache s\<rparr> = s"
  by (cases s) simp

lemma bind_act_assoc: "bind_act (bind_act m k) l s = bind_act m (\<lambda>x. bind_act (k x) l) s"
  by (auto simp: bind_act_def split: prod.split sum.split)

primrec seq_acts :: "('s, 'e, 'a) act list \<Rightarrow> ('s, 'e, 'a list) act" where
  "seq_acts [] = ret_act (Inr [])"
| "seq_acts (m # ms) = bind_act m (\<lambda>x. bind_act (seq_acts ms) (\<lambda>xs. ret_act (Inr (x # xs))))"

lemma handle_batch_seq: "handle_batch J N reqs = seq_acts (map (handle_btc_request J N) reqs)"
  by (induction reqs) simp_all

lemma handle_requests_seq: "handle_requests J H reqs = seq_acts (map (handle_request J H) reqs)"
  by (induction reqs) simp_all

subsection \<open>The places of the clients\<close>

locale client_slot =
  fixes got :: "('w, 'db, 'p, 'e, 'o, 's, 'v) chains_state \<Rightarrow> 'c option"
    and put :: "'c \<Rightarrow> ('w, 'db, 'p, 'e, 'o, 's, 'v) chains_state \<Rightarrow> ('w, 'db, 'p, 'e, 'o, 's, 'v) chains_state"
  assumes got_put: "got (put c s) = Some c"
    and put_put: "put c (put c' s) = put c s"
    and put_got: "got s = Some c \<Longrightarrow> put c s = s"
    and got_cache: "got (s\<lparr>response_cache := x\<rparr>) = got s"
    and put_cache: "put c (s\<lparr>response_cache := x\<rparr>) = (put c s)\<lparr>response_cache := x\<rparr>"
    and cache_put: "response_cache (put c s) = response_cache s"
begin

lemma run_ask: "got s = Some c \<Longrightarrow>
    run_prog (ask_client got put fail m k) s = (case m c of (a, c') \<Rightarrow> run_prog (k a) (put c' s))"
  by (simp add: ask_client_def case_prod_beta)

lemma run_ask_None: "got s = None \<Longrightarrow> run_prog (ask_client got put fail m k) s = (fail, s)"
  by (simp add: ask_client_def)

text \<open>A function on the client and the cache, at its place in the shared state.\<close>

definition at_slot :: "'c \<Rightarrow> ('c \<times> (bytes, 'v) simple_cache \<Rightarrow> 'r \<times> 'c \<times> (bytes, 'v) simple_cache)
    \<Rightarrow> ('w, 'db, 'p, 'e, 'o, 's, 'v) chains_state \<Rightarrow> 'r \<times> ('w, 'db, 'p, 'e, 'o, 's, 'v) chains_state" where
  "at_slot c m s = (case m (c, response_cache s) of (r, c', cache) \<Rightarrow> (r, (put c' s)\<lparr>response_cache := cache\<rparr>))"

definition runs_at :: "(('w, 'db, 'p, 'e, 'o, 's, 'v) chains_state, 'v, 'r) prog
    \<Rightarrow> ('c \<times> (bytes, 'v) simple_cache \<Rightarrow> 'r \<times> 'c \<times> (bytes, 'v) simple_cache) \<Rightarrow> bool" where
  "runs_at p m \<longleftrightarrow> (\<forall>s c. got s = Some c \<longrightarrow> run_prog p s = at_slot c m s)"

lemma runs_atI: "(\<And>s c. got s = Some c \<Longrightarrow> run_prog p s = at_slot c m s) \<Longrightarrow> runs_at p m"
  and runs_atD: "runs_at p m \<Longrightarrow> got s = Some c \<Longrightarrow> run_prog p s = at_slot c m s"
  by (simp_all add: runs_at_def)

lemma runs_at_Reply: "runs_at (Reply r) (\<lambda>x. (r, x))"
  by (simp add: runs_at_def at_slot_def put_got)

text \<open>Programs one after the other are the functions one after the other.\<close>

lemma runs_at_in_order:
  assumes "list_all2 runs_at ps ms"
  shows "runs_at (in_order ps) (seq_acts ms)"
  using assms
proof (induction rule: list_all2_induct)
  case Nil
  show ?case using runs_at_Reply[of "Inr []"] by (simp add: ret_act_def[abs_def])
next
  case (Cons p ps m ms)
  show ?case
  proof (rule runs_atI)
    fix s c assume g: "got s = Some c"
    obtain r c1 k1 where m: "m (c, response_cache s) = (r, c1, k1)" by (metis prod_cases3)
    let ?s = "(put c1 s)\<lparr>response_cache := k1\<rparr>"
    obtain r2 c2 k2 where m2: "seq_acts ms (c1, k1) = (r2, c2, k2)" by (metis prod_cases3)
    have "run_prog p s = (r, ?s)" using runs_atD[OF Cons.hyps(1) g] m by (simp add: at_slot_def)
    moreover have "run_prog (in_order ps) ?s = (r2, (put c2 s)\<lparr>response_cache := k2\<rparr>)"
      using runs_atD[OF Cons.IH, of ?s c1] m2
      by (simp add: at_slot_def got_cache got_put put_cache put_put)
    ultimately show "run_prog (in_order (p # ps)) s = at_slot c (seq_acts (m # ms)) s"
      using m m2 by (cases r; cases r2) (simp_all add: run_and_then_res bind_act_def at_slot_def)
  qed
qed

text \<open>A handler that uses the client only, and the handler of receipts, which all light clients share.\<close>

lemma put_back [simp]: "got s = Some c \<Longrightarrow> put c s = s"
  and cache_put' [simp]: "(put c s)\<lparr>response_cache := response_cache s\<rparr> = put c s"
  by (simp add: put_got) (metis cache_put cache_same)

lemma runs_at_receipt: "runs_at (receipt_prog got put site J H params i) (handle_get_transaction_receipt J H params i)"
proof (rule runs_atI)
  fix s c assume g: "got s = Some c"
  then show "run_prog (receipt_prog got put site J H params i) s =
      at_slot c (handle_get_transaction_receipt J H params i) s"
    by (auto simp: receipt_prog_def handle_get_transaction_receipt_def at_slot_def run_ask cache_put
        split: option.split sum.split prod.split)
qed

lemma runs_at_eth: "runs_at (eth_request_prog got put site J H req) (handle_request J H req)"
proof (rule runs_atI)
  fix s c assume g: "got s = Some c"
  have "run_prog (ask_client got put fail m Reply) s = at_slot c (on_client m) s" for m :: "('c, unit, 'v eth_resp) act" and fail
    using g by (simp add: at_slot_def run_ask on_client_def cache_put split: prod.split)
  then show "run_prog (eth_request_prog got put site J H req) s = at_slot c (handle_request J H req) s"
    using g by (simp add: eth_request_prog_def handle_request_def at_slot_def
        runs_atD[OF runs_at_receipt g, unfolded at_slot_def] split: option.split)
qed

end

interpretation handle: client_slot "chain_handle chain" "set_chain_handle chain" for chain
  by unfold_locales (cases chain; simp add: chain_handle_def set_chain_handle_def)+

interpretation eth_slot: client_slot helios_client "\<lambda>e s. s\<lparr>helios_client := Some e\<rparr>"
  by unfold_locales simp_all

interpretation op_slot: client_slot helios_op_client "\<lambda>e s. s\<lparr>helios_op_client := Some e\<rparr>"
  by unfold_locales simp_all

interpretation sol_slot: client_slot chains_state.sol_client "\<lambda>e s. s\<lparr>sol_client := Some e\<rparr>"
  by unfold_locales simp_all

interpretation node_slot: client_slot "chain_daemon chain" "set_chain_daemon chain" for chain
  by unfold_locales (cases chain; simp add: chain_daemon_def set_chain_daemon_def)+

subsection \<open>Every handler\<close>

lemma runs_at_btc: "handle.runs_at chain (btc_request_prog J N chain req) (handle_btc_request J N req)"
proof (rule handle.runs_atI, goal_cases)
  case (1 s p)
  note g = this
  note run = handle.run_ask[OF g] and at = handle.at_slot_def[of chain] and same = handle.put_back[OF g] handle.cache_put
  have "run_prog (getbestblockhash_prog J N chain params i) s =
      handle.at_slot chain p (handle_getbestblockhash J N params i) s" for params i
    by (auto simp: getbestblockhash_prog_def handle_getbestblockhash_def at run same split: sum.split prod.split)
  moreover have "run_prog (getblockheader_prog J N chain params i) s =
      handle.at_slot chain p (handle_getblockheader J N params i) s" for params i
    by (auto simp: getblockheader_prog_def handle_getblockheader_def Let_def at run same
        split: sum.split prod.split option.split)
  moreover have "run_prog (getblockhash_prog J N chain params i) s =
      handle.at_slot chain p (handle_getblockhash J N params i) s" for params i
    by (auto simp: getblockhash_prog_def handle_getblockhash_def Let_def at run same
        split: sum.split prod.split option.split)
  ultimately show ?case
    by (auto simp: btc_request_prog_def handle_btc_request_def at same split: sum.split option.split)
qed

lemma runs_at_sol:
  fixes V :: "('f, 'c, 'tx, 'acc, 'sg) sol_env" and J :: "'v json_api"
  shows "sol_slot.runs_at (sol_request_prog J L V req) (handle_sol_request J L V req)"
proof (rule sol_slot.runs_atI, goal_cases)
  case (1 s c)
  note g = this
  note run = sol_slot.run_ask[OF g] and at = sol_slot.at_slot_def and same = sol_slot.put_back[OF g] sol_slot.cache_put
  have "run_prog (sol_transaction_prog J L V params i) s =
      sol_slot.at_slot c (handle_get_transaction J L V params i) s" for params i
    using g by (auto simp: sol_transaction_prog_def handle_get_transaction_def Let_def at run same ask_client_def
        split: sum.split prod.split option.split)
  moreover have "run_prog (ask_sol m Reply) s = sol_slot.at_slot c (on_sol m) s" for m :: "('f sol_client, 'v sol_resp) waiting_act"
    by (auto simp: on_sol_def at run split: prod.split)
  ultimately show ?case
    by (auto simp: sol_request_prog_def handle_sol_request_def at same split: sum.split option.split sol_method.split)
qed

lemma run_p2p_header: "run_prog (p2p_header_prog N chain b) s = p2p_header N chain b s"
proof (cases "chain_handle chain s")
  case None
  then show ?thesis
    by (auto simp: p2p_header_prog_def p2p_header_def handle.run_ask_None split: option.split sum.split)
next
  case (Some p)
  then show ?thesis
    by (auto simp: p2p_header_prog_def p2p_header_def Let_def handle.run_ask split: option.split sum.split prod.split)
qed

lemma run_verify_txid: "run_prog (verify_txid_prog B M N mb param) s = verify_txid B M N mb param s"
  by (auto simp: verify_txid_prog_def verify_txid_def Let_def run_and_then_res run_p2p_header bind_act_def
      unwrap_res_def ret_act_def split: option.split sum.split prod.split)

lemma run_fetch_proof: "run_prog (fetch_proof_and_verify_prog J B M N send param) s = fetch_proof_and_verify J B M N send param s"
proof (cases "chain_daemon (mp_chain param) s")
  case None
  then show ?thesis by (simp add: fetch_proof_and_verify_prog_def fetch_proof_and_verify_def node_slot.run_ask_None)
next
  case (Some d)
  then show ?thesis
    by (auto simp: fetch_proof_and_verify_prog_def fetch_proof_and_verify_def node_slot.run_ask run_verify_txid
        split: prod.split sum.split)
qed

lemma run_verify_transaction:
  "run_prog (verify_transaction_prog J B M N send sign txid chain) s = verify_transaction J B M N send sign txid chain s"
  by (auto simp: verify_transaction_prog_def verify_transaction_def run_and_then run_fetch_proof
      split: sum.split fault.split prod.split)

lemma run_fetch_header:
  "run_prog (fetch_header_prog J N [] sign chain payload) s = on_chain chain (handle_fetch_header J N sign payload) s"
proof (cases "chain_handle chain s")
  case (Some p)
  have "list_all2 (handle.runs_at chain) (map (btc_request_prog J N chain) payload) (map (handle_btc_request J N) payload)"
    by (simp add: list_all2_conv_all_nth runs_at_btc)
  from handle.runs_atD[OF handle.runs_at_in_order[OF this] Some] Some show ?thesis
    by (auto simp: fetch_header_prog_def run_simps on_chain_def handle_fetch_header_def handle_batch_seq
        bind_act_def handle.at_slot_def ret_act_def split: prod.split sum.split)
qed (simp add: fetch_header_prog_def run_simps on_chain_def)

lemma run_eth: "run_prog (eth_prog J H ser ser_list payload) s = eth J H ser ser_list payload s"
proof (cases "helios_client s")
  case (Some e)
  have "list_all2 eth_slot.runs_at
      (map (eth_request_prog helios_client (\<lambda>e st. st\<lparr>helios_client := Some e\<rparr>) ''eth: helios_client'' J H) payload)
      (map (handle_request J H) payload)"
    by (simp add: list_all2_conv_all_nth eth_slot.runs_at_eth)
  from eth_slot.runs_atD[OF eth_slot.runs_at_in_order[OF this] Some] Some show ?thesis
    by (auto simp: eth_prog_def run_simps eth_def handle_requests_seq bind_act_def eth_slot.at_slot_def Let_def
        split: prod.split sum.split)
qed (simp add: eth_prog_def run_simps eth_def)

lemma run_eth2: "run_prog (eth2_prog J H ser sign req) s = eth2 J H ser sign req s"
proof (cases "helios_client s")
  case (Some e)
  from eth_slot.runs_atD[OF eth_slot.runs_at_eth[of "''eth2: helios_client''" J H req] Some] Some show ?thesis
    by (auto simp: eth2_prog_def run_simps eth2_def bind_act_def eth_slot.at_slot_def split: prod.split sum.split)
qed (simp add: eth2_prog_def run_simps eth2_def)

lemma run_optimism: "run_prog (optimism_prog J H ser sign req) s = optimism J H ser sign req s"
proof (cases "helios_op_client s")
  case (Some e)
  from op_slot.runs_atD[OF op_slot.runs_at_eth[of "''optimism: helios_op_client''" J H req] Some] Some show ?thesis
    by (auto simp: optimism_prog_def run_simps optimism_def bind_act_def op_slot.at_slot_def handle_request_op_eq
        split: prod.split sum.split)
qed (simp add: optimism_prog_def run_simps optimism_def)

lemma run_sol: "run_prog (sol_prog J L V ser sign req) s = sol J L V ser sign req s"
proof (cases "chains_state.sol_client s")
  case (Some c)
  from sol_slot.runs_atD[OF runs_at_sol[of J L V req] Some] Some show ?thesis
    by (auto simp: sol_prog_def run_and_then run_need_client sol_def sol_slot.at_slot_def split: prod.split)
qed (simp add: sol_prog_def run_simps sol_def)

lemma run_lightclient:
  "run_prog (lightclient_prog helios_client (\<lambda>e st. st\<lparr>helios_client := Some e\<rparr>) ''status: helios_client'' H on) s =
     eth_status H on s"
  "run_prog (lightclient_prog helios_op_client (\<lambda>e st. st\<lparr>helios_op_client := Some e\<rparr>) ''status: helios_op_client'' H' on) s =
     op_status H' on s"
  by (cases "helios_client s"; simp add: lightclient_prog_def eth_status_def lightclient_status_def
      eth_slot.run_ask eth_slot.run_ask_None split: prod.split sum.split)
    (cases "helios_op_client s"; simp add: lightclient_prog_def op_status_def lightclient_status_def
      op_slot.run_ask op_slot.run_ask_None split: prod.split sum.split)

lemma run_status: "run_prog (status_prog LB net sv) s = status LB net sv s"
  by (auto simp: status_prog_def status_def sync_status_of_def run_simps run_lightclient bind_act_def ret_act_def
      split: prod.split sum.split)

lemma run_ping: "run_prog (ping_prog LB sgx str) s = ping LB sgx str s"
  by (auto simp: ping_prog_def ping_def run_simps bind_act_def ret_act_def split: prod.split sum.split)

lemma text_act_cong:
  "m s = m' s \<Longrightarrow> lift_act m s = lift_act m' s"
  "n s = n' s \<Longrightarrow> text_act n s = text_act n' s"
  by (simp_all add: text_act_def lift_act_def)

lemma run_text_waiting:
  "run_prog (and_then p (\<lambda>r. Reply (map_option (\<lambda>r. bind_res r (\<lambda>t. Inr (Text t))) r))) s = text_act (run_prog p) s"
  by (simp add: run_and_then text_act_def split: prod.split)

lemma with_body_cong: "(\<And>x. k x s = k' x s) \<Longrightarrow> with_body b k s = with_body b k' s"
  by (simp add: with_body_def split: option.split)

lemma run_route_prog: "run_prog (route_prog LB [] sgx net sv r body) s = run_route LB sgx net sv r body s"
  by (auto simp: route_prog_def run_route_def Let_def run_text_prog run_body_prog run_text_waiting run_sol
      run_status run_verify_transaction run_ping run_fetch_header btc_def doge_def run_eth run_eth2 run_optimism
      split: route.split intro!: text_act_cong with_body_cong)

text \<open>
  A request that runs alone is a request of \<open>Server\<close>: with the programs of a batch in order, the program of a
  route is the function of the route, on every state.
\<close>

lemma run_middle_ware:
  "run_prog (middle_ware_prog LB [] (as_sgx app) (as_network app) (as_service app) verb path body) (chain_state app) =
    (resp, cs) \<longleftrightarrow> middle_ware LB verb path body app = (resp, app\<lparr>chain_state := cs\<rparr>)"
proof -
  have same: "app\<lparr>chain_state := c\<rparr> = app\<lparr>chain_state := c'\<rparr> \<longleftrightarrow> c = c'" for c c'
    by (cases app) simp
  have id: "app = app\<lparr>chain_state := c\<rparr> \<longleftrightarrow> c = chain_state app" for c
    by (cases app) auto
  show ?thesis
    by (auto simp: middle_ware_prog_def middle_ware_def run_route_prog same id split: option.split prod.split)
qed

end
