(* ===== verification/Concurrent.thy ===== *)
theory Concurrent
  imports Interleaving_Facts
begin

text \<open>
  The running server with many requests at a time. A task is an accepted request with what is left of
  its handler; \<open>concurrent\<close> lets any unfinished task make its next access of the shared state. A task
  that is never scheduled again is a dropped connection. Shown here: what each access keeps holds in
  every reachable state, by rule induction; the locale \<open>shared_inv\<close> says what an invariant of the
  shared state must give, and \<open>good\<close> which programs keep it under interference.
\<close>

subsection \<open>Tasks and steps\<close>

record ('v, 'p) task =
  tk_verb :: http_method
  tk_path :: string
  tk_body :: "'v option"
  tk_accesses :: nat
  tk_prog :: 'p

type_synonym ('w, 'db, 'p, 'e, 'o, 's, 'v) http_task =
  "('v, ('w, 'db, 'p, 'e, 'o, 's, 'v, (unit, http_response) res option) cs_prog) task"

inductive concurrent ::
    "('tx, 'pmt, 'w, 'p, 'e, 'o, 'h, 'g, 'ep, 'c, 'stx, 'acc, 'sg, 'v) node_libs \<Rightarrow> 'db kv_api \<Rightarrow> codec
      \<Rightarrow> ('w, 'db, 'p, 'e, 'o) starters \<Rightarrow> node_config
      \<Rightarrow> ('w, 'db, 'p, 'e, 'o, 'ep sol_client, 'v) app_state
      \<Rightarrow> ('w, 'db, 'p, 'e, 'o, 'ep sol_client, 'v) http_task list \<Rightarrow> bool"
  for LB K C X cf where
  conc_start:
    "node_main LB K C url_order single_rpc X cf = Inr cs \<Longrightarrow> start_server cs cf = Some app \<Longrightarrow>
     concurrent LB K C X cf app []"
| conc_accept:
    "concurrent LB K C X cf app ts \<Longrightarrow>
     concurrent LB K C X cf app
       (ts @ [\<lparr>tk_verb = verb, tk_path = path, tk_body = body, tk_accesses = 0,
               tk_prog = middle_ware_prog (scheduled LB sched) polls (as_sgx app) (as_network app) (as_service app)
                 verb path body\<rparr>])"
| conc_access:
    "concurrent LB K C X cf app ts \<Longrightarrow> i < length ts \<Longrightarrow> (\<And>r. tk_prog (ts ! i) \<noteq> Reply r) \<Longrightarrow>
     step_prog (tk_prog (ts ! i)) (chain_state app) = (p, cs) \<Longrightarrow>
     concurrent LB K C X cf (app\<lparr>chain_state := cs\<rparr>)
       (ts[i := (ts ! i)\<lparr>tk_accesses := tk_accesses (ts ! i) + 1, tk_prog := p\<rparr>])"

subsection \<open>Programs that keep an invariant under interference\<close>

text \<open>
  \<open>good J E R p\<close>: whatever state satisfying \<open>J\<close> the program finds at each of its accesses, it keeps
  \<open>J\<close>, puts entries satisfying \<open>E\<close> into the cache, and ends with a result satisfying \<open>R\<close>.
\<close>

primrec good ::
    "('s \<Rightarrow> bool) \<Rightarrow> (bytes \<Rightarrow> 'v \<Rightarrow> bool) \<Rightarrow> ('r \<Rightarrow> bool) \<Rightarrow> ('s, 'v, 'r) prog \<Rightarrow> bool" where
  "good J E R (Reply r) = R r"
| "good J E R (Lookup key f) = (\<forall>v. (\<forall>w. v = Some w \<longrightarrow> E key w) \<longrightarrow> good J E R (f v))"
| "good J E R (Insert key v p) = (E key v \<and> good J E R p)"
| "good J E R (Remove key p) = good J E R p"
| "good J E R (Client upd f) = (\<forall>s. J s \<longrightarrow> J (upd s) \<and> good J E R (f s))"

lemma good_and_then:
  "good J E R p \<Longrightarrow> (\<And>r. R r \<Longrightarrow> good J E R' (k r)) \<Longrightarrow> good J E R' (and_then p k)"
  by (induction p) auto

lemma good_and_then_res:
  "good J E (\<lambda>r. \<forall>x. r = Inr x \<longrightarrow> R x) p \<Longrightarrow> (\<And>f. R' (Inl f)) \<Longrightarrow> (\<And>x. R x \<Longrightarrow> good J E R' (k x)) \<Longrightarrow>
   good J E R' (and_then_res p k)"
  unfolding and_then_res_def by (erule good_and_then) (auto split: sum.split)

lemma good_mono: "good J E R p \<Longrightarrow> (\<And>r. R r \<Longrightarrow> R' r) \<Longrightarrow> good J E R' p"
  by (induction p) auto

lemma good_ask:
  assumes "\<And>s c. J s \<Longrightarrow> got s = Some c \<Longrightarrow> J (put (snd (m c)) s) \<and> good J E R (k (fst (m c)))" "R fail"
  shows "good J E R (ask_client got put fail m k)"
  using assms by (auto simp: ask_client_def split: option.split)

lemma good_need: "R fail \<Longrightarrow> good J E R p \<Longrightarrow> good J E R (need_client got fail p)"
  by (simp add: need_client_def)

lemma good_act: "(\<And>s. J s \<Longrightarrow> J (snd (m s)) \<and> R (fst (m s))) \<Longrightarrow> good J E R (act_prog m)"
  by (simp add: act_prog_def)

lemma good_lightclient:
  assumes "\<And>s c c'. J s \<Longrightarrow> got s = Some c \<Longrightarrow> J (put c' s)" "\<And>s. J s \<Longrightarrow> on \<Longrightarrow> got s = None \<Longrightarrow> R (Inl (Panic site))"
    and "\<And>x. (on \<or> x = (0, 0)) \<Longrightarrow> R (Inr x)"
  shows "good J E R (lightclient_prog got put site H on)"
  using assms by (auto simp: lightclient_prog_def ask_client_def split: option.split)

lemma good_returns:
  "good J E (\<lambda>r. \<exists>x. r = Inr x \<and> S x) p \<Longrightarrow> (\<And>x. S x \<Longrightarrow> good J E R (k x)) \<Longrightarrow> good J E R (and_then_res p k)"
  unfolding and_then_res_def by (erule good_and_then) auto

lemma good_text: "good J E (\<lambda>r. R' (Some (bind_res r (\<lambda>t. Inr (Text t))))) p \<Longrightarrow> good J E R' (text_prog p)"
  unfolding text_prog_def by (erule good_and_then) simp

abbreviation safe where
  "safe J E \<equiv> good J E (\<lambda>_. True)"

lemma safe_res: "safe J E p \<Longrightarrow> (\<And>x. safe J E (k x)) \<Longrightarrow> safe J E (and_then_res p k)"
  by (rule good_and_then_res[where R = "\<lambda>_. True"]) (auto elim: good_mono)

lemma safe_then: "safe J E p \<Longrightarrow> (\<And>x. safe J E (k x)) \<Longrightarrow> safe J E (and_then p k)"
  by (rule good_and_then) auto

lemma safe_in_order: "(\<And>p. p \<in> set ps \<Longrightarrow> safe J E p) \<Longrightarrow> safe J E (in_order ps)"
  by (induction ps) (auto intro!: safe_res)

lemma safe_join_all: "(\<And>p. p \<in> set ps \<Longrightarrow> safe J E p) \<Longrightarrow> safe J E (join_all polls ps)"
proof (induction polls arbitrary: ps)
  case Nil
  then show ?case by (simp add: safe_in_order)
next
  case (Cons i polls)
  show ?case
  proof (cases "i < length ps")
    case False
    with Cons show ?thesis by simp
  next
    case True
    then have p: "safe J E (ps ! i)" using Cons.prems by simp
    have upd: "safe J E (join_all polls (ps[i := p]))" if "safe J E p" for p
    proof (rule Cons.IH)
      fix q assume "q \<in> set (ps[i := p])"
      then show "safe J E q" using that Cons.prems set_update_subset_insert[of ps i p] by blast
    qed
    have rest: "safe J E (join_all polls ps)" using Cons by blast
    show ?thesis
      using p upd rest by (cases "ps ! i") (auto split: sum.split)
  qed
qed

subsection \<open>Invariants of the shared state\<close>

locale shared_inv =
  fixes J :: "('w, 'db, 'p, 'e, 'o, 's, 'v) chains_state \<Rightarrow> bool" and E :: "bytes \<Rightarrow> 'v \<Rightarrow> bool"
  assumes look: "J s \<Longrightarrow> cache_get (response_cache s) key = Some v \<Longrightarrow> E key v"
    and ins: "J s \<Longrightarrow> E key v \<Longrightarrow> J (s\<lparr>response_cache := cache_insert (response_cache s) key v\<rparr>)"
    and rem: "J s \<Longrightarrow> J (s\<lparr>response_cache := cache_remove (response_cache s) key\<rparr>)"
begin

lemma step_good: "good J E R p \<Longrightarrow> J s \<Longrightarrow> step_prog p s = (p', s') \<Longrightarrow> good J E R p' \<and> J s'"
  by (cases p) (auto simp: ins rem dest: look)

text \<open>The same invariant holds of the sequential handlers.\<close>

lemma run_good: "good J E R p \<Longrightarrow> J s \<Longrightarrow> run_prog p s = (r, s') \<Longrightarrow> R r \<and> J s'"
proof (induction p arbitrary: s)
  case (Lookup key f)
  then show ?case using look[of s key] by (auto intro: rangeI)
next
  case (Insert key v p)
  then show ?case using ins[of s key v] by auto
next
  case (Remove key p)
  then show ?case using rem[of s key] by auto
qed auto

end

lemma ball_set_update: "\<forall>x \<in> set xs. P x \<Longrightarrow> P y \<Longrightarrow> \<forall>x \<in> set (xs[i := y]). P x"
  using set_update_subset_insert[of xs i y] by blast

text \<open>
  Every reachable state and every task: an invariant that the start establishes and the accepted
  programs keep, together with what their results satisfy.
\<close>

lemma concurrent_good:
  assumes "concurrent LB K C X cf app ts" "shared_inv J E"
    and "\<And>url_order single_rpc cs. node_main LB K C url_order single_rpc X cf = Inr cs \<Longrightarrow> J cs"
    and "\<And>sched polls sgx verb path body.
      good J E (R verb path) (middle_ware_prog (scheduled LB sched) polls sgx
        \<lparr>nt_btc = cf_network_type cf, nt_doge = cf_doge_network_type cf\<rparr> (cf_service cf) verb path body)"
  shows "J (chain_state app) \<and> as_service app = cf_service cf \<and>
    as_network app = \<lparr>nt_btc = cf_network_type cf, nt_doge = cf_doge_network_type cf\<rparr> \<and>
    (\<forall>t \<in> set ts. good J E (R (tk_verb t) (tk_path t)) (tk_prog t))"
  using assms(1)
proof (induction rule: concurrent.induct)
  case (conc_start url_order single_rpc cs app)
  then show ?case using assms(3) by (auto simp: start_server_def split: if_splits)
next
  case (conc_accept app ts verb path body sched polls)
  then show ?case using assms(4) by auto
next
  case (conc_access app ts i p cs)
  let ?t = "ts ! i"
  have "good J E (R (tk_verb ?t) (tk_path ?t)) p \<and> J cs"
    using conc_access shared_inv.step_good[OF assms(2)] nth_mem[of i ts] by blast
  with conc_access.IH show ?case by (intro conjI ball_set_update) simp_all
qed

lemma concurrent_keeps:
  assumes "concurrent LB K C X cf app ts" "shared_inv J E"
    and "\<And>url_order single_rpc cs. node_main LB K C url_order single_rpc X cf = Inr cs \<Longrightarrow> J cs"
    and "\<And>sched polls sgx net verb path body.
      safe J E (middle_ware_prog (scheduled LB sched) polls sgx net (cf_service cf) verb path body)"
  shows "J (chain_state app) \<and> as_service app = cf_service cf"
  using concurrent_good[OF assms(1,2), of "\<lambda>_ _ _. True"] assms(3,4) by blast

end
