(* ===== verification/Concurrent_Facts.thy ===== *)
theory Concurrent_Facts
  imports Concurrent
begin

text \<open>
  Every handler of the server keeps the invariants of the shared state under interference. The locale
  \<open>guarded\<close> extends \<open>shared_inv\<close> by what the clients and the handlers' cache entries must satisfy; its
  interpretations are the truth of the cache (\<open>gt\<close>), the clients held (\<open>gc\<close>) and the header store (\<open>gs\<close>).
\<close>

subsection \<open>What a reply is worth\<close>

text \<open>
  For an invariant \<open>J\<close> and entries satisfying \<open>E\<close>: a header found for a block is that of a cache entry
  or one the P2P client returned; a checked proof is a Merkle block the full node delivered, whose
  root is that of the header found; a positive reply, recognised by its signature, has a checked proof of the
  transaction asked for.
\<close>

type_synonym ('w, 'db, 'p, 'e, 'o, 'ep, 'v) state_pred = "('w, 'db, 'p, 'e, 'o, 'ep sol_client, 'v) chains_state \<Rightarrow> bool"

definition header_found ::
    "('w, 'db, 'p, 'e, 'o, 'ep, 'v) state_pred \<Rightarrow> (bytes \<Rightarrow> 'v \<Rightarrow> bool) \<Rightarrow> ('p, 'v) nakamoto_api
      \<Rightarrow> block_hash \<Rightarrow> block_header \<Rightarrow> bool" where
  "header_found J E N b h \<longleftrightarrow> (\<exists>v. E b v \<and> nk_from_value N v = Inr h) \<or>
     (\<exists>s chain p m. J s \<and> chain_handle chain s = Some p \<and> fst (nk_get_block N p b) = Inr (Some (m, h)))"

definition block_checked ::
    "('w, 'db, 'p, 'e, 'o, 'ep, 'v) state_pred \<Rightarrow> (bytes \<Rightarrow> 'v \<Rightarrow> bool)
      \<Rightarrow> ('tx, 'pmt, 'w, 'p, 'e, 'o, 'h, 'g, 'ep, 'c, 'stx, 'acc, 'sg, 'v) node_libs \<Rightarrow> 'pmt merkle_block \<Rightarrow> bool" where
  "block_checked J E LB mb \<longleftrightarrow> (\<exists>old h h' matches indexes.
     nk_old_hash (lb_p2p LB) (block_hash_of (lb_bitcoin LB) (mb_header mb)) = Some old \<and>
     header_found J E (lb_p2p LB) old h \<and> nk_new_header (lb_p2p LB) h = Some h' \<and>
     extract_matches (lb_merkle LB) (mb_txn mb) = Inr (merkle_root h', matches, indexes))"

definition proof_checked ::
    "('w, 'db, 'p, 'e, 'o, 'ep, 'v) state_pred \<Rightarrow> (bytes \<Rightarrow> 'v \<Rightarrow> bool)
      \<Rightarrow> ('tx, 'pmt, 'w, 'p, 'e, 'o, 'h, 'g, 'ep, 'c, 'stx, 'acc, 'sg, 'v) node_libs \<Rightarrow> merkle_proof_param \<Rightarrow> bool" where
  "proof_checked J E LB param \<longleftrightarrow> (\<exists>s d d' mb. J s \<and> chain_daemon (mp_chain param) s = Some d \<and>
     gettxoutproof (lb_json LB) (lb_bitcoin LB) (lb_send LB) param d = (Inr mb, d') \<and> block_checked J E LB mb)"

definition reply_checked ::
    "('w, 'db, 'p, 'e, 'o, 'ep, 'v) state_pred \<Rightarrow> (bytes \<Rightarrow> 'v \<Rightarrow> bool)
      \<Rightarrow> ('tx, 'pmt, 'w, 'p, 'e, 'o, 'h, 'g, 'ep, 'c, 'stx, 'acc, 'sg, 'v) node_libs
      \<Rightarrow> string \<Rightarrow> (unit, http_response) res option \<Rightarrow> bool" where
  "reply_checked J E LB path r \<longleftrightarrow> (\<forall>rt txid chain t. route_of path = Some (GET, rt) \<longrightarrow>
     rt = R_Verify_Tx txid \<and> chain = BitCoin \<or> rt = R_Verify_Tx_Doge txid \<and> chain = DogeCoin \<longrightarrow>
     (\<forall>v. sgx_sign LB (ser_verify LB v) = sgx_sign LB (ser_verify LB (response_new False (Verified_Txid t))) \<longrightarrow>
        v = response_new False (Verified_Txid t)) \<longrightarrow>
     r = Some (Inr (Text (sgx_sign LB (ser_verify LB (response_new False (Verified_Txid t)))))) \<longrightarrow>
     txid_from_str (lb_merkle LB) txid = Inr t \<and> proof_checked J E LB (merkle_proof_param_new [t] None chain))"

subsection \<open>Handlers under interference\<close>

locale guarded = shared_inv J E
  for J :: "('w, 'db, 'p, 'e, 'o, 'ep sol_client, 'v) chains_state \<Rightarrow> bool" and E :: "bytes \<Rightarrow> 'v \<Rightarrow> bool" +
  fixes LB :: "('tx, 'pmt, 'w, 'p, 'e, 'o, 'h, 'g, 'ep, 'c, 'stx, 'acc, 'sg, 'v) node_libs"
  assumes node: "J s \<Longrightarrow> chain_daemon chain s = Some d \<Longrightarrow>
      gettxoutproof (lb_json LB) (lb_bitcoin LB) (lb_send LB) param d = (r, d') \<Longrightarrow> J (set_chain_daemon chain d' s)"
    and tip: "J s \<Longrightarrow> chain_handle chain s = Some p \<Longrightarrow>
      J (set_chain_handle chain (snd (nk_get_tip (lb_p2p LB) p)) s)"
    and height: "J s \<Longrightarrow> chain_handle chain s = Some p \<Longrightarrow>
      J (set_chain_handle chain (snd (nk_get_block_by_height (lb_p2p LB) p n)) s)"
    and block: "J s \<Longrightarrow> chain_handle chain s = Some p \<Longrightarrow>
      J (set_chain_handle chain (snd (nk_get_block (lb_p2p LB) p b)) s)"
    and block_entry: "J s \<Longrightarrow> chain_handle chain s = Some p \<Longrightarrow>
      fst (nk_get_block (lb_p2p LB) p b) = Inr (Some (m, h)) \<Longrightarrow>
      nk_to_value (lb_p2p LB) h = Inr v \<or> header_value (lb_json LB) (lb_p2p LB) verbose m h = Inr v \<Longrightarrow> E b v"
    and height_entry: "E (to_be_bytes n) v"
    and receipt_entry: "hl_to_value (lb_eth LB) x = Inr v \<Longrightarrow> E key v"
    and receipt_entry_op: "hl_to_value (lb_op LB) y = Inr v \<Longrightarrow> E key v"
    and transaction_entry: "signature_param (lb_json LB) (lb_sol LB) params = Inr key \<Longrightarrow> E key v"
    and ethereum: "J s \<Longrightarrow> helios_client s = Some e \<Longrightarrow> J (s\<lparr>helios_client := Some e'\<rparr>)"
    and opstack: "J s \<Longrightarrow> helios_op_client s = Some o1 \<Longrightarrow> J (s\<lparr>helios_op_client := Some o1'\<rparr>)"
    and solana: "J s \<Longrightarrow> chains_state.sol_client s = Some c \<Longrightarrow> J (s\<lparr>sol_client := Some c'\<rparr>)"
begin

lemma good_p2p_header: "good J E (\<lambda>r. \<forall>h. r = Inr h \<longrightarrow> header_found J E (lb_p2p LB) b h) (p2p_header_prog (lb_p2p LB) chain b)"
  unfolding p2p_header_prog_def header_found_def
  by (auto split: option.split sum.split intro!: good_ask intro: block block_entry)

lemma good_verify_txid:
  "good J E (\<lambda>r. \<forall>x. r = Inr x \<longrightarrow> block_checked J E LB mb)
     (verify_txid_prog (lb_bitcoin LB) (lb_merkle LB) (lb_p2p LB) mb param)"
  unfolding verify_txid_prog_def Let_def
  by (auto split: sum.split option.split simp: block_checked_def intro!: good_and_then_res[OF good_p2p_header]) blast+

lemma good_fetch:
  "good J E (\<lambda>r. \<forall>x. r = Inr x \<longrightarrow> proof_checked J E LB param)
     (fetch_proof_and_verify_prog (lb_json LB) (lb_bitcoin LB) (lb_merkle LB) (lb_p2p LB) (lb_send LB) param)"
proof -
  have "good J E (\<lambda>r. \<forall>x. r = Inr x \<longrightarrow> proof_checked J E LB param)
      (verify_txid_prog (lb_bitcoin LB) (lb_merkle LB) (lb_p2p LB) mb param)"
    if "J s" "chain_daemon (mp_chain param) s = Some d"
      "gettxoutproof (lb_json LB) (lb_bitcoin LB) (lb_send LB) param d = (Inr mb, d')" for s d d' mb
    by (rule good_mono[OF good_verify_txid]) (use that in \<open>auto simp: proof_checked_def\<close>)
  then show ?thesis
    unfolding fetch_proof_and_verify_prog_def
    by (auto simp: map_err_act_def map_err_Inr_iff split: sum.split prod.split intro!: good_ask dest: node)
qed

text \<open>A positive reply, recognised by its signature, has a checked proof of the transaction asked for.\<close>

lemma good_verify:
  assumes "\<forall>v. sign v = sign (response_new False (Verified_Txid t)) \<longrightarrow> v = response_new False (Verified_Txid t)"
  shows "good J E (\<lambda>r. r = Inr (sign (response_new False (Verified_Txid t))) \<longrightarrow>
      txid_from_str (lb_merkle LB) txid = Inr t \<and> proof_checked J E LB (merkle_proof_param_new [t] None chain))
    (verify_transaction_prog (lb_json LB) (lb_bitcoin LB) (lb_merkle LB) (lb_p2p LB) (lb_send LB) sign txid chain)"
proof -
  have yes: "sign (response_new b x) = sign (response_new False (Verified_Txid t)) \<longleftrightarrow> \<not> b \<and> x = Verified_Txid t" for b x
    using assms by (auto simp: response_new_def)
  show ?thesis
    unfolding verify_transaction_prog_def parse_txid_def
    by (auto split: sum.split fault.split simp: yes intro!: good_and_then[OF good_fetch])
qed

lemma safe_verify:
  "safe J E (verify_transaction_prog (lb_json LB) (lb_bitcoin LB) (lb_merkle LB) (lb_p2p LB) (lb_send LB) sign txid chain)"
  unfolding verify_transaction_prog_def
  by (auto split: sum.split fault.split intro!: safe_then good_mono[OF good_fetch])

lemma safe_btc: "safe J E (btc_request_prog (lb_json LB) (lb_p2p LB) chain req)"
proof -
  have "safe J E (getbestblockhash_prog (lb_json LB) (lb_p2p LB) chain params i)" for params i
    unfolding getbestblockhash_prog_def by (auto intro!: good_ask intro: tip)
  moreover have "safe J E (getblockheader_prog (lb_json LB) (lb_p2p LB) chain params i)" for params i
    unfolding getblockheader_prog_def Let_def
    by (auto split: option.split sum.split intro!: good_ask intro: block block_entry)
  moreover have "safe J E (getblockhash_prog (lb_json LB) (lb_p2p LB) chain params i)" for params i
    unfolding getblockhash_prog_def
    by (auto split: option.split sum.split intro!: good_ask intro: height height_entry)
  ultimately show ?thesis
    unfolding btc_request_prog_def by (auto split: sum.split option.split)
qed

lemma safe_headers: "safe J E (fetch_header_prog (lb_json LB) (lb_p2p LB) polls sign chain payload)"
  unfolding fetch_header_prog_def
  by (intro good_need safe_res safe_join_all) (auto intro: safe_btc)

lemma safe_eth_request:
  assumes "\<And>s c c'. J s \<Longrightarrow> got s = Some c \<Longrightarrow> J (put c' s)" "\<And>x v key. hl_to_value H x = Inr v \<Longrightarrow> E key v"
  shows "safe J E (eth_request_prog got put site J' H req)"
proof -
  have "safe J E (receipt_prog got put site J' H params i)" for params i
    unfolding receipt_prog_def eth_value_def using assms(2)
    by (auto split: option.split sum.split if_splits intro!: good_ask intro: assms(1))
  then show ?thesis
    unfolding eth_request_prog_def
    by (auto split: option.split intro!: good_ask intro: assms(1))
qed

lemma safe_eth: "safe J E (eth_prog J' (lb_eth LB) ser ser_list payload)"
  unfolding eth_prog_def
  by (intro good_need safe_res safe_in_order) (auto simp: Let_def intro!: safe_eth_request ethereum receipt_entry)

lemma safe_eth2: "safe J E (eth2_prog J' (lb_eth LB) ser sign req)"
  unfolding eth2_prog_def
  by (intro good_need safe_res) (auto intro!: safe_eth_request ethereum receipt_entry)

lemma safe_optimism: "safe J E (optimism_prog J' (lb_op LB) ser sign req)"
  unfolding optimism_prog_def
  by (intro good_need safe_res) (auto intro!: safe_eth_request opstack receipt_entry_op)

lemma safe_sol: "safe J E (sol_prog (lb_json LB) (lb_sol LB) V ser sign req)"
proof -
  have "safe J E (sol_transaction_prog (lb_json LB) (lb_sol LB) V params i)" for params i
    unfolding sol_transaction_prog_def Let_def
    by (auto split: option.split sum.split intro!: good_ask intro: solana transaction_entry)
  then have "safe J E (sol_request_prog (lb_json LB) (lb_sol LB) V req)"
    unfolding sol_request_prog_def
    by (auto split: option.split sum.split sol_method.split intro!: good_ask intro: solana)
  then show ?thesis
    unfolding sol_prog_def by (auto intro!: good_need safe_then)
qed

lemma safe_body: "(\<And>b. safe J E (k b)) \<Longrightarrow> safe J E (body_prog b k)"
  by (simp add: body_prog_def split: option.split)

lemma safe_status: "safe J E (status_prog LB net sv)"
proof -
  have "J (snd (p2p_height (lb_p2p LB) chain on s))" if "J s" for chain on s
    using that tip[OF that, of chain] by (auto simp: p2p_height_def split: option.split sum.split prod.split)
  then show ?thesis
    unfolding status_prog_def
    by (auto intro!: safe_res good_act good_lightclient intro: ethereum opstack simp: case_prod_beta)
qed

lemma safe_ping: "safe J E (ping_prog LB sgx str)"
proof -
  have "J (snd (p2p_tip (lb_p2p LB) chain s))" if "J s" for chain s
    using that tip[OF that, of chain] by (auto simp: p2p_tip_def split: option.split sum.split prod.split)
  then show ?thesis
    unfolding ping_prog_def by (auto intro!: safe_res good_act simp: case_prod_beta)
qed

lemma safe_route: "safe J E (route_prog LB polls sgx net sv r body)"
  unfolding route_prog_def Let_def
  by (auto split: route.split intro!: good_text safe_body safe_then safe_status safe_ping safe_verify safe_headers
      safe_eth safe_eth2 safe_optimism safe_sol)

lemma good_all: "(\<And>t. good J E (R t) p) \<Longrightarrow> good J E (\<lambda>r. \<forall>t. R t r) p"
  by (induction p) auto

lemma good_verify_text:
  "good J E (\<lambda>r. \<forall>t.
     (\<forall>v. sgx_sign LB (ser_verify LB v) = sgx_sign LB (ser_verify LB (response_new False (Verified_Txid t))) \<longrightarrow>
        v = response_new False (Verified_Txid t)) \<longrightarrow>
     r = Some (Inr (Text (sgx_sign LB (ser_verify LB (response_new False (Verified_Txid t)))))) \<longrightarrow>
     txid_from_str (lb_merkle LB) txid = Inr t \<and> proof_checked J E LB (merkle_proof_param_new [t] None chain))
   (text_prog (verify_transaction_prog (lb_json LB) (lb_bitcoin LB) (lb_merkle LB) (lb_p2p LB) (lb_send LB)
      (\<lambda>v. sgx_sign LB (ser_verify LB v)) txid chain))"
  (is "good J E (\<lambda>r. \<forall>t. ?inj t \<longrightarrow> ?R t r) ?p")
proof (rule good_all)
  fix t
  show "good J E (\<lambda>r. ?inj t \<longrightarrow> ?R t r) ?p"
  proof (cases "?inj t")
    case True
    have x: "Some (bind_res r (\<lambda>t. Inr (Text t))) = Some (Inr (Text y)) \<longleftrightarrow> r = Inr y" for r :: "(unit, string) res" and y
      by (auto simp: res_simps)
    show ?thesis by (rule good_text) (rule good_mono[OF good_verify[OF True]], simp only: x, blast)
  next
    case False
    show ?thesis using False
      by (intro good_mono[OF good_text[OF safe_verify]]) auto
  qed
qed

lemma good_middle_ware: "good J E (reply_checked J E LB path) (middle_ware_prog LB polls sgx net sv verb path body)"
proof -
  have route: "good J E (reply_checked J E LB path) (route_prog LB polls sgx net sv r body)"
    if r: "route_of path = Some (m, r)" for m r
  proof (cases "\<exists>txid. r = R_Verify_Tx txid \<or> r = R_Verify_Tx_Doge txid")
    case True
    then obtain txid chain where "r = R_Verify_Tx txid \<and> chain = BitCoin \<or> r = R_Verify_Tx_Doge txid \<and> chain = DogeCoin"
      by blast
    moreover have "good J E (reply_checked J E LB path)
        (text_prog (verify_transaction_prog (lb_json LB) (lb_bitcoin LB) (lb_merkle LB) (lb_p2p LB) (lb_send LB)
          (\<lambda>v. sgx_sign LB (ser_verify LB v)) txid chain))"
      using r calculation by (intro good_mono[OF good_verify_text]) (auto simp: reply_checked_def)
    ultimately show ?thesis by (auto simp: route_prog_def Let_def)
  next
    case False
    then show ?thesis using r by (intro good_mono[OF safe_route]) (auto simp: reply_checked_def)
  qed
  have "reply_checked J E LB path (Some (Inr resp))" if "\<forall>t. resp \<noteq> Text t" for resp
    using that by (simp add: reply_checked_def)
  then show ?thesis
    by (auto simp: middle_ware_prog_def route split: option.split)
qed

lemma safe_middle_ware: "safe J E (middle_ware_prog LB polls sgx net sv verb path body)"
  by (rule good_mono[OF good_middle_ware]) simp

text \<open>So do the handlers of \<open>Server\<close>, which run alone.\<close>

lemma run_route_keeps: "J s \<Longrightarrow> J (snd (run_route LB sgx net sv r body s))"
  using run_good[OF safe_route[of "[]" sgx net sv r body], of s] run_route_prog[of LB sgx net sv r body s]
  by (metis surjective_pairing)

end

subsection \<open>The three invariants\<close>

interpretation gc: guarded "\<lambda>cs. clients cs = c" "\<lambda>_ _. True" LB
  for LB :: "('tx, 'pmt, 'w, 'p, 'e, 'o, 'h, 'g, 'ep, 'c, 'stx, 'acc, 'sg, 'v) node_libs" and c :: "bool list"
  by unfold_locales simp_all

interpretation gs: guarded "\<lambda>cs. P (cs_store cs)" "\<lambda>_ _. True" LB
  for LB :: "('tx, 'pmt, 'w, 'p, 'e, 'o, 'h, 'g, 'ep, 'c, 'stx, 'acc, 'sg, 'v) node_libs" and P :: "'db store \<Rightarrow> bool"
  by unfold_locales simp_all

text \<open>
  Truth: the cache has nothing but true headers under the keys of blocks, the P2P clients are in states of
  \<open>Q\<close>, and the clients of the full nodes in states of \<open>D\<close>, which asking for a proof does not leave.
\<close>

definition node_ok ::
    "('tx, 'pmt, 'w, 'p, 'e, 'o, 'h, 'g, 'ep, 'c, 'stx, 'acc, 'sg, 'v) node_libs \<Rightarrow> ('w daemon \<Rightarrow> bool) \<Rightarrow> bool" where
  "node_ok LB D \<longleftrightarrow> (\<forall>d param r d'. D d \<longrightarrow>
     gettxoutproof (lb_json LB) (lb_bitcoin LB) (lb_send LB) param d = (r, d') \<longrightarrow> D d')"

definition truth ::
    "('tx, 'pmt, 'w, 'p, 'e, 'o, 'h, 'g, 'ep, 'c, 'stx, 'acc, 'sg, 'v) node_libs \<Rightarrow> ('p \<Rightarrow> bool)
      \<Rightarrow> block_header set \<Rightarrow> ('w daemon \<Rightarrow> bool) \<Rightarrow> ('w, 'db, 'p, 'e, 'o, 'ep sol_client, 'v) chains_state \<Rightarrow> bool" where
  "truth LB Q S D cs \<longleftrightarrow> libs_ok LB Q S \<and> node_ok LB D \<longrightarrow>
     state_true (lb_p2p LB) Q S cs \<and> (\<forall>chain d. chain_daemon chain cs = Some d \<longrightarrow> D d)"

definition entry_true ::
    "('tx, 'pmt, 'w, 'p, 'e, 'o, 'h, 'g, 'ep, 'c, 'stx, 'acc, 'sg, 'v) node_libs \<Rightarrow> ('p \<Rightarrow> bool)
      \<Rightarrow> block_header set \<Rightarrow> ('w daemon \<Rightarrow> bool) \<Rightarrow> bytes \<Rightarrow> 'v \<Rightarrow> bool" where
  "entry_true LB Q S D k v \<longleftrightarrow> libs_ok LB Q S \<and> node_ok LB D \<longrightarrow> entry_ok (lb_p2p LB) S k v"

lemma chain_daemon_set [simp]:
  "chain_daemon chain' (set_chain_daemon chain d cs) = (if chain' = chain then Some d else chain_daemon chain' cs)"
  "chain_daemon chain' (set_chain_handle chain p cs) = chain_daemon chain' cs"
  "chain_daemon chain' (cs\<lparr>helios_client := a\<rparr>) = chain_daemon chain' cs"
  "chain_daemon chain' (cs\<lparr>helios_op_client := b\<rparr>) = chain_daemon chain' cs"
  "chain_daemon chain' (cs\<lparr>sol_client := c\<rparr>) = chain_daemon chain' cs"
  "chain_daemon chain' (cs\<lparr>response_cache := e\<rparr>) = chain_daemon chain' cs"
  by (cases chain; cases chain'; simp add: chain_daemon_def set_chain_daemon_def set_chain_handle_def)+

lemma truthD:
  "truth LB Q S D cs \<Longrightarrow> libs_ok LB Q S \<Longrightarrow> node_ok LB D \<Longrightarrow> chain_handle chain cs = Some p \<Longrightarrow> Q p"
  "truth LB Q S D cs \<Longrightarrow> libs_ok LB Q S \<Longrightarrow> node_ok LB D \<Longrightarrow> header_cache (lb_p2p LB) S (response_cache cs)"
  "truth LB Q S D cs \<Longrightarrow> libs_ok LB Q S \<Longrightarrow> node_ok LB D \<Longrightarrow> chain_daemon chain cs = Some d \<Longrightarrow> D d"
  by (auto simp: truth_def state_true_def)

lemma entry_header:
  assumes "libs_ok LB Q S" "Q p" "nk_get_block (lb_p2p LB) p b = (Inr (Some (m, h)), p')"
    and "nk_to_value (lb_p2p LB) h = Inr v \<or> header_value (lb_json LB) (lb_p2p LB) verbose m h = Inr v"
  shows "entry_ok (lb_p2p LB) S b v"
proof -
  note h = p2p_okD(4)[OF libs_okD(1)[OF assms(1)] assms(2,3)]
  from assms(4) show ?thesis
  proof
    assume "nk_to_value (lb_p2p LB) h = Inr v"
    with h header_json_okD(1)[OF libs_okD(2)[OF assms(1)]] show ?thesis by (auto simp: entry_ok_def)
  next
    assume "header_value (lb_json LB) (lb_p2p LB) verbose m h = Inr v"
    with h header_value_entry[OF libs_okD(2)[OF assms(1)]] show ?thesis by blast
  qed
qed

interpretation gt: guarded "truth LB Q S D" "entry_true LB Q S D" LB
  for LB :: "('tx, 'pmt, 'w, 'p, 'e, 'o, 'h, 'g, 'ep, 'c, 'stx, 'acc, 'sg, 'v) node_libs" and Q S D
proof (unfold_locales, goal_cases)
  case (1 s key v)
  then show ?case by (auto simp: truth_def state_true_def entry_true_def dest: sc.holds_allD)
next
  case (2 s key v)
  then show ?case by (auto simp: truth_def entry_true_def state_true_def intro!: sc.holds_all_put)
next
  case (3 s key)
  then show ?case by (auto simp: truth_def state_true_def intro!: sc.holds_all_del)
next
  case (4 s chain d param r d')
  then have "D d'" if "libs_ok LB Q S" "node_ok LB D"
    using that(2) truthD(3)[OF 4(1) that 4(2)] unfolding node_ok_def by blast
  with 4(1) show ?case by (simp add: truth_def state_true_updates)
next
  case (5 s chain p)
  then have "Q (snd (nk_get_tip (lb_p2p LB) p))" if "libs_ok LB Q S" "node_ok LB D"
    using that truthD(1) p2p_okD(1)[OF libs_okD(1)] by (metis surjective_pairing)
  with 5(1) show ?case by (simp add: truth_def state_true_updates)
next
  case (6 s chain p n)
  then have "Q (snd (nk_get_block_by_height (lb_p2p LB) p n))" if "libs_ok LB Q S" "node_ok LB D"
    using that truthD(1) p2p_okD(2)[OF libs_okD(1)] by (metis surjective_pairing)
  with 6(1) show ?case by (simp add: truth_def state_true_updates)
next
  case (7 s chain p b)
  then have "Q (snd (nk_get_block (lb_p2p LB) p b))" if "libs_ok LB Q S" "node_ok LB D"
    using that truthD(1) p2p_okD(3)[OF libs_okD(1)] by (metis surjective_pairing)
  with 7(1) show ?case by (simp add: truth_def state_true_updates)
next
  case (8 s chain p b m h v verbose)
  then show ?case
    using entry_header[of LB Q S p b m h _ v verbose] truthD(1)[OF 8(1)]
    by (cases "nk_get_block (lb_p2p LB) p b") (auto simp: entry_true_def)
next
  case (9 n v)
  then show ?case by (simp add: entry_true_def entry_ok_height)
next
  case (10 x v key)
  then show ?case by (auto simp: entry_true_def entry_ok_def dest: libs_okD(4))
next
  case (11 y v key)
  then show ?case by (auto simp: entry_true_def entry_ok_def dest: libs_okD(5))
next
  case (12 params key v)
  then have "length key = 64" if "libs_ok LB Q S"
    using libs_okD(6)[OF that] by (auto simp: signature_param_def split: list.splits option.splits sum.splits)
  then show ?case by (auto simp: entry_true_def entry_ok_def)
qed (simp_all add: truth_def state_true_updates)

text \<open>The schedule of a request does not matter to the invariant.\<close>

lemma truth_scheduled: "truth (scheduled LB sched) Q S D cs = truth LB Q S D cs"
  and entry_true_scheduled: "entry_true (scheduled LB sched) Q S D k v = entry_true LB Q S D k v"
  by (simp_all add: truth_def entry_true_def libs_ok_def node_ok_def)

text \<open>The cache of a served state is true.\<close>

lemma served_true:
  assumes "served LB K C X cf app" "libs_ok LB Q S"
    and "\<And>n p. start_btc X n = Inr p \<Longrightarrow> Q p" "\<And>n p. start_doge X n = Inr p \<Longrightarrow> Q p"
  shows "state_true (lb_p2p LB) Q S (chain_state app)"
proof -
  let ?D = "\<lambda>d. True"
  have "truth LB Q S ?D (chain_state app)"
  proof (rule served_invariant[OF assms(1), where I = "truth LB Q S ?D"])
    fix url_order single_rpc cs
    assume "node_main LB K C url_order single_rpc X cf = Inr cs"
    then have "state_true (lb_p2p LB) Q S cs" using assms(3,4) by (rule started_true)
    then show "truth LB Q S ?D cs" by (simp add: truth_def)
  next
    fix sched sgx net sv r body cs
    assume "truth LB Q S ?D cs"
    then show "truth LB Q S ?D (snd (run_route (scheduled LB sched) sgx net sv r body cs))"
      using gt.run_route_keeps[of "scheduled LB sched" Q S ?D cs] by (simp add: truth_scheduled)
  qed
  with assms(2) show ?thesis by (simp add: truth_def node_ok_def)
qed

end
