(* ===== verification/Concurrent_Bounds.thy ===== *)
theory Concurrent_Bounds
  imports Concurrent_Facts
begin

text \<open>
  How often a handler accesses the shared state: at most \<open>request_cost\<close> times, whatever the other handlers do.
  No handler retries, so none can be kept busy by the others; a handler that is scheduled often
  enough, and whose clients return, replies.
\<close>

subsection \<open>Accesses of a program\<close>

primrec within :: "('s, 'v, 'r) prog \<Rightarrow> nat \<Rightarrow> bool" where
  "within (Reply r) n = True"
| "within (Lookup key f) n = (\<exists>m. n = Suc m \<and> (\<forall>v. within (f v) m))"
| "within (Insert key v p) n = (\<exists>m. n = Suc m \<and> within p m)"
| "within (Remove key p) n = (\<exists>m. n = Suc m \<and> within p m)"
| "within (Client upd f) n = (\<exists>m. n = Suc m \<and> (\<forall>s. within (f s) m))"

lemma within_add: "within p n \<Longrightarrow> within p (n + k)"
  by (induction p arbitrary: n) auto

lemma within_mono: "within p n \<Longrightarrow> n \<le> m \<Longrightarrow> within p m"
  using within_add[of p n "m - n"] by simp

lemma within_and_then: "within p n \<Longrightarrow> (\<And>r. within (k r) m) \<Longrightarrow> within (and_then p k) (n + m)"
proof (induction p arbitrary: n)
  case (Reply r)
  then show ?case using within_mono[of "k r" m "n + m"] by simp
qed auto

lemma within_and_then_res:
  assumes "within p n" "\<And>x. within (k x) m"
  shows "within (and_then_res p k) (n + m)"
  unfolding and_then_res_def using assms(1) by (rule within_and_then) (auto split: sum.split intro: assms(2))

lemma within_ask: "(\<And>a. within (k a) n) \<Longrightarrow> within (ask_client got put fail m k) (Suc n)"
  by (simp add: ask_client_def split: option.split)

lemma within_need: "within p n \<Longrightarrow> within (need_client got fail p) (Suc n)"
  by (simp add: need_client_def)

lemma within_act: "within (act_prog m) 1"
  by (simp add: act_prog_def)

lemma within_in_order: "list_all (\<lambda>p. within p n) ps \<Longrightarrow> within (in_order ps) (n * length ps)"
proof (induction ps)
  case (Cons p ps)
  then have "within (and_then_res p (\<lambda>x. and_then_res (in_order ps) (\<lambda>xs. Reply (Inr (x # xs))))) (n + (n * length ps + 0))"
    by (intro within_and_then_res) simp_all
  then show ?case by simp
qed simp

text \<open>Interleaved, the programs of a batch need as many accesses as one after the other.\<close>

lemma within_in_order_sum:
  "length ns = length ps \<Longrightarrow> list_all2 within ps ns \<Longrightarrow> within (in_order ps) (sum_list ns)"
proof (induction ps arbitrary: ns)
  case (Cons p ps)
  then obtain n ns' where ns: "ns = n # ns'" "within p n" "list_all2 within ps ns'" "length ns' = length ps"
    by (cases ns) auto
  then have "within (and_then_res p (\<lambda>x. and_then_res (in_order ps) (\<lambda>xs. Reply (Inr (x # xs))))) (n + (sum_list ns' + 0))"
    using Cons.IH by (intro within_and_then_res) simp_all
  then show ?case by (simp add: ns)
qed simp

lemma sum_list_decr: "i < length ns \<Longrightarrow> ns ! i = Suc m \<Longrightarrow> sum_list ns = Suc (sum_list (ns[i := m]))"
  for ns :: "nat list"
proof (induction ns arbitrary: i)
  case (Cons a ns)
  then show ?case by (cases i) auto
qed simp

lemma within_join_all: "list_all2 within ps ns \<Longrightarrow> within (join_all polls ps) (sum_list ns)"
proof (induction polls arbitrary: ps ns)
  case Nil
  then show ?case by (simp add: within_in_order_sum list_all2_lengthD)
next
  case (Cons i polls)
  show ?case
  proof (cases "i < length ps")
    case False
    with Cons show ?thesis by simp
  next
    case True
    then have i: "i < length ns" "within (ps ! i) (ns ! i)"
      using Cons.prems by (auto simp: list_all2_conv_all_nth)
    have upd: "\<exists>m'. sum_list ns = Suc m' \<and> (\<forall>p. within p m \<longrightarrow> within (join_all polls (ps[i := p])) m')"
      if "ns ! i = Suc m" for m
      using sum_list_decr[OF i(1) that] Cons.IH[OF list_all2_update_cong[OF Cons.prems]] by blast
    show ?thesis
      using i(2) upd Cons.IH[OF Cons.prems] True by (cases "ps ! i") (auto split: sum.split)
  qed
qed

subsection \<open>Accesses of the handlers\<close>

text \<open>One access for the presence of the client, three at most for each request of a batch.\<close>

definition batch_cost :: "'b list option \<Rightarrow> nat" where
  "batch_cost vs = (case vs of None \<Rightarrow> 0 | Some vs \<Rightarrow> 1 + 3 * length vs)"

fun route_cost :: "'v json_api \<Rightarrow> 'v option \<Rightarrow> route \<Rightarrow> nat" where
  "route_cost J body R_Status = 6"
| "route_cost J body (R_Verify_Tx _) = 4"
| "route_cost J body (R_Verify_Tx_Doge _) = 4"
| "route_cost J body (R_Ping _) = 3"
| "route_cost J body R_Btc = batch_cost (Option.bind body (jas_array J))"
| "route_cost J body R_Doge = batch_cost (Option.bind body (jas_array J))"
| "route_cost J body R_Eth = batch_cost (Option.bind body (de_requests J))"
| "route_cost J body R_Eth2 = 4"
| "route_cost J body R_Optimism = 4"
| "route_cost J body R_Sol = 5"

definition request_cost :: "'v json_api \<Rightarrow> string \<Rightarrow> 'v option \<Rightarrow> nat" where
  "request_cost J path body = (case route_of path of None \<Rightarrow> 0 | Some (_, r) \<Rightarrow> route_cost J body r)"

lemma within_tail:
  "within p n \<Longrightarrow> (\<And>r. within (k r) 0) \<Longrightarrow> within (and_then p k) n"
  "within q n \<Longrightarrow> (\<And>x. within (l x) 0) \<Longrightarrow> within (and_then_res q l) n"
  using within_and_then[of p n k 0] within_and_then_res[of q n l 0] by simp_all

lemmas within_intros = within_ask within_need within_tail

lemma within_p2p_header: "within (p2p_header_prog N chain b) 3"
  unfolding p2p_header_prog_def by (auto simp: eval_nat_numeral split: option.split sum.split intro!: within_intros)

lemma within_verify_txid: "within (verify_txid_prog B M N mb param) 3"
  unfolding verify_txid_prog_def Let_def
  by (auto split: sum.split option.split intro!: within_tail within_p2p_header)

lemma within_fetch: "within (fetch_proof_and_verify_prog J B M N send param) (Suc 3)"
  unfolding fetch_proof_and_verify_prog_def
  by (rule within_ask) (simp split: sum.split add: within_verify_txid)

lemma within_verify: "within (verify_transaction_prog J B M N send sign txid chain) 4"
  unfolding verify_transaction_prog_def using within_fetch
  by (auto split: sum.split fault.split intro!: within_tail simp: eval_nat_numeral)

lemma within_best: "within (getbestblockhash_prog J N chain params i) 3"
  unfolding getbestblockhash_prog_def by (auto simp: eval_nat_numeral intro!: within_intros)

lemma within_header: "within (getblockheader_prog J N chain params i) 3"
  unfolding getblockheader_prog_def Let_def
  by (auto simp: eval_nat_numeral split: option.split sum.split intro!: within_intros)

lemma within_hash: "within (getblockhash_prog J N chain params i) 3"
  unfolding getblockhash_prog_def
  by (auto simp: eval_nat_numeral split: option.split sum.split intro!: within_intros)

lemma within_btc_request: "within (btc_request_prog J N chain req) 3"
  unfolding btc_request_prog_def by (simp add: within_best within_header within_hash split: sum.split option.split)

lemma within_headers: "within (fetch_header_prog J N polls sign chain payload) (Suc (3 * length payload))"
proof -
  have "list_all2 within (map (btc_request_prog J N chain) payload) (replicate (length payload) 3)"
    by (auto simp: list_all2_conv_all_nth within_btc_request)
  from within_join_all[OF this, of polls] show ?thesis
    unfolding fetch_header_prog_def by (intro within_intros) (simp_all add: sum_list_replicate mult.commute)
qed

lemma within_receipt: "within (receipt_prog got put site J H params i) 3"
  unfolding receipt_prog_def by (auto simp: eval_nat_numeral split: option.split sum.split intro!: within_intros)

lemma within_eth_request: "within (eth_request_prog got put site J H req) 3"
  unfolding eth_request_prog_def using within_receipt
  by (auto simp: eval_nat_numeral split: option.split intro!: within_intros)

lemma within_eth: "within (eth_prog J H ser ser_list payload) (Suc (3 * length payload))"
proof -
  have "list_all (\<lambda>p. within p 3)
      (map (eth_request_prog helios_client (\<lambda>e st. st\<lparr>helios_client := Some e\<rparr>) ''eth: helios_client'' J H) payload)"
    by (simp add: list_all_iff within_eth_request)
  from within_in_order[OF this] show ?thesis
    unfolding eth_prog_def by (intro within_intros) (simp_all add: Let_def)
qed

lemma within_eth2: "within (eth2_prog J H ser sign req) (Suc 3)"
  and within_optimism: "within (optimism_prog J H ser sign req) (Suc 3)"
  unfolding eth2_prog_def optimism_prog_def by (intro within_intros within_eth_request; simp)+

lemma within_transaction: "within (sol_transaction_prog J L V params i) 4"
  unfolding sol_transaction_prog_def Let_def
  by (auto simp: eval_nat_numeral split: option.split sum.split intro!: within_intros)

lemma within_sol_request: "within (sol_request_prog J L V req) 4"
  unfolding sol_request_prog_def using within_transaction
  by (auto simp: eval_nat_numeral split: option.split sum.split sol_method.split intro!: within_intros)

lemma within_sol: "within (sol_prog J L V ser sign req) (Suc 4)"
  unfolding sol_prog_def by (intro within_intros within_sol_request) simp

lemma within_seq: "within p 1 \<Longrightarrow> (\<And>x. within (k x) n) \<Longrightarrow> within (and_then_res p k) (Suc n)"
  using within_and_then_res[of p 1 k n] by simp

lemma within_lightclient: "within (lightclient_prog got put site H on) 2"
  unfolding lightclient_prog_def by (auto simp: eval_nat_numeral intro!: within_ask)

lemma within_status: "within (status_prog LB net sv) 6"
proof -
  have "within (status_prog LB net sv) (Suc (Suc (2 + (2 + 0))))"
    unfolding status_prog_def
    by (intro within_seq within_act within_and_then_res[OF within_lightclient])
      (auto intro!: within_and_then_res[OF within_lightclient, of _ 0, simplified] simp: case_prod_beta)
  then show ?thesis by simp
qed

lemma within_ping: "within (ping_prog LB sgx str) 3"
  unfolding ping_prog_def by (auto simp: eval_nat_numeral intro!: within_seq within_act[unfolded One_nat_def])

lemma within_text: "within p n \<Longrightarrow> within (text_prog p) n"
  unfolding text_prog_def by (rule within_tail) simp_all

lemma within_waiting: "within p n \<Longrightarrow> within (and_then p (\<lambda>r. Reply (f r))) n"
  by (rule within_tail) simp_all

lemmas within_clients = within_eth2[simplified] within_optimism[simplified] within_sol[simplified]

lemma within_route: "within (route_prog LB polls sgx net sv r body) (route_cost (lb_json LB) body r)"
  unfolding route_prog_def Let_def
  by (cases r) (simp_all add: body_prog_def batch_cost_def within_text within_status within_verify within_ping
      within_text[OF within_headers] within_text[OF within_eth] within_waiting within_clients split: option.split)

lemma within_middle_ware:
  "within (middle_ware_prog LB polls sgx net sv verb path body) (request_cost (lb_json LB) path body)"
  by (auto simp: middle_ware_prog_def request_cost_def intro: within_route split: option.split)

lemma step_within: "within p n \<Longrightarrow> (\<And>r. p \<noteq> Reply r) \<Longrightarrow> step_prog p s = (p', s') \<Longrightarrow> \<exists>m. n = Suc m \<and> within p' m"
  by (cases p) auto

end
