(* ===== verification/Sample_System.thy ===== *)
theory Sample_System
  imports System_Facts Sample_Sol Btc_Rpc_Properties Indexer_Properties Concurrent
begin

text \<open>
  A concrete node for witnesses: the sample libraries of the components put together, with Bitcoin
  switched on and a database that holds the genesis block of the sample chain.
\<close>

definition sample_helios :: "(unit, unit, js) helios_api" where
  "sample_helios =
     \<lparr>hl_filter = (\<lambda>v. Inr ()),
      hl_hash_from_hex = (\<lambda>s. case sample_parse s of None \<Rightarrow> Inl ''hex'' | Some b \<Rightarrow> Inr b),
      hl_get_logs = (\<lambda>e f. (Inr (), e)), hl_get_block_by_number = (\<lambda>e n. (Inr (if n = 0 then None else Some ()), e)),
      hl_get_transaction_receipt = (\<lambda>e t. (Inr (Some ()), e)), hl_chain_id = (\<lambda>e. (1, e)),
      hl_get_block_number = (\<lambda>e. (Inr 7, e)), hl_to_value = (\<lambda>x. Inr (JObj []))\<rparr>"

definition sample_sol_values :: "(unit, bytes, string, string, js) sol_values" where
  "sample_sol_values =
     \<lparr>pubkey_from_str = (\<lambda>s. Inr (map char_byte s)),
      sv_signature = (\<lambda>s. if length s = 64 then Inr (map char_byte s) else Inl ''size''),
      de_program_config = (\<lambda>v. Inr None), de_signatures_config = (\<lambda>v. Inr None),
      de_account_config = (\<lambda>v. Inr None), de_commitment = (\<lambda>v. Inr None), de_tx_config = (\<lambda>v. Inr None),
      program_accounts_value = (\<lambda>xs. JNull), signatures_value = (\<lambda>xs. JArr (map JStr xs)),
      account_value = (\<lambda>a. JNull), slot_value = JNum, tx_value = (\<lambda>t. JStr (map byte_char t)),
      tx_from_value = (\<lambda>v. case v of JStr s \<Rightarrow> Inr (map char_byte s) | _ \<Rightarrow> Inl ''tx'')\<rparr>"

type_synonym sample_node_libs =
  "(unit, block_hash list, unit, unit, unit, unit, unit, unit, endpoint, unit, bytes, string, string, js) node_libs"

text \<open>A full node that answers everything with the Merkle block of block \<open>b\<close>.\<close>

fun sample_proof_reply :: "js \<Rightarrow> js" where
  "sample_proof_reply (JObj [_, (_, JStr m), (_, p), (_, i)]) = JObj [(''id'', i), (''result'', JStr ''hb'')]"
| "sample_proof_reply v = v"

fun sample_proof_send :: "(unit, js) transport" where
  "sample_proof_send w (JArr reqs) = (Inr (JArr (map sample_proof_reply reqs)), w)"
| "sample_proof_send w v = (Inr v, w)"

text \<open>The texts of a verification say which transaction was verified.\<close>

definition sample_verify_text :: "js verify_response \<Rightarrow> string" where
  "sample_verify_text v =
     (if vr_error v then ''no'' else case vr_result v of Verified_Txid t \<Rightarrow> ''ok'' @ map byte_char t | _ \<Rightarrow> ''no'')"

lemma sample_verify_text_inj:
  assumes "sample_verify_text v = sample_verify_text (response_new False (Verified_Txid t))"
  shows "v = response_new False (Verified_Txid t)"
proof -
  have "inj byte_char" by (metis injI char_byte_inverse(1))
  with assms show ?thesis
    by (cases v) (auto simp: sample_verify_text_def response_new_def inj_map_eq_map
        split: if_splits verify_text.splits)
qed

definition sample_libs :: sample_node_libs where
  "sample_libs =
     \<lparr>lb_json = js_api, lb_bitcoin = sample_btc, lb_merkle = sample_merkle, lb_p2p = sample_nk,
      lb_send = sample_proof_send, lb_eth = sample_helios, lb_op = sample_helios, lb_sol = sample_sol_values,
      lb_sol_env = sample_env [], ser_verify = sample_verify_text,
      ser_btc = (\<lambda>rs. ''btc''), ser_eth = (\<lambda>r. ''eth''), ser_sol = (\<lambda>r. ''sol''), ser_texts = concat,
      ser_status = (\<lambda>s. ''status''), show_ping = (\<lambda>s b n h t m. s), sgx_sign = (\<lambda>s. ''sig'' @ s)\<rparr>"

definition sample_service :: service where
  "sample_service = \<lparr>sv_btc = True, sv_eth = False, sv_op = False, sv_doge = False, sv_sol = False\<rparr>"

definition sample_config :: node_config where
  "sample_config =
     \<lparr>cf_service = sample_service, cf_network_type = Bitcoin, cf_daemon_rpc_addr = ''127.0.0.1:8332'',
      cf_cookie = Some ''cookie'', cf_doge_network_type = DogecoinTestnet,
      cf_doge_daemon_rpc_addr = ''127.0.0.1:22555'', cf_doge_cookie = None, cf_regtest_peer = [],
      cf_http_addr = ''127.0.0.1:3000'', cf_store = ''./db'', cf_subclient_url = [], cf_device_owner = [],
      cf_watcher_device_id = [], cf_relate_device_id_test = [], cf_sgx_enable = True, cf_thread = 30,
      cf_consensus_rpc = [], cf_execution_rpc = [], cf_eth_network = ''mainnet'', cf_op_consensus_rpc = [],
      cf_op_execution_rpc = [], cf_op_network = ''op-mainnet'', cf_sol_judge_rpc = ''j'',
      cf_sol_extra_rpcs = ''a'', cf_electrs_support = True, cf_disable_helios = False,
      cf_btc_only_p2p = False, cf_start_filter = ''btc''\<rparr>"

definition sample_starters :: "(unit, sample_db, unit, unit, unit) starters" where
  "sample_starters =
     \<lparr>start_eth = Inr (), start_op = Inr (), start_btc = (\<lambda>n. Inr ()),
      start_doge = (\<lambda>n. Inr ()), connect = (\<lambda>n a c. ()), raw_store = sample_genesis_db\<rparr>"

lemma sample_libs_ok: "libs_ok sample_libs (\<lambda>_. True) (set sample_headers)"
  using sample_p2p_ok sample_json_ok sample_conv_ok
  by (auto simp: libs_ok_def sample_libs_def sample_helios_def sample_sol_values_def sample_nk_def
      sample_from_value_def split: if_splits)

text \<open>The started node, and the node as it serves its requests.\<close>

definition sample_chains ::
    "sample_db store \<Rightarrow> (unit, sample_db, unit, unit, unit, endpoint sol_client, js) chains_state" where
  "sample_chains st = initialize_chains_state st (Some (sample_client Bitcoin)) None (Some ()) None None None None
     (cache_new 2000)"

definition sample_app ::
    "sample_db store \<Rightarrow> (unit, sample_db, unit, unit, unit, endpoint sol_client, js) app_state" where
  "sample_app st = \<lparr>chain_state = sample_chains st, as_sgx = True,
     as_network = \<lparr>nt_btc = Bitcoin, nt_doge = DogecoinTestnet\<rparr>, as_service = sample_service\<rparr>"

lemma sample_main:
  "node_main sample_libs sample_kv sample_codec urls single_rpc sample_starters sample_config =
     bind_res (store_open sample_kv sample_codec sample_hash sample_genesis_db) (\<lambda>st. Inr (sample_chains st))"
  by (simp add: node_main_def initialize_helios_client_def initialize_p2p_clients_def initialize_daemons_def
      start_daemon_def daemon_new_def if_enabled_def sample_config_def sample_service_def sample_starters_def
      sample_libs_def initialize_sol_client_def unwrap_res_def sample_chains_def sample_client_def)

lemma sample_served:
  obtains st where "store_open sample_kv sample_codec sample_hash sample_genesis_db = (Inr st :: (unit, sample_db store) res)"
    "served sample_libs sample_kv sample_codec sample_starters sample_config (sample_app st)"
proof -
  obtain st where st: "store_open sample_kv sample_codec sample_hash sample_genesis_db =
      (Inr st :: (unit, sample_db store) res)"
    using store_reopen[OF sample_kv_ok sample_codec_ok sample_hashes_ok sample_store_inv]
    by (auto simp: sample_store_def)
  have "start_server (sample_chains st) sample_config = Some (sample_app st)"
    by (simp add: start_server_def sample_config_def sample_app_def)
  with st served_start[where LB = sample_libs and url_order = id and single_rpc = False] sample_main[of id False]
  have "served sample_libs sample_kv sample_codec sample_starters sample_config (sample_app st)" by simp
  with st show ?thesis using that by blast
qed

lemma sample_proof_request:
  "request js_api sample_proof_send m p d =
     (Inr (JStr ''hb''), d\<lparr>dm_message_id := dm_message_id d + 1, dm_node := ()\<rparr>)"
  unfolding request_Inr
  by (simp add: mk_request_def reply_value_def no_rpc_error_def)

text \<open>The sample node verifies the transaction \<open>a\<close>.\<close>

lemma sample_gettxoutproof:
  "gettxoutproof js_api sample_btc sample_proof_send (merkle_proof_param_new [t] None BitCoin) d =
     (Inr \<lparr>mb_header = sample_headers ! Suc 0, mb_txn = []\<rparr>, d\<lparr>dm_message_id := dm_message_id d + 1, dm_node := ()\<rparr>)"
  by (simp add: gettxoutproof_def bind_act_def sample_proof_request merkleblock_for_def merkleblock_from_value_def
      merkle_proof_param_new_def sample_hex_def)
    (simp add: sample_btc_def sample_headers_def)

lemma sample_middle_ware:
  "\<exists>app'. middle_ware sample_libs GET ''/verify_tx/a'' None (sample_app st) =
     (Some (Inr (Text (sgx_sign sample_libs (ser_verify sample_libs
        (response_new False (Verified_Txid (1 # replicate 31 0))))))), app')"
proof -
  let ?t = "1 # replicate 31 0 :: u8 list"
  let ?p = "merkle_proof_param_new [?t] None BitCoin"
  have route: "route_of ''/verify_tx/a'' = Some (GET, R_Verify_Tx ''a'')"
    "is_service_enabled (as_service (sample_app st)) ''/verify_tx/a''"
    by (simp_all add: route_of_def is_service_enabled_def sample_app_def sample_service_def)
  have libs: "lb_json sample_libs = js_api" "lb_bitcoin sample_libs = sample_btc" "lb_merkle sample_libs = sample_merkle"
    "lb_p2p sample_libs = sample_nk" "lb_send sample_libs = sample_proof_send"
    by (simp_all add: sample_libs_def)
  have cs: "chain_state (sample_app st) = sample_chains st" by (simp add: sample_app_def)
  let ?d = "(sample_client Bitcoin)\<lparr>dm_message_id := dm_message_id (sample_client Bitcoin) + 1, dm_node := ()\<rparr>"
  let ?cs = "set_chain_daemon BitCoin ?d (sample_chains st)"
  have c: "chain_daemon BitCoin (sample_chains st) = Some (sample_client Bitcoin)"
    "chain_handle BitCoin (sample_chains st) = Some ()" "response_cache (sample_chains st) = cache_new 2000"
    by (simp_all add: sample_chains_def initialize_chains_state_def chain_daemon_def chain_handle_def set_chain_daemon_def)
  have conv: "nk_old_hash sample_nk = Some" "nk_new_header sample_nk = Some" by (simp_all add: sample_nk_def)
  have "merkle_root (sample_headers ! Suc 0) = null_hash" by (simp add: sample_headers_def sample_header_def)
  then have "\<exists>out cs'. verify_txid sample_btc sample_merkle sample_nk
      \<lparr>mb_header = sample_headers ! Suc 0, mb_txn = []\<rparr> ?p ?cs = (Inr out, cs')"
    unfolding verify_txid_Inr
    by (simp add: merkle_proof_param_new_def sample_merkle_def conv sample_block_hash p2p_header_def c
        sample_nk_block Let_def del: sample_btc_simps)
  with c(1) sample_gettxoutproof[of ?t "sample_client Bitcoin"]
  have "\<exists>out cs'. fetch_proof_and_verify js_api sample_btc sample_merkle sample_nk sample_proof_send ?p (sample_chains st) =
      (Inr out, cs')"
    by (simp add: fetch_proof_and_verify_def map_err_act_def merkle_proof_param_new_def)
  then obtain out cs' where f: "fetch_proof_and_verify js_api sample_btc sample_merkle sample_nk sample_proof_send ?p
      (sample_chains st) = (Inr out, cs')" by blast
  have "txid_from_str sample_merkle ''a'' = Inr ?t" by (simp add: sample_merkle_def sample_parse_def)
  with route f show ?thesis
    by (simp add: middle_ware_def run_route_def Let_def text_act_def lift_act_def libs cs verify_transaction_def
        parse_txid_def)
qed

text \<open>The sample node as it starts, with no task.\<close>

lemma sample_concurrent:
  obtains st where "concurrent sample_libs sample_kv sample_codec sample_starters sample_config (sample_app st) []"
proof -
  obtain st where st: "store_open sample_kv sample_codec sample_hash sample_genesis_db =
      (Inr st :: (unit, sample_db store) res)"
    "served sample_libs sample_kv sample_codec sample_starters sample_config (sample_app st)"
    by (rule sample_served)
  have "start_server (sample_chains st) sample_config = Some (sample_app st)"
    by (simp add: start_server_def sample_config_def sample_app_def)
  with st(1) sample_main[of id False]
    conc_start[where LB = sample_libs and url_order = id and single_rpc = False]
  have "concurrent sample_libs sample_kv sample_codec sample_starters sample_config (sample_app st) []" by simp
  then show ?thesis using that by blast
qed

end
