(* ===== verification/Concurrent_Properties.thy ===== *)
theory Concurrent_Properties
  imports Concurrent_Bounds Sample_System
begin

text \<open>
  Properties of the running server under every interleaving of its requests: replies stay justified,
  handlers are bounded, and the requests served one after the other are among the interleavings.
\<close>

subsection \<open>Justified replies\<close>

lemma checked_proof:
  assumes "J = truth LB Q S D" "E = entry_true LB Q S D" "proof_checked J E LB param" "libs_ok LB Q S" "node_ok LB D"
    and "\<forall>h. length (block_hash_of (lb_bitcoin LB) h) = 32"
  shows "\<exists>d d' mb matches indexes. \<exists>h \<in> S. D d \<and>
    gettxoutproof (lb_json LB) (lb_bitcoin LB) (lb_send LB) param d = (Inr mb, d') \<and>
    block_hash_of (lb_bitcoin LB) h = block_hash_of (lb_bitcoin LB) (mb_header mb) \<and>
    extract_matches (lb_merkle LB) (mb_txn mb) = Inr (merkle_root h, matches, indexes)"
proof -
  obtain s d d' mb old h h' matches indexes where
    node: "J s" "chain_daemon (mp_chain param) s = Some d"
      "gettxoutproof (lb_json LB) (lb_bitcoin LB) (lb_send LB) param d = (Inr mb, d')" and
    block: "nk_old_hash (lb_p2p LB) (block_hash_of (lb_bitcoin LB) (mb_header mb)) = Some old"
      "header_found J E (lb_p2p LB) old h" "nk_new_header (lb_p2p LB) h = Some h'"
      "extract_matches (lb_merkle LB) (mb_txn mb) = Inr (merkle_root h', matches, indexes)"
    using assms(3) unfolding proof_checked_def block_checked_def by blast
  have conv: "old = block_hash_of (lb_bitcoin LB) (mb_header mb)" "h' = h"
    "nk_block_hash (lb_p2p LB) h = block_hash_of (lb_bitcoin LB) h"
    using libs_okD(3)[OF assms(4)] block(1,3) by (auto simp: nk_conv_ok_def)
  have "nk_block_hash (lb_p2p LB) h = old \<and> h \<in> S"
    using block(2) unfolding header_found_def
  proof
    assume "\<exists>v. E old v \<and> nk_from_value (lb_p2p LB) v = Inr h"
    with assms conv(1) show ?thesis by (auto simp: entry_true_def entry_ok_def)
  next
    assume "\<exists>s chain p m. J s \<and> chain_handle chain s = Some p \<and>
      fst (nk_get_block (lb_p2p LB) p old) = Inr (Some (m, h))"
    then obtain s chain p m r where "J s" "chain_handle chain s = Some p"
      "nk_get_block (lb_p2p LB) p old = (Inr (Some (m, h)), r)"
      by (metis surjective_pairing)
    with truthD(1)[OF _ assms(4,5)] p2p_okD(4)[OF libs_okD(1)[OF assms(4)]] assms(1) show ?thesis by blast
  qed
  moreover have "D d" using truthD(3)[OF node(1)[unfolded assms(1)] assms(4,5) node(2)] .
  ultimately show ?thesis using conv node(3) block(4) by fastforce
qed

lemma truth_eqs:
  "truth (scheduled LB sched) Q S D = truth LB Q S D" "entry_true (scheduled LB sched) Q S D = entry_true LB Q S D"
  "reply_checked J E (scheduled LB sched) = reply_checked J E LB"
  by (intro ext; simp add: truth_scheduled entry_true_scheduled reply_checked_def proof_checked_def block_checked_def)+

lemma concurrent_truth:
  assumes "concurrent LB K C X cf app ts" "J = truth LB Q S D" "E = entry_true LB Q S D"
    and "\<And>n p. start_btc X n = Inr p \<Longrightarrow> Q p" "\<And>n p. start_doge X n = Inr p \<Longrightarrow> Q p"
    and "\<And>url_order single_rpc cs chain d. node_main LB K C url_order single_rpc X cf = Inr cs \<Longrightarrow>
      chain_daemon chain cs = Some d \<Longrightarrow> D d"
  shows "J (chain_state app) \<and> (\<forall>task \<in> set ts. good J E (reply_checked J E LB (tk_path task)) (tk_prog task))"
proof -
  have "J cs" if "node_main LB K C url_order single_rpc X cf = Inr cs" for url_order single_rpc cs
    using started_true[OF that assms(4,5)] assms(6)[OF that] by (simp add: truth_def assms(2))
  moreover have "good J E (reply_checked J E LB path) (middle_ware_prog (scheduled LB sched) polls sgx net sv verb path body)"
    for sched polls sgx net sv verb path body
    using gt.good_middle_ware[of "scheduled LB sched" Q S D path] unfolding truth_eqs assms(2,3) by blast
  moreover have "shared_inv J E" unfolding assms(2,3) by (rule gt.shared_inv_axioms)
  ultimately show ?thesis
    using concurrent_good[OF assms(1), of J E "\<lambda>_. reply_checked J E LB"] by blast
qed

text \<open>
  C1: a positive reply of the node is justified, whatever requests run at the same time: in every
  state of the running server, however its tasks were interleaved, a task of \<open>/verify_tx/<txid>\<close> or
  \<open>/verify_tx_doge/<txid>\<close> that has ended with a signed \<open>no error\<close> reply names the transaction id asked
  for, the full node delivered a Merkle block when asked for it, and the root of its tree is that of a
  header with the block's hash that the P2P network served.
\<close>

theorem concurrent_reply_sound:
  assumes "concurrent LB K C X cf app ts" "task \<in> set ts" "libs_ok LB Q S" "node_ok LB D"
    and "\<And>n p. start_btc X n = Inr p \<Longrightarrow> Q p" "\<And>n p. start_doge X n = Inr p \<Longrightarrow> Q p"
    and "\<And>url_order single_rpc cs chain d. node_main LB K C url_order single_rpc X cf = Inr cs \<Longrightarrow>
      chain_daemon chain cs = Some d \<Longrightarrow> D d"
    and "\<forall>h. length (block_hash_of (lb_bitcoin LB) h) = 32"
    and "route_of (tk_path task) = Some (GET, r)"
      "r = R_Verify_Tx param \<and> chain = BitCoin \<or> r = R_Verify_Tx_Doge param \<and> chain = DogeCoin"
    and "reply = (\<lambda>v. sgx_sign LB (ser_verify LB v))" "yes = response_new False (Verified_Txid t)"
      "\<forall>v. reply v = reply yes \<longrightarrow> v = yes"
    and "tk_prog task = Reply (Some (Inr (Text (reply yes))))"
  shows "txid_from_str (lb_merkle LB) param = Inr t \<and>
    (\<exists>d d' mb matches indexes. \<exists>h \<in> S. D d \<and>
       gettxoutproof (lb_json LB) (lb_bitcoin LB) (lb_send LB) (merkle_proof_param_new [t] None chain) d = (Inr mb, d') \<and>
       block_hash_of (lb_bitcoin LB) h = block_hash_of (lb_bitcoin LB) (mb_header mb) \<and>
       extract_matches (lb_merkle LB) (mb_txn mb) = Inr (merkle_root h, matches, indexes))"
proof -
  obtain J E where J: "J = truth LB Q S D" "E = entry_true LB Q S D"
    and "good J E (reply_checked J E LB (tk_path task)) (tk_prog task)"
    using concurrent_truth[OF assms(1) refl refl, of Q D S] assms(2,5-7) by blast
  then have "reply_checked J E LB (tk_path task) (Some (Inr (Text (reply yes))))" by (simp add: assms(14))
  then have "txid_from_str (lb_merkle LB) param = Inr t" "proof_checked J E LB (merkle_proof_param_new [t] None chain)"
    using assms(9-13) unfolding reply_checked_def by blast+
  with checked_proof[OF J _ assms(3,4,8)] show ?thesis by blast
qed

subsection \<open>One request after the other\<close>

text \<open>A task that is scheduled until it ends, whatever else the server has to do.\<close>

lemma concurrent_next:
  assumes "concurrent LB K C X cf app ts" "i < length ts" "tk_prog (ts ! i) = p" "\<And>r. p \<noteq> Reply r"
    and "step_prog p (chain_state app) = (p', cs)"
  shows "concurrent LB K C X cf (app\<lparr>chain_state := cs\<rparr>)
    (ts[i := (ts ! i)\<lparr>tk_accesses := tk_accesses (ts ! i) + 1, tk_prog := p'\<rparr>])"
  by (rule conc_access[OF assms(1,2)]) (use assms(3-5) in simp_all)

lemma concurrent_runs_at:
  assumes "concurrent LB K C X cf app ts" "i < length ts" "tk_prog (ts ! i) = p" "run_prog p (chain_state app) = (r, cs)"
  shows "\<exists>n. concurrent LB K C X cf (app\<lparr>chain_state := cs\<rparr>) (ts[i := (ts ! i)\<lparr>tk_accesses := n, tk_prog := Reply r\<rparr>])"
  using assms
proof (induction p arbitrary: app ts)
  case (Reply r')
  then have "(ts ! i)\<lparr>tk_accesses := tk_accesses (ts ! i), tk_prog := Reply r\<rparr> = ts ! i" "app\<lparr>chain_state := cs\<rparr> = app"
    by (cases "ts ! i"; cases app; simp)+
  with Reply.prems(1) show ?case by (metis list_update_id)
next
  case (Lookup key f)
  have "concurrent LB K C X cf app (ts[i := (ts ! i)\<lparr>tk_accesses := tk_accesses (ts ! i) + 1,
      tk_prog := f (cache_get (response_cache (chain_state app)) key)\<rparr>])"
    using concurrent_next[OF Lookup.prems(1-3)] by (cases app) simp
  from Lookup.IH[OF rangeI this] Lookup.prems show ?case by simp
next
  case (Insert key v p)
  from Insert.IH[OF concurrent_next[OF Insert.prems(1-3)]] Insert.prems show ?case by simp
next
  case (Remove key p)
  from Remove.IH[OF concurrent_next[OF Remove.prems(1-3)]] Remove.prems show ?case by simp
next
  case (Client upd f)
  from Client.IH[OF rangeI concurrent_next[OF Client.prems(1-3)]] Client.prems show ?case by simp
qed

lemma concurrent_runs:
  assumes "concurrent LB K C X cf app (ts @ [task])" "tk_prog task = p" "run_prog p (chain_state app) = (r, cs)"
  shows "\<exists>n. concurrent LB K C X cf (app\<lparr>chain_state := cs\<rparr>) (ts @ [task\<lparr>tk_accesses := n, tk_prog := Reply r\<rparr>])"
  using concurrent_runs_at[OF assms(1), of "length ts"] assms(2,3) by simp

text \<open>
  C6: a request that runs alone is the request of the sequential model, on every path, body and state: running
  the accesses of its handler one after the other gives the reply and the state that
  \<open>middle_ware\<close> gives.
\<close>

theorem request_alone:
  "run_prog (middle_ware_prog LB [] (as_sgx app) (as_network app) (as_service app) verb path body) (chain_state app) =
    (resp, cs) \<longleftrightarrow> middle_ware LB verb path body app = (resp, app\<lparr>chain_state := cs\<rparr>)"
  by (rule run_middle_ware)

lemma middle_ware_app: "\<exists>cs. snd (middle_ware LB verb path body app) = app\<lparr>chain_state := cs\<rparr>"
proof -
  have "\<exists>cs. app = app\<lparr>chain_state := cs\<rparr>" by (rule exI[of _ "chain_state app"]) (cases app; simp)
  then show ?thesis
    by (auto simp: middle_ware_def split: option.split prod.split)
qed

lemma concurrent_request:
  assumes "concurrent LB K C X cf app ts" "middle_ware (scheduled LB sched) verb path body app = (resp, app')"
  shows "\<exists>n. concurrent LB K C X cf app' (ts @ [\<lparr>tk_verb = verb, tk_path = path, tk_body = body, tk_accesses = n,
    tk_prog = Reply resp\<rparr>])"
proof -
  obtain cs where app': "app' = app\<lparr>chain_state := cs\<rparr>"
    using middle_ware_app[of "scheduled LB sched" verb path body app] assms(2) by auto
  with assms(2) have "run_prog (middle_ware_prog (scheduled LB sched) [] (as_sgx app) (as_network app) (as_service app)
      verb path body) (chain_state app) = (resp, cs)"
    by (simp add: run_middle_ware)
  from concurrent_runs[OF conc_accept[OF assms(1)] _ this] show ?thesis by (simp add: app')
qed

theorem concurrent_reply_sound_witness:
  "\<exists>d d'. \<exists>h \<in> set sample_headers. \<exists>(mb :: block_hash list merkle_block) matches indexes.
     gettxoutproof js_api sample_btc sample_proof_send (merkle_proof_param_new [1 # replicate 31 0] None BitCoin) d =
       (Inr mb, d') \<and> sample_hash h = sample_hash (mb_header mb) \<and>
     extract_matches sample_merkle (mb_txn mb) = Inr (merkle_root h, matches, indexes)"
proof -
  obtain st where st: "concurrent sample_libs sample_kv sample_codec sample_starters sample_config (sample_app st) []"
    by (rule sample_concurrent)
  let ?t = "1 # replicate 31 0 :: u8 list"
  let ?yes = "response_new False (Verified_Txid ?t) :: js verify_response"
  let ?reply = "\<lambda>v. sgx_sign sample_libs (ser_verify sample_libs v)"
  have inj: "\<forall>v. ?reply v = ?reply ?yes \<longrightarrow> v = ?yes"
    using sample_verify_text_inj by (auto simp: sample_libs_def)
  obtain app' where "middle_ware (scheduled sample_libs (env_schedule (lb_sol_env sample_libs))) GET ''/verify_tx/a'' None
      (sample_app st) = (Some (Inr (Text (?reply ?yes))), app')"
    using sample_middle_ware by auto
  from concurrent_request[OF st this] obtain task where task:
    "concurrent sample_libs sample_kv sample_codec sample_starters sample_config app' [task]"
    "tk_path task = ''/verify_tx/a''" "tk_prog task = Reply (Some (Inr (Text (?reply ?yes))))" by auto
  have r: "route_of (tk_path task) = Some (GET, R_Verify_Tx ''a'')" by (simp add: route_of_def task(2))
  have len: "\<forall>h. length (block_hash_of (lb_bitcoin sample_libs) h) = 32"
    by (simp add: sample_libs_def sample_hash_def)
  show ?thesis
    using concurrent_reply_sound[OF task(1) _ sample_libs_ok _ _ _ _ len r _ refl refl inj task(3), where D = "\<lambda>_. True"]
    by (simp add: sample_libs_def node_ok_def) blast
qed

text \<open>
  C5: the requests served one after the other are among the interleavings: every state of the
  sequential server is a state of the running server, with every request accepted so far ended.
\<close>

theorem served_interleaves:
  assumes "served LB K C X cf app"
  shows "\<exists>ts. concurrent LB K C X cf app ts \<and> (\<forall>task \<in> set ts. \<exists>r. tk_prog task = Reply r)"
  using assms
proof (induction rule: served.induct)
  case (served_start url_order single_rpc cs app)
  then show ?case by (intro exI[of _ "[]"]) (auto intro: conc_start)
next
  case (served_request app sched verb path body resp app')
  then obtain ts where "concurrent LB K C X cf app ts" "\<forall>task \<in> set ts. \<exists>r. tk_prog task = Reply r" by blast
  with concurrent_request[OF _ served_request.hyps(2)] show ?case by fastforce
qed

theorem served_interleaves_witness:
  "\<exists>app ts. concurrent sample_libs sample_kv sample_codec sample_starters sample_config app ts \<and>
     (\<forall>task \<in> set ts. \<exists>r. tk_prog task = Reply r)"
proof -
  obtain st where "served sample_libs sample_kv sample_codec sample_starters sample_config (sample_app st)"
    using sample_served by blast
  from served_interleaves[OF this] show ?thesis by blast
qed

subsection \<open>Bounded handlers\<close>

lemma concurrent_within:
  assumes "concurrent LB K C X cf app ts"
  shows "\<forall>task \<in> set ts. \<exists>n. tk_accesses task + n = request_cost (lb_json LB) (tk_path task) (tk_body task) \<and>
    within (tk_prog task) n"
  using assms
proof (induction rule: concurrent.induct)
  case (conc_accept app ts verb path body sched polls)
  have "within (middle_ware_prog (scheduled LB sched) polls (as_sgx app) (as_network app) (as_service app) verb path body)
      (request_cost (lb_json LB) path body)"
    using within_middle_ware[of "scheduled LB sched" polls] by simp
  with conc_accept.IH show ?case by auto
next
  case (conc_access app ts i p cs)
  then obtain n where "tk_accesses (ts ! i) + n = request_cost (lb_json LB) (tk_path (ts ! i)) (tk_body (ts ! i))"
    "within (tk_prog (ts ! i)) n" by (meson nth_mem)
  moreover from step_within[OF this(2) conc_access.hyps(3,4)] obtain m where "n = Suc m" "within p m" by blast
  ultimately show ?case by (intro ball_set_update[OF conc_access.IH]) auto
qed simp

text \<open>
  C9: handlers are bounded whatever runs beside them: a task never accesses the shared state more often than
  its request allows (four times for a proof, three times for each request of a batch, and one
  more, six times for \<open>/status\<close>), and a task that has used its accesses up has ended. No interference makes a handler try again.
\<close>

theorem accesses_bounded:
  assumes "concurrent LB K C X cf app ts" "task \<in> set ts"
  shows "tk_accesses task \<le> request_cost (lb_json LB) (tk_path task) (tk_body task) \<and>
    (tk_accesses task = request_cost (lb_json LB) (tk_path task) (tk_body task) \<longrightarrow> (\<exists>r. tk_prog task = Reply r))"
proof -
  obtain n where "tk_accesses task + n = request_cost (lb_json LB) (tk_path task) (tk_body task)" "within (tk_prog task) n"
    using concurrent_within[OF assms(1)] assms(2) by blast
  then show ?thesis by (cases "tk_prog task") auto
qed

theorem accesses_bounded_witness:
  "\<exists>app task. concurrent sample_libs sample_kv sample_codec sample_starters sample_config app [task] \<and>
     tk_path task = ''/verify_tx/a'' \<and> tk_accesses task \<le> 4"
proof -
  obtain st where st: "concurrent sample_libs sample_kv sample_codec sample_starters sample_config (sample_app st) []"
    by (rule sample_concurrent)
  obtain resp app' where "middle_ware (scheduled sample_libs []) GET ''/verify_tx/a'' None (sample_app st) = (resp, app')"
    by fastforce
  from concurrent_request[OF st this] obtain task where task:
    "concurrent sample_libs sample_kv sample_codec sample_starters sample_config app' [task]"
    "tk_path task = ''/verify_tx/a''" by auto
  have "request_cost (lb_json sample_libs) ''/verify_tx/a'' (tk_body task) = 4"
    by (simp add: request_cost_def route_of_def)
  with accesses_bounded[OF task(1), of task] task show ?thesis by auto
qed

end
