(* ===== verification/Server_Properties.thy ===== *)
theory Server_Properties
  imports Concurrent_Properties
begin

text \<open>
  Properties of the server and of the Ethereum and Solana endpoints: which requests reach a
  handler and find its client, how numbers are read, what replies look like, and what the shared
  cache mixes up.
\<close>

subsection \<open>Clients and services\<close>

lemma started_clients:
  assumes "node_main LB K C url_order single_rpc X cf = Inr cs"
  shows "clients cs = clients_of (cf_service cf)"
proof -
  have on: "if_enabled b r = Inr c \<Longrightarrow> (c \<noteq> None) = b" for b c and r :: "(unit, 'z) res"
    by (auto simp: if_enabled_def res_simps split: if_splits)
  have sol: "initialize_sol_client R it b sv j ex = Inr c \<Longrightarrow> (c \<noteq> None) = sv_sol sv" for R it b sv j ex c
    by (auto simp: initialize_sol_client_def Let_def split: if_splits prod.splits bool.splits)
  from assms show ?thesis
    by (auto simp: node_main_def initialize_helios_client_def initialize_p2p_clients_def
        initialize_daemons_def initialize_chains_state_def clients_def clients_of_def res_simps
        split: sum.splits prod.splits dest!: on sol)
qed

lemma running_clients:
  assumes "concurrent LB K C X cf app ts"
  shows "clients (chain_state app) = clients_of (as_service app)" "as_service app = cf_service cf"
proof -
  have "clients (chain_state app) = clients_of (cf_service cf) \<and> as_service app = cf_service cf"
    by (rule concurrent_keeps[OF assms gc.shared_inv_axioms]) (simp_all add: started_clients gc.safe_middle_ware)
  then show "clients (chain_state app) = clients_of (as_service app)" "as_service app = cf_service cf" by simp_all
qed

text \<open>
  C22: in every state of the running server, however its requests are interleaved, the clients held are
  exactly those of the services that are switched on: no request adds or removes one.
\<close>

theorem served_clients:
  assumes "concurrent LB K C X cf app ts"
  shows "clients (chain_state app) = clients_of (cf_service cf) \<and> as_service app = cf_service cf"
  using running_clients[OF assms] by simp

theorem served_clients_witness:
  "\<exists>app. concurrent sample_libs sample_kv sample_codec sample_starters sample_config app [] \<and>
     clients (chain_state app) = [True, True, False, False, False, False, False]"
proof -
  obtain st where st: "concurrent sample_libs sample_kv sample_codec sample_starters sample_config (sample_app st) []"
    by (rule sample_concurrent)
  with served_clients[OF st] show ?thesis
    by (auto simp: sample_config_def sample_service_def clients_of_def)
qed

text \<open>The clients that the handler of a route unwraps.\<close>

fun has_clients :: "route \<Rightarrow> ('w, 'db, 'p, 'e, 'o, 's, 'v) chains_state \<Rightarrow> bool" where
  "has_clients R_Status cs = True"
| "has_clients (R_Verify_Tx _) cs = (btc_daemon cs \<noteq> None \<and> btc_handle cs \<noteq> None)"
| "has_clients (R_Verify_Tx_Doge _) cs = (doge_daemon cs \<noteq> None \<and> doge_handle cs \<noteq> None)"
| "has_clients (R_Ping _) cs = (btc_handle cs \<noteq> None \<and> doge_handle cs \<noteq> None)"
| "has_clients R_Btc cs = (btc_handle cs \<noteq> None)"
| "has_clients R_Doge cs = (doge_handle cs \<noteq> None)"
| "has_clients R_Eth cs = (helios_client cs \<noteq> None)"
| "has_clients R_Eth2 cs = (helios_client cs \<noteq> None)"
| "has_clients R_Optimism cs = (helios_op_client cs \<noteq> None)"
| "has_clients R_Sol cs = (chains_state.sol_client cs \<noteq> None)"

text \<open>The paths of the three routes with a parameter.\<close>

lemma route_of_segments:
  "route_of path = Some (m, R_Verify_Tx p) \<Longrightarrow> split_char (CHR ''/'') path = [[], ''verify_tx'', p]"
  "route_of path = Some (m, R_Verify_Tx_Doge p) \<Longrightarrow> split_char (CHR ''/'') path = [[], ''verify_tx_doge'', p]"
  unfolding route_of_def Let_def by (auto split: if_splits list.splits)

lemma route_of_path:
  "route_of path = Some (m, R_Verify_Tx p) \<Longrightarrow> path = ''/verify_tx/'' @ p"
  "route_of path = Some (m, R_Verify_Tx_Doge p) \<Longrightarrow> path = ''/verify_tx_doge/'' @ p"
proof -
  assume "route_of path = Some (m, R_Verify_Tx p)"
  then show "path = ''/verify_tx/'' @ p"
    using join_split_char[of "CHR ''/''" path] route_of_segments(1)[of path m p] by simp
next
  assume "route_of path = Some (m, R_Verify_Tx_Doge p)"
  then show "path = ''/verify_tx_doge/'' @ p"
    using join_split_char[of "CHR ''/''" path] route_of_segments(2)[of path m p] by simp
qed

lemma route_of_fixed:
  "route_of path = Some (m, r) \<Longrightarrow> (\<forall>p. r \<noteq> R_Verify_Tx p \<and> r \<noteq> R_Verify_Tx_Doge p \<and> r \<noteq> R_Ping p) \<Longrightarrow>
   (path, m, r) \<in> {(''/status'', GET, R_Status), (''/btc'', POST, R_Btc), (''/doge'', POST, R_Doge),
     (''/eth'', POST, R_Eth), (''/eth2'', POST, R_Eth2), (''/optimism'', POST, R_Optimism), (''/sol'', POST, R_Sol)}"
  unfolding route_of_def Let_def by (auto split: if_splits list.splits)

lemma contains_prefix: "str_contains (pat @ s) pat"
  unfolding str_contains_iff by (metis append_Nil)

lemma is_service_enabled_fixed:
  "is_service_enabled sv ''/btc'' = sv_btc sv" "is_service_enabled sv ''/doge'' = sv_doge sv"
  "is_service_enabled sv ''/eth'' = sv_eth sv" "is_service_enabled sv ''/eth2'' = sv_eth sv"
  "is_service_enabled sv ''/optimism'' = sv_op sv" "is_service_enabled sv ''/sol'' = sv_sol sv"
  "is_service_enabled sv ''/status''"
  by (simp_all add: is_service_enabled_def)

text \<open>
  C25: a request that passes the middleware finds every client its handler unwraps, with two exceptions
  by the way the middleware searches the path for a pattern: the refused \<open>/ping\<close>, and a transaction id
  (no hexadecimal number) that begins like the Dogecoin route.
\<close>

theorem enabled_route_finds_clients:
  assumes "concurrent LB K C X cf app ts" "is_service_enabled (as_service app) path" "route_of path = Some (m, r)"
  shows "has_clients r (chain_state app) \<or> (\<exists>p. r = R_Ping p) \<or>
    (\<exists>p. r = R_Verify_Tx p \<and> str_contains path ''/verify_tx_doge'')"
proof -
  let ?sv = "as_service app"
  have cl: "has_clients r' (chain_state app)"
    if "(r' = R_Status) \<or> (r' = R_Btc \<and> sv_btc ?sv) \<or> (r' = R_Doge \<and> sv_doge ?sv) \<or>
      (r' \<in> {R_Eth, R_Eth2} \<and> sv_eth ?sv) \<or> (r' = R_Optimism \<and> sv_op ?sv) \<or> (r' = R_Sol \<and> sv_sol ?sv) \<or>
      (r' = R_Verify_Tx p \<and> sv_btc ?sv) \<or> (r' = R_Verify_Tx_Doge p \<and> sv_doge ?sv)" for r' p
    using that running_clients(1)[OF assms(1)] by (auto simp: clients_def clients_of_def)
  consider p where "r = R_Verify_Tx p" | p where "r = R_Verify_Tx_Doge p" | p where "r = R_Ping p" |
    "\<forall>p. r \<noteq> R_Verify_Tx p \<and> r \<noteq> R_Verify_Tx_Doge p \<and> r \<noteq> R_Ping p" by blast
  then show ?thesis
  proof cases
    case 1
    have "str_contains path ''/verify_tx''"
      using route_of_path(1) assms(3) contains_prefix[of "''/verify_tx''" "CHR ''/'' # p"] 1 by fastforce
    with 1 assms(2) cl[of r p] show ?thesis by (auto simp: is_service_enabled_def split: if_splits)
  next
    case 2
    have "str_contains path ''/verify_tx_doge''"
      using route_of_path(2) assms(3) contains_prefix[of "''/verify_tx_doge''" "CHR ''/'' # p"] 2 by fastforce
    with 2 assms(2) cl[of r p] show ?thesis by (simp add: is_service_enabled_def)
  next
    case 4
    have "has_clients r (chain_state app)"
      using route_of_fixed[OF assms(3) 4] assms(2) cl[of r undefined]
      by (elim insertE) (simp_all add: is_service_enabled_fixed)
    then show ?thesis by blast
  qed blast
qed

theorem enabled_route_finds_clients_witness:
  "\<exists>app. concurrent sample_libs sample_kv sample_codec sample_starters sample_config app [] \<and>
     has_clients (R_Verify_Tx ''a'') (chain_state app)"
proof -
  obtain st where st: "concurrent sample_libs sample_kv sample_codec sample_starters sample_config (sample_app st) []"
    by (rule sample_concurrent)
  have "is_service_enabled (as_service (sample_app st)) ''/verify_tx/a''"
    "route_of ''/verify_tx/a'' = Some (GET, R_Verify_Tx ''a'')" "\<not> str_contains ''/verify_tx/a'' ''/verify_tx_doge''"
    by (simp_all add: is_service_enabled_def sample_app_def sample_service_def route_of_def)
  with enabled_route_finds_clients[OF st this(1,2)] st show ?thesis by blast
qed

text \<open>\<open>/ping\<close> is routed but never enabled.\<close>

lemma ping_refused:
  "\<not> str_contains (''/ping/'' @ p) ''/verify_tx'' \<Longrightarrow>
   middle_ware LB GET (''/ping/'' @ p) body app = (Some (Inr Service_Unavailable), app)"
proof -
  assume a: "\<not> str_contains (''/ping/'' @ p) ''/verify_tx''"
  have "\<not> str_contains (''/ping/'' @ p) ''/verify_tx_doge''"
  proof
    assume "str_contains (''/ping/'' @ p) ''/verify_tx_doge''"
    then obtain x y where "''/ping/'' @ p = x @ ''/verify_tx_doge'' @ y" unfolding str_contains_iff by blast
    then have "''/ping/'' @ p = x @ ''/verify_tx'' @ (''_doge'' @ y)" by simp
    with a show False unfolding str_contains_iff by blast
  qed
  with a show ?thesis by (simp add: middle_ware_def is_service_enabled_def)
qed

subsection \<open>Status\<close>

text \<open>What a status shows: the chain ids of the networks started with, and nothing of a service that is off.\<close>

definition status_shows :: "network_type \<Rightarrow> service \<Rightarrow> sync_status \<Rightarrow> bool" where
  "status_shows net sv s \<longleftrightarrow> rpc_btc_tip s = 0 \<and>
     ss_btc_chainid s = btc_chainid (nt_btc net) \<and> ss_doge_chainid s = doge_chainid (nt_doge net) \<and>
     (sv_btc sv \<or> p2p_btc_height s = 0) \<and> (sv_doge sv \<or> p2p_doge_height s = 0) \<and>
     (sv_eth sv \<or> lightclient_eth_height s = 0 \<and> ss_eth_chainid s = 0) \<and>
     (sv_op sv \<or> lightclient_op_height s = 0 \<and> ss_op_chainid s = 0)"

lemma good_status:
  assumes "J = (\<lambda>cs. clients cs = clients_of sv)"
  shows "good J E (\<lambda>r. \<exists>s. r = Inr (sgx_sign LB (ser_status LB s)) \<and> status_shows net sv s) (status_prog LB net sv)"
proof -
  have p2p: "good J E (\<lambda>r. \<exists>n. r = Inr n \<and> (sv_btc sv \<or> n = 0)) (act_prog (p2p_height (lb_p2p LB) BitCoin (sv_btc sv)))"
    "good J E (\<lambda>r. \<exists>n. r = Inr n \<and> (sv_doge sv \<or> n = 0)) (act_prog (p2p_height (lb_p2p LB) DogeCoin (sv_doge sv)))"
    unfolding assms
    by (intro good_act; clarsimp simp: p2p_height_def chain_handle_def clients_def clients_of_def set_chain_handle_def
        split: option.splits sum.splits prod.splits)+
  have light: "good J E (\<lambda>r. \<exists>x. r = Inr x \<and> (sv_eth sv \<or> x = (0, 0)))
      (lightclient_prog helios_client (\<lambda>e st. st\<lparr>helios_client := Some e\<rparr>) site (lb_eth LB) (sv_eth sv))"
    "good J E (\<lambda>r. \<exists>x. r = Inr x \<and> (sv_op sv \<or> x = (0, 0)))
      (lightclient_prog helios_op_client (\<lambda>e st. st\<lparr>helios_op_client := Some e\<rparr>) site (lb_op LB) (sv_op sv))" for site
    unfolding assms by (intro good_lightclient; auto simp: clients_def clients_of_def)+
  show ?thesis
    unfolding status_prog_def status_shows_def
    by (intro good_returns[OF p2p(1)] good_returns[OF p2p(2)] good_returns[OF light(1)],
        simp only: case_prod_beta, rule good_returns[OF light(2)], force)
qed

lemma task_status:
  assumes "concurrent LB K C X cf app ts" "task \<in> set ts" "tk_verb task = GET" "tk_path task = ''/status''"
  shows "tk_accesses task \<le> 6 \<and>
    (tk_accesses task < 6 \<and> (\<forall>r. tk_prog task \<noteq> Reply r) \<or>
     (\<exists>s. tk_prog task = Reply (Some (Inr (Text (sgx_sign LB (ser_status LB s))))) \<and>
       status_shows \<lparr>nt_btc = cf_network_type cf, nt_doge = cf_doge_network_type cf\<rparr> (cf_service cf) s))"
proof -
  let ?net = "\<lparr>nt_btc = cf_network_type cf, nt_doge = cf_doge_network_type cf\<rparr>"
  let ?R = "\<lambda>verb path r. verb = GET \<longrightarrow> path = ''/status'' \<longrightarrow>
    (\<exists>s. r = Some (Inr (Text (sgx_sign LB (ser_status LB s)))) \<and> status_shows ?net (cf_service cf) s)"
  let ?J = "\<lambda>cs. clients cs = clients_of (cf_service cf)"
  have "good ?J (\<lambda>_ _. True) (?R verb path) (middle_ware_prog (scheduled LB sched) polls sgx ?net (cf_service cf) verb path body)"
    for sched polls sgx verb path body
  proof (cases "verb = GET \<and> path = ''/status''")
    case True
    then show ?thesis
      by (simp add: middle_ware_prog_def route_prog_def is_service_enabled_fixed route_of_def)
        (rule good_text, rule good_mono[OF good_status[OF refl]], auto)
  next
    case False
    then show ?thesis by (intro good_mono[OF gc.safe_middle_ware]) auto
  qed
  with concurrent_good[OF assms(1) gc.shared_inv_axioms, of "clients_of (cf_service cf)" ?R] started_clients assms(2)
  have "good ?J (\<lambda>_ _. True) (?R (tk_verb task) (tk_path task)) (tk_prog task)" by blast
  moreover obtain n where "tk_accesses task + n = 6" "within (tk_prog task) n"
    using concurrent_within[OF assms(1)] assms(2,4) by (auto simp: request_cost_def route_of_def)
  ultimately show ?thesis using assms(3,4) by (cases "tk_prog task") auto
qed

text \<open>
  C26: \<open>/status\<close> always answers, whatever the clients report and whatever runs beside it: a task of
  \<open>/status\<close> accesses the shared state six times at most; it has either made fewer accesses and goes on, or it has
  ended, and then with the signed text of a status, not with a panic; and from every state of the server, the
  task can be run to this end. The status shows the chain ids of the networks started with and
  zeros for the services that are off.
\<close>

theorem status_answers:
  assumes "concurrent LB K C X cf app ts" "i < length ts" "ts ! i = task"
    and "tk_verb task = GET" "tk_path task = ''/status''"
    and "answer = (\<lambda>s. Some (Inr (Text (sgx_sign LB (ser_status LB s)))))"
    and "right = status_shows \<lparr>nt_btc = cf_network_type cf, nt_doge = cf_doge_network_type cf\<rparr> (cf_service cf)"
  shows "tk_accesses task \<le> 6 \<and>
    (tk_accesses task < 6 \<and> (\<forall>r. tk_prog task \<noteq> Reply r) \<or> (\<exists>s. tk_prog task = Reply (answer s) \<and> right s)) \<and>
    (\<exists>n cs s. n \<le> 6 \<and> right s \<and> concurrent LB K C X cf (app\<lparr>chain_state := cs\<rparr>)
       (ts[i := task\<lparr>tk_accesses := n, tk_prog := Reply (answer s)\<rparr>]))"
proof -
  obtain r cs where "run_prog (tk_prog task) (chain_state app) = (r, cs)" by fastforce
  from concurrent_runs_at[OF assms(1,2) _ this] assms(3) obtain n where
    run: "concurrent LB K C X cf (app\<lparr>chain_state := cs\<rparr>) (ts[i := task\<lparr>tk_accesses := n, tk_prog := Reply r\<rparr>])" by auto
  have "task\<lparr>tk_accesses := n, tk_prog := Reply r\<rparr> \<in> set (ts[i := task\<lparr>tk_accesses := n, tk_prog := Reply r\<rparr>])"
    using assms(2) by (simp add: set_update_memI)
  from task_status[OF run this] assms(4-7) have "n \<le> 6 \<and> (\<exists>s. r = answer s \<and> right s)" by auto
  with run task_status[OF assms(1) _ assms(4,5)] assms(2,3,6,7) show ?thesis by (auto intro: nth_mem)
qed

theorem status_answers_witness:
  "\<exists>app task n s. tk_path task = ''/status'' \<and> n \<le> 6 \<and>
     concurrent sample_libs sample_kv sample_codec sample_starters sample_config app
       [task\<lparr>tk_accesses := n, tk_prog := Reply (Some (Inr (Text (sgx_sign sample_libs (ser_status sample_libs s)))))\<rparr>] \<and>
     status_shows \<lparr>nt_btc = cf_network_type sample_config, nt_doge = cf_doge_network_type sample_config\<rparr>
       (cf_service sample_config) s"
proof -
  obtain st where "concurrent sample_libs sample_kv sample_codec sample_starters sample_config (sample_app st) []"
    by (rule sample_concurrent)
  from conc_accept[OF this, of GET "''/status''" None "[]" "[]"] obtain task where task:
    "concurrent sample_libs sample_kv sample_codec sample_starters sample_config (sample_app st) [task]"
    "tk_verb task = GET" "tk_path task = ''/status''"
    by (metis append_Nil task.select_convs(1,2))
  from status_answers[OF this(1), of 0 task, OF _ _ this(2,3) refl refl] task(3) show ?thesis by auto
qed

subsection \<open>Numbers\<close>

text \<open>The value of a digit string.\<close>

fun digits_value :: "nat \<Rightarrow> string \<Rightarrow> nat" where
  "digits_value acc [] = acc"
| "digits_value acc (c # cs) = digits_value (acc * 10 + (of_char c - 48)) cs"

definition is_digits :: "string \<Rightarrow> bool" where
  "is_digits s \<longleftrightarrow> (\<forall>c \<in> set s. (of_char c :: nat) \<in> {48..57})"

lemma digits_value_mono: "acc \<le> digits_value acc s"
proof (induction s arbitrary: acc)
  case (Cons c s)
  have "acc \<le> acc * 10 + (of_char c - 48)" by simp
  also have "\<dots> \<le> digits_value acc (c # s)" using Cons.IH[of "acc * 10 + (of_char c - 48)"] by simp
  finally show ?case .
qed simp

lemma parse_digits_Inr:
  "acc < 2 ^ 64 \<Longrightarrow> parse_digits acc s = Inr n \<longleftrightarrow>
     is_digits s \<and> n = digits_value acc s \<and> digits_value acc s < 2 ^ 64"
proof (induction s arbitrary: acc)
  case (Cons c s)
  let ?acc = "acc * 10 + (of_char c - 48)"
  show ?case
  proof (cases "?acc < 2 ^ 64")
    case True
    with Cons.IH[of ?acc] show ?thesis by (auto simp: to_digit_def Let_def is_digits_def)
  next
    case False
    with digits_value_mono[of ?acc s] show ?thesis by (auto simp: to_digit_def Let_def is_digits_def)
  qed
qed (auto simp: is_digits_def)

text \<open>
  block numbers: a text is read as a 64-bit number exactly if it is a non-empty string of
  decimal digits, perhaps after a plus sign, whose value fits; the number is that value, so no
  number wraps around.
\<close>

lemma parse_u64_value:
  "parse_u64 s = Inr n \<longleftrightarrow>
     (\<exists>ds. ds \<noteq> [] \<and> is_digits ds \<and> s \<in> {ds, CHR ''+'' # ds} \<and> digits_value 0 ds = unat n)"
proof -
  have read: "map_sum id of_nat (parse_digits 0 t) = (Inr n :: parse_int_error + u64) \<longleftrightarrow>
      is_digits t \<and> digits_value 0 t = unat n" for t
  proof (cases "parse_digits 0 t")
    case (Inr m)
    then have m: "is_digits t" "m = digits_value 0 t" "m < 2 ^ 64"
      using parse_digits_Inr[of 0 t m] by simp_all
    have "unat (of_nat m :: u64) = m" using m(3) by (simp add: unat_of_nat)
    then have "of_nat m = n \<longleftrightarrow> m = unat n" by auto
    with m Inr show ?thesis by simp
  next
    case (Inl e)
    moreover have "digits_value 0 t \<noteq> unat n \<or> \<not> is_digits t"
      using Inl parse_digits_Inr[of 0 t "digits_value 0 t"] unsigned_less[where 'a = nat, of n] by auto
    ultimately show ?thesis by auto
  qed
  have plus: "\<not> is_digits (CHR ''+'' # ds)" "\<not> is_digits ''-''" for ds
    by (simp_all add: is_digits_def)
  show ?thesis
  proof (cases "s \<noteq> [] \<and> hd s = CHR ''+''")
    case True
    then obtain ds where "s = CHR ''+'' # ds" by (cases s) auto
    with read[of ds] plus show ?thesis by (auto simp: parse_u64_def)
  next
    case False
    with read[of s] plus show ?thesis by (auto simp: parse_u64_def)
  qed
qed

subsection \<open>Replies\<close>

text \<open>
  What a reply to a request is: of version 2.0, with the request's id, and never both an error and a
  result. A light client's \<open>None\<close> is a reply with neither.
\<close>

definition eth_reply_ok :: "'v eth_req \<Rightarrow> 'v eth_resp \<Rightarrow> bool" where
  "eth_reply_ok req resp \<longleftrightarrow>
     er_jsonrpc resp = ''2.0'' \<and> er_id resp = bq_id req \<and> (er_error resp = None \<or> er_result resp = None)"

definition sol_reply_ok :: "'v sol_req \<Rightarrow> 'v sol_resp \<Rightarrow> bool" where
  "sol_reply_ok req resp \<longleftrightarrow>
     sr_jsonrpc resp = ''2.0'' \<and> sr_id resp = bq_id req \<and> (sr_error resp = None) = (sr_result resp \<noteq> None)"

lemma eth_reply_ok_create:
  "eth_reply_ok req (create_eth_response None (bq_id req) v)"
  "eth_reply_ok req (create_eth_response e (bq_id req) None)"
  by (simp_all add: eth_reply_ok_def create_eth_response_def)

lemma sol_reply_ok_create:
  "sol_reply_ok req (create_sol_response None (bq_id req) (Some v))"
  "sol_reply_ok req (create_sol_response (Some e) (bq_id req) None)"
  by (simp_all add: sol_reply_ok_def create_sol_response_def)

lemma handle_request_ok:
  assumes "\<forall>x. \<exists>v. hl_to_value H x = Inr v"
  shows "\<exists>resp s'. handle_request J H req s = (Inr resp, s') \<and> eth_reply_ok req resp"
proof -
  obtain e cache where s: "s = (e, cache)" by force
  obtain g where "\<forall>x. hl_to_value H x = Inr (g x)" using assms by metis
  then have v: "eth_value H x = Inr (g x)" for x by (simp add: eth_value_def)
  have "\<exists>resp s'. handle_get_logs H params (bq_id req) e = (Inr resp, s') \<and> eth_reply_ok req resp" for params
    using v by (auto simp: handle_get_logs_def eth_reply_ok_create split: sum.split prod.split)
  moreover have "\<exists>resp s'. handle_get_block_by_number J H params (bq_id req) e = (Inr resp, s') \<and>
      eth_reply_ok req resp" for params
    using v by (auto simp: handle_get_block_by_number_def eth_reply_ok_create
        split: option.split sum.split prod.split)
  moreover have "\<exists>resp s'. handle_get_transaction_receipt J H params (bq_id req) (e, cache) = (Inr resp, s') \<and>
      eth_reply_ok req resp" for params
    using v by (auto simp: handle_get_transaction_receipt_def eth_reply_ok_create
        split: option.split sum.split prod.split)
  ultimately have m: "\<exists>r1 e1 r2 e2 r3 s3.
      handle_get_logs H params (bq_id req) e = (Inr r1, e1) \<and> eth_reply_ok req r1 \<and>
      handle_get_block_by_number J H params (bq_id req) e = (Inr r2, e2) \<and> eth_reply_ok req r2 \<and>
      handle_get_transaction_receipt J H params (bq_id req) (e, cache) = (Inr r3, s3) \<and> eth_reply_ok req r3" for params
    by blast
  show ?thesis
  proof (cases "jas_array J (bq_params req)")
    case (Some params)
    with m[of params] show ?thesis
      unfolding s by (elim exE conjE) (simp add: handle_request_def on_client_def eth_reply_ok_create)
  qed (simp add: s handle_request_def eth_reply_ok_create)
qed

text \<open>
  C24: every request to the Ethereum endpoints gets its reply: if the library's values have a JSON form,
  the handlers never panic, and a batch is answered request by request, in order.
\<close>

theorem eth_replies_typed:
  assumes "\<forall>x. \<exists>v. hl_to_value H x = Inr v"
  shows "\<exists>resps s'. handle_requests J H reqs s = (Inr resps, s') \<and> list_all2 eth_reply_ok reqs resps \<and>
    length (convert ser resps) = length reqs"
proof -
  have len: "length (convert ser resps) = length resps" for resps
    by (induction resps) simp_all
  have "\<exists>resps s'. handle_requests J H reqs s = (Inr resps, s') \<and> list_all2 eth_reply_ok reqs resps"
  proof (induction reqs arbitrary: s)
    case (Cons req reqs)
    obtain resp s1 where 1: "handle_request J H req s = (Inr resp, s1)" "eth_reply_ok req resp"
      using handle_request_ok[OF assms] by blast
    with Cons.IH[of s1] show ?case by (auto simp: bind_act_def)
  qed simp
  then show ?thesis using len by (metis list_all2_lengthD)
qed

theorem eth_replies_typed_witness:
  "\<exists>resps s'. handle_requests js_api sample_helios
      [\<lparr>bq_jsonrpc = ''2.0'', bq_method = ''eth_getBlockByNumber'', bq_params = JArr [JStr ''+12''], bq_id = JNum 4\<rparr>]
      ((), cache_new 2000) = (Inr resps, s') \<and> length resps = 1"
  using eth_replies_typed[of sample_helios js_api
      "[\<lparr>bq_jsonrpc = ''2.0'', bq_method = ''eth_getBlockByNumber'', bq_params = JArr [JStr ''+12''], bq_id = JNum 4\<rparr>]"
      "((), cache_new 2000)"]
  by (force simp: sample_helios_def dest: list_all2_lengthD)

text \<open>
  a reply of the Solana endpoint carries the request's id and either an error or a result, also
  when it comes from the cache; if the dispatcher never answers there is no reply.
\<close>

lemma sol_replies_typed:
  assumes "handle_sol_request J L V req s = (Some (Inr resp), s')"
  shows "sol_reply_ok req resp"
proof -
  have answer: "sol_answer to_value (bq_id req) r = Some (Inr resp) \<Longrightarrow> sol_reply_ok req resp"
    for to_value and r :: "(sol_error, 'z) res option"
    by (cases r) (auto simp: sol_answer_def sol_reply_ok_create split: sum.splits fault.splits)
  have tx: "handle_get_transaction J L V params (bq_id req) s = (Some (Inr resp), s') \<Longrightarrow> sol_reply_ok req resp" for params
    by (auto simp: handle_get_transaction_def Let_def sol_reply_ok_create dest: answer
        split: prod.splits sum.splits option.splits)
  have rest: "handle_get_slot L V params (bq_id req) c = (Some (Inr resp), c') \<Longrightarrow> sol_reply_ok req resp"
    "handle_get_account J L V params (bq_id req) c = (Some (Inr resp), c') \<Longrightarrow> sol_reply_ok req resp"
    "handle_get_signatures_for_address J L V params (bq_id req) c = (Some (Inr resp), c') \<Longrightarrow> sol_reply_ok req resp"
    "handle_get_program_accounts J L V params (bq_id req) c = (Some (Inr resp), c') \<Longrightarrow> sol_reply_ok req resp"
    for params c c'
    by (auto simp: handle_get_slot_def handle_get_account_def handle_get_signatures_for_address_def
        handle_get_program_accounts_def sol_reply_ok_create dest: answer split: prod.splits sum.splits)
  show ?thesis
    using assms tx rest
    by (auto simp: handle_sol_request_def on_sol_def sol_reply_ok_create
        split: option.splits sum.splits sol_method.splits prod.splits)
qed

lemma sol_replies_typed_witness:
  "sol_reply_ok \<lparr>bq_jsonrpc = ''2.0'', bq_method = ''getBlock'', bq_params = JArr [], bq_id = JNum 4\<rparr>
     (create_sol_response (Some (Unsupported_Method ''getBlock'')) (JNum 4) None)"
  by (rule sol_replies_typed[where J = js_api and L = sample_sol_values and V = "sample_env []"
        and s = "(sample_sol_client, cache_new 2000)" and s' = "(sample_sol_client, cache_new 2000)"])
    (simp add: handle_sol_request_def sol_method_from_def)

subsection \<open>The shared cache\<close>

text \<open>
  C34: receipts are not kept apart by chain: what an Ethereum light client answered for a transaction hash
  is from then on the answer of the Optimism endpoint for that hash, without asking its client.
\<close>

theorem receipt_crosses_chains:
  assumes "cache_ok cache" "hl_hash_from_hex H' = hl_hash_from_hex H"
    "handle_get_transaction_receipt J H [param] i (e, cache) = (Inr resp, e', cache')" "er_result resp = Some v"
  shows "handle_get_transaction_receipt_op J H' [param] i' (c, cache') =
    (Inr (create_eth_response None i' (Some v)), (c, cache'))"
proof -
  obtain hex txhash where h: "jas_str J param = Some hex" "hl_hash_from_hex H hex = Inr txhash"
    using assms(3,4)
    by (auto simp: handle_get_transaction_receipt_def create_eth_response_def split: option.splits sum.splits)
  have "cache_get cache' txhash = Some v"
  proof (cases "cache_get cache txhash")
    case (Some w)
    with assms(3,4) h show ?thesis
      by (auto simp: handle_get_transaction_receipt_def create_eth_response_def)
  next
    case None
    with assms(3,4) h sc.get_put[OF assms(1)] show ?thesis
      by (auto simp: handle_get_transaction_receipt_def create_eth_response_def
          split: prod.splits sum.splits option.splits)
  qed
  with h assms(2) show ?thesis
    by (simp add: handle_get_transaction_receipt_op_def handle_get_transaction_receipt_def)
qed

theorem receipt_crosses_chains_witness:
  "handle_get_transaction_receipt_op js_api
     (sample_helios\<lparr>hl_get_transaction_receipt := (\<lambda>e t. (Inl ''not found'', e))\<rparr>) [JStr ''a''] (JNum 2)
     ((), cache_insert (cache_new 2000) (1 # replicate 31 0) (JObj [])) =
   (Inr (create_eth_response None (JNum 2) (Some (JObj []))), (),
     cache_insert (cache_new 2000) (1 # replicate 31 0) (JObj []))"
  by (rule receipt_crosses_chains[where H = sample_helios and i = JNull and e = "()" and e' = "()"
        and cache = "cache_new 2000"
        and resp = "create_eth_response None JNull (Some (JObj []))"])
    (simp_all add: cache_ok_new sample_helios_def handle_get_transaction_receipt_def sample_parse_def
      eth_value_def create_eth_response_def)

subsection \<open>Verified transactions\<close>

text \<open>
  C33: what a positive reply of \<open>/verify_tx\<close> means, exactly. When the P2P client returns the headers of the
  chain (the set \<open>S\<close>) for their hashes and the cached headers are among them and decode, a request for the
  transaction \<open>t\<close> is answered with \<open>no error\<close> if and only if the full node answers the request for the proof of
  \<open>t\<close> with a Merkle block whose header has the hash of a header of the chain and whose tree evaluates to
  the root of this header. The transactions (\<open>matches\<close>) that the tree proves to be in the block are arbitrary: the id asked for
  need not be one of them, so that a full node passes with the proof of any other transaction, or of none.
\<close>

theorem verify_tx_accepts:
  assumes "p2p_ok N Q S" "header_json_ok J N" "nk_conv_ok B N" "p2p_serves B N Q S"
    "header_cache N S (response_cache st)" "headers_decode N (response_cache st)"
    "chain_handle chain st = Some p" "Q p" "\<forall>h. length (block_hash_of B h) = 32"
    "chain_daemon chain st = Some d" "txid_from_str M txid = Inr t"
  shows "(\<exists>st'. verify_transaction J B M N send (\<lambda>reply. reply) txid chain st =
      (Inr (response_new False (Verified_Txid t)), st')) \<longleftrightarrow>
    (\<exists>mb d'. gettxoutproof J B send (merkle_proof_param_new [t] None chain) d = (Inr mb, d') \<and>
       (\<exists>h \<in> S. \<exists>matches indexes. block_hash_of B h = block_hash_of B (mb_header mb) \<and>
          extract_matches M (mb_txn mb) = Inr (merkle_root h, matches, indexes)))"
proof -
  let ?p = "merkle_proof_param_new [t] None chain"
  have yes: "(\<exists>st'. verify_transaction J B M N send (\<lambda>reply. reply) txid chain st =
      (Inr (response_new False (Verified_Txid t)), st')) \<longleftrightarrow>
      (\<exists>out st'. fetch_proof_and_verify J B M N send ?p st = (Inr out, st'))"
    unfolding response_new_def verify_transaction_reply by (auto simp: assms(11))
  have fetch: "(\<exists>out st'. fetch_proof_and_verify J B M N send ?p st = (Inr out, st')) \<longleftrightarrow>
      (\<exists>mb d'. gettxoutproof J B send ?p d = (Inr mb, d') \<and>
         (\<exists>out st'. verify_txid B M N mb ?p (set_chain_daemon chain d' st) = (Inr out, st')))"
    by (auto simp: fetch_proof_and_verify_def merkle_proof_param_new_def assms(10) map_err_act_def map_err_Inr_iff
        split: sum.splits prod.splits)
  have "(\<exists>out st'. verify_txid B M N mb ?p (set_chain_daemon chain d' st) = (Inr out, st')) \<longleftrightarrow>
      (\<exists>h \<in> S. \<exists>matches indexes. block_hash_of B h = block_hash_of B (mb_header mb) \<and>
         extract_matches M (mb_txn mb) = Inr (merkle_root h, matches, indexes))" for mb d'
    by (rule verify_txid_accepts[OF assms(1-4) _ _ _ assms(8,9)])
      (use assms(5-7) in \<open>auto simp: merkle_proof_param_new_def\<close>)
  then show ?thesis unfolding yes fetch by blast
qed

text \<open>The sample node is told that \<open>a\<close> is verified on a Merkle block that proves no transaction at all.\<close>

theorem verify_tx_accepts_witness:
  "\<exists>st'. verify_transaction js_api sample_btc sample_merkle sample_nk sample_proof_send (\<lambda>reply. reply) ''a'' BitCoin
      sample_state = (Inr (response_new False (Verified_Txid (1 # replicate 31 0))), st') \<and>
    extract_matches sample_merkle [] = Inr (null_hash, [], [])"
proof -
  have serves: "p2p_serves sample_btc sample_nk (\<lambda>_. True) (set sample_headers)"
    by (auto simp: p2p_serves_def sample_nk_def sample_to_value_def)
      (auto simp: sample_headers_def sample_header_def sample_hash_def)
  have st: "chain_handle BitCoin sample_state = Some ()" "chain_daemon BitCoin sample_state = Some (sample_client Bitcoin)"
    "header_cache sample_nk (set sample_headers) (response_cache sample_state)"
    "headers_decode sample_nk (response_cache sample_state)"
    by (simp_all add: sample_state_def chain_handle_def chain_daemon_def sample_header_cache headers_decode_def)
  have m: "txid_from_str sample_merkle ''a'' = Inr (1 # replicate 31 0)" "extract_matches sample_merkle [] = Inr (null_hash, [], [])"
    by (simp_all add: sample_merkle_def sample_parse_def)
  have root: "merkle_root (sample_headers ! Suc 0) = null_hash" "sample_headers ! Suc 0 \<in> set sample_headers"
    by (simp_all add: sample_headers_def sample_header_def)
  have len: "\<forall>h. length (block_hash_of sample_btc h) = 32" by (simp add: sample_hash_def)
  show ?thesis
    using verify_tx_accepts[OF sample_p2p_ok sample_json_ok sample_conv_ok serves st(3,4,1) _ len st(2) m(1),
        where send = sample_proof_send] sample_gettxoutproof[of "1 # replicate 31 0" "sample_client Bitcoin"] m(2) root
    by (force simp: merkle_proof_param_new_def)
qed

subsection \<open>The header store\<close>

text \<open>
  C32: the server works on the header store as it was opened: no request changes it, so the tip that
  \<open>/ping\<close> would report is the one the database had at the start.
\<close>

theorem served_store:
  assumes "concurrent LB K C X cf app ts"
  shows "store_open K C (block_hash_of (lb_bitcoin LB)) (raw_store X) =
    (Inr (cs_store (chain_state app)) :: (unit, 'db store) res)"
proof -
  have start: "store_open K C (block_hash_of (lb_bitcoin LB)) (raw_store X) = (Inr (cs_store cs) :: (unit, 'db store) res)"
    if "node_main LB K C url_order single_rpc X cf = Inr cs" for url_order single_rpc cs
    using that by (auto simp: node_main_def initialize_chains_state_def res_simps split: sum.splits prod.splits)
  let ?P = "\<lambda>st. store_open K C (block_hash_of (lb_bitcoin LB)) (raw_store X) = (Inr st :: (unit, 'db store) res)"
  show ?thesis
    by (rule concurrent_keeps[OF assms gs.shared_inv_axioms[where P = ?P], THEN conjunct1])
      (erule start, rule gs.safe_middle_ware[where P = ?P])
qed

theorem served_store_witness:
  "\<exists>app. concurrent sample_libs sample_kv sample_codec sample_starters sample_config app [] \<and>
     (store_open sample_kv sample_codec sample_hash sample_genesis_db :: (unit, sample_db store) res) =
       Inr (cs_store (chain_state app))"
proof -
  obtain st where st: "concurrent sample_libs sample_kv sample_codec sample_starters sample_config (sample_app st) []"
    by (rule sample_concurrent)
  with served_store[OF st] show ?thesis by (force simp: sample_libs_def sample_starters_def)
qed

end
