(* ===== verification/Client_Start.thy ===== *)
theory Client_Start
  imports Node_Main
begin

text \<open>
  \<open>chains/\<close>: the start of the clients. The P2P clients of the nakamoto library run on threads of their own;
  what the program keeps is a handle, and a watchdog thread that ends the process when the handle
  fails. The light clients of the helios library are built on a runtime of their own, whose task
  hands the client back or dies. The libraries are the arguments \<open>NS\<close>, \<open>ES\<close> and \<open>OS\<close>.
\<close>

subsection \<open>P2P clients\<close>

record 'net p2p_config =
  pc_network :: 'net
  pc_root :: string
  pc_seal :: "bytes option"
  pc_connect :: "string list"

text \<open>
  \<open>np_new\<close> is \<open>Client::new\<close>, \<open>np_run\<close> the handle once the client runs with a configuration;
  \<open>np_parse\<close> is the parser of peer addresses.
\<close>

record ('net, 'cl, 'p) nakamoto_start =
  np_network :: "string \<Rightarrow> 'net option"
  np_new :: "string + 'cl"
  np_run :: "'cl \<Rightarrow> 'net p2p_config \<Rightarrow> 'p"
  np_regtest_port :: string
  np_parse :: "string \<Rightarrow> string option"

definition run_p2p_btc_client ::
    "('net, 'cl, 'p) nakamoto_start \<Rightarrow> string \<Rightarrow> string \<Rightarrow> bytes option \<Rightarrow> (string, 'p) res" where
  "run_p2p_btc_client NS network_name database_path sealkey =
     bind_res (unwrap_res ''Failed to parse network type'' (np_network NS network_name)) (\<lambda>network.
       (let config = \<lparr>pc_network = network, pc_root = database_path @ ''/nak-btc'', pc_seal = sealkey, pc_connect = []\<rparr>
        in case np_new NS of
             Inl e \<Rightarrow> Inl (Err e)
           | Inr client \<Rightarrow> Inr (np_run NS client config)))"

text \<open>On the regression test network the peers are those of the configuration, or the local host.\<close>

definition doge_connect ::
    "('net, 'cl, 'p) nakamoto_start \<Rightarrow> network \<Rightarrow> string list \<Rightarrow> (string, string list) res" where
  "doge_connect NS network regtest_peer =
     (if network = DogecoinRegtest then
        if regtest_peer \<noteq> [] then Inr regtest_peer
        else bind_res (unwrap_res ''run_p2p_doge_client: peer'' (np_parse NS (''127.0.0.1:'' @ np_regtest_port NS)))
               (\<lambda>peer. Inr [peer])
      else Inr [])"

definition run_p2p_doge_client ::
    "('net, 'cl, 'p) nakamoto_start \<Rightarrow> node_config \<Rightarrow> bytes option \<Rightarrow> (string, 'p) res" where
  "run_p2p_doge_client NS config sealkey =
     bind_res (unwrap_res ''run_p2p_doge_client: network'' (np_network NS (network_to_string (cf_doge_network_type config))))
       (\<lambda>network.
     bind_res (doge_connect NS (cf_doge_network_type config) (cf_regtest_peer config)) (\<lambda>connect.
       (let client_config = \<lparr>pc_network = network, pc_root = cf_store config @ ''/nak-doge'', pc_seal = sealkey,
              pc_connect = connect\<rparr>
        in case np_new NS of
             Inl e \<Rightarrow> Inl (Err e)
           | Inr client \<Rightarrow> Inr (np_run NS client client_config))))"

text \<open>
  The watchdog: after five minutes it asks for the tip every 40 seconds, until that fails; then it ends
  the process with exit code 0. None says that it never does.
\<close>

partial_function (option) restart :: "('p, 'v) nakamoto_api \<Rightarrow> 'p \<Rightarrow> (nat \<times> 'p) option" where
  "restart N p =
     (case nk_get_tip N p of
        (Inl _, p) \<Rightarrow> Some (0, p)
      | (Inr _, p) \<Rightarrow> restart N p)"

text \<open>The module of the Dogecoin client has a loop of its own, with the same steps.\<close>

partial_function (option) doge_restart :: "('p, 'v) nakamoto_api \<Rightarrow> 'p \<Rightarrow> (nat \<times> 'p) option" where
  "doge_restart N p =
     (case nk_get_tip N p of
        (Inl _, p) \<Rightarrow> Some (0, p)
      | (Inr _, p) \<Rightarrow> doge_restart N p)"

subsection \<open>Light clients\<close>

record eth_config =
  ec_consensus_rpc :: string
  ec_execution_rpc :: string
  ec_network :: string
  ec_subclient_url :: string
  ec_sgx_enable :: bool

text \<open>
  \<open>es_registered\<close> is the checkpoint that the registration service holds, \<open>es_fallback\<close> the list of
  public checkpoint services and \<open>es_latest\<close> their latest checkpoint; None is a failure.
\<close>

record ('net, 'ck, 'e) helios_start =
  es_network :: "string \<Rightarrow> 'net option"
  es_registered :: "string \<Rightarrow> bytes option"
  es_from_slice :: "bytes \<Rightarrow> 'ck option"
  es_fallback :: "unit option"
  es_latest :: "'net \<Rightarrow> 'ck option"
  es_build :: "'net \<Rightarrow> string \<Rightarrow> string \<Rightarrow> string \<Rightarrow> 'ck \<Rightarrow> string + 'e"
  es_start :: "'e \<Rightarrow> string + 'e"
  es_wait_synced :: "'e \<Rightarrow> 'e"

datatype light_client_error = Client_New string | Client_Start string

definition eth_checkpoint ::
    "('net, 'ck, 'e) helios_start \<Rightarrow> eth_config \<Rightarrow> 'net \<Rightarrow> (light_client_error, 'ck) res" where
  "eth_checkpoint ES cf network =
     (if ec_sgx_enable cf then
        bind_res (unwrap_res ''start_helios: fetch_eth_checkpoint'' (es_registered ES (ec_subclient_url cf)))
          (\<lambda>bs. unwrap_res ''start_helios: from_slice'' (es_from_slice ES bs))
      else
        bind_res (unwrap_res ''start_helios: checkpoints'' (es_fallback ES))
          (\<lambda>_. unwrap_res ''start_helios: latest checkpoint'' (es_latest ES network)))"

definition start_helios ::
    "('net, 'ck, 'e) helios_start \<Rightarrow> eth_config \<Rightarrow> (light_client_error, 'e) res" where
  "start_helios ES cf =
     bind_res (unwrap_res ''start_helios: network'' (es_network ES (ec_network cf))) (\<lambda>network.
     bind_res (eth_checkpoint ES cf network) (\<lambda>checkpoint.
       case es_build ES network (ec_consensus_rpc cf) (ec_execution_rpc cf) ''./db/data'' checkpoint of
         Inl e \<Rightarrow> Inl (Err (Client_New e))
       | Inr client \<Rightarrow>
           (case es_start ES client of
              Inl e \<Rightarrow> Inl (Err (Client_Start e))
            | Inr client \<Rightarrow> Inr (es_wait_synced ES client))))"

text \<open>The task unwraps the result; if it dies, the channel closes and the receiver panics.\<close>

definition run_eth_light_client :: "('net, 'ck, 'e) helios_start \<Rightarrow> node_config \<Rightarrow> (unit, 'e) res" where
  "run_eth_light_client ES config =
     (let eth_config = \<lparr>ec_consensus_rpc = cf_consensus_rpc config, ec_execution_rpc = cf_execution_rpc config,
            ec_network = cf_eth_network config, ec_subclient_url = cf_subclient_url config,
            ec_sgx_enable = cf_sgx_enable config\<rparr>
      in case start_helios ES eth_config of
           Inl _ \<Rightarrow> Inl (Panic ''run_eth_light_client: recv'')
         | Inr client \<Rightarrow> Inr client)"

record op_config =
  oc_consensus_rpc :: string
  oc_execution_rpc :: string
  oc_network :: string

record ('net, 'o) opstack_start =
  os_network :: "string \<Rightarrow> 'net option"
  os_build :: "'net \<Rightarrow> string \<Rightarrow> string \<Rightarrow> string + 'o"

definition start_helios_op :: "('net, 'o) opstack_start \<Rightarrow> op_config \<Rightarrow> (light_client_error, 'o) res" where
  "start_helios_op OS cf =
     bind_res (unwrap_res ''start_helios: network'' (os_network OS (oc_network cf))) (\<lambda>network.
       case os_build OS network (oc_consensus_rpc cf) (oc_execution_rpc cf) of
         Inl e \<Rightarrow> Inl (Err (Client_New e))
       | Inr client \<Rightarrow> Inr client)"

definition run_op_light_client :: "('net, 'o) opstack_start \<Rightarrow> node_config \<Rightarrow> (unit, 'o) res" where
  "run_op_light_client OS config =
     (let op_config = \<lparr>oc_consensus_rpc = cf_op_consensus_rpc config, oc_execution_rpc = cf_op_execution_rpc config,
            oc_network = cf_op_network config\<rparr>
      in case start_helios_op OS op_config of
           Inl _ \<Rightarrow> Inl (Panic ''run_op_light_client: recv'')
         | Inr client \<Rightarrow> Inr client)"

subsection \<open>The starters of the node\<close>

text \<open>What \<open>main.rs\<close> calls: an error of a P2P client is a panic there too.\<close>

definition expect :: "string \<Rightarrow> ('e, 'a) res \<Rightarrow> (unit, 'a) res" where
  "expect site r = (case r of Inr a \<Rightarrow> Inr a | Inl (Panic s) \<Rightarrow> Inl (Panic s) | Inl (Err _) \<Rightarrow> Inl (Panic site))"

definition node_starters ::
    "('net, 'cl, 'p) nakamoto_start \<Rightarrow> ('enet, 'ck, 'e) helios_start \<Rightarrow> ('onet, 'o) opstack_start
      \<Rightarrow> (network \<Rightarrow> string \<Rightarrow> string \<Rightarrow> 'w) \<Rightarrow> 'db \<Rightarrow> bytes \<Rightarrow> node_config \<Rightarrow> ('w, 'db, 'p, 'e, 'o) starters" where
  "node_starters NS ES OS connect_node db sealkey config =
     \<lparr>start_eth = run_eth_light_client ES config, start_op = run_op_light_client OS config,
      start_btc = (\<lambda>network. expect ''Failed to initialize Bitcoin P2P client''
        (run_p2p_btc_client NS (network_to_string network) (cf_store config) (Some sealkey))),
      start_doge = (\<lambda>_. expect ''Failed to initialize Dogecoin P2P client''
        (run_p2p_doge_client NS config (Some sealkey))),
      connect = connect_node, raw_store = db\<rparr>"

subsection \<open>Lemmas\<close>

text \<open>The client after a number of questions.\<close>

fun tip_state :: "('p, 'v) nakamoto_api \<Rightarrow> nat \<Rightarrow> 'p \<Rightarrow> 'p" where
  "tip_state N 0 p = p"
| "tip_state N (Suc n) p = tip_state N n (snd (nk_get_tip N p))"

text \<open>
  the watchdog ends the process exactly if the P2P client fails to tell its tip at some question; as
  long as it answers, the watchdog keeps asking.
\<close>

lemma restart_ends_iff:
  "restart N p \<noteq> None \<longleftrightarrow> (\<exists>n e. fst (nk_get_tip N (tip_state N n p)) = Inl e)"
proof
  have "restart N p = Some r \<Longrightarrow> \<exists>n e. fst (nk_get_tip N (tip_state N n p)) = Inl e" for r
  proof (induction rule: restart.raw_induct[rotated, consumes 1, case_names turn])
    case (turn again N p r)
    show ?case
    proof (cases "nk_get_tip N p")
      case (Pair x p')
      show ?thesis
      proof (cases x)
        case (Inl e)
        with Pair have "fst (nk_get_tip N (tip_state N 0 p)) = Inl e" by simp
        then show ?thesis by blast
      next
        case (Inr y)
        with turn(2) Pair have "again N p' = Some r" by simp
        from turn(1)[OF this] obtain n e where "fst (nk_get_tip N (tip_state N n p')) = Inl e" by blast
        with Pair have "fst (nk_get_tip N (tip_state N (Suc n) p)) = Inl e" by simp
        then show ?thesis by blast
      qed
    qed
  qed
  then show "restart N p \<noteq> None \<Longrightarrow> \<exists>n e. fst (nk_get_tip N (tip_state N n p)) = Inl e" by blast
next
  assume "\<exists>n e. fst (nk_get_tip N (tip_state N n p)) = Inl e"
  then obtain n e where "fst (nk_get_tip N (tip_state N n p)) = Inl e" by blast
  then show "restart N p \<noteq> None"
  proof (induction n arbitrary: p)
    case 0
    then show ?case by (cases "nk_get_tip N p") (simp add: restart.simps)
  next
    case (Suc n)
    obtain x p' where "nk_get_tip N p = (x, p')" by fastforce
    with Suc show ?case by (cases x) (simp_all add: restart.simps[of N p])
  qed
qed

text \<open>A node on the Dogecoin regression network always has a peer to connect to.\<close>

lemma doge_connect_peer:
  "doge_connect NS DogecoinRegtest peers = Inr peers' \<Longrightarrow> peers' \<noteq> []"
  by (auto simp: doge_connect_def res_simps split: if_splits)

end
