(* ===== verification/Http_Client.thy ===== *)
theory Http_Client
  imports Daemon_Facts
begin

text \<open>
  \<open>utils.rs\<close> and \<open>daemon.rs\<close>: one POST or GET through the HTTP library, the argument \<open>H\<close>, and the transport of the
  full node's client made of it. The errors of the library are printed into the message. A malformed
  address is a panic, as in the source.
\<close>

subsection \<open>Requests\<close>

text \<open>
  \<open>ha_post\<close> sends a body with headers, \<open>ha_get\<close> none; \<open>ha_text\<close> reads the body of a response. \<open>ha_debug\<close> and
  \<open>ha_display\<close> are the two printed forms of an error. The world \<open>'n\<close> is the network.
\<close>

record ('n, 'url, 'resp, 'err, 'v) http_api =
  ha_url :: "string \<Rightarrow> 'url option"
  ha_post :: "'url \<Rightarrow> (string \<times> string) list \<Rightarrow> string \<Rightarrow> 'n \<Rightarrow> ('err + 'resp) \<times> 'n"
  ha_get :: "'url \<Rightarrow> (string \<times> string) list \<Rightarrow> 'n \<Rightarrow> ('err + 'resp) \<times> 'n"
  ha_text :: "'resp \<Rightarrow> 'n \<Rightarrow> ('err + string) \<times> 'n"
  ha_debug :: "'err \<Rightarrow> string"
  ha_display :: "'err \<Rightarrow> string"
  ha_json_text :: "'v \<Rightarrow> string"
  ha_json_parse :: "string \<Rightarrow> string + 'v"
  ha_base64 :: "string \<Rightarrow> string"

definition http_call :: "string \<Rightarrow> ('err \<Rightarrow> string) \<Rightarrow> ('n \<Rightarrow> ('err + 'a) \<times> 'n) \<Rightarrow> ('n, string, 'a) act" where
  "http_call msg printed m w =
     (case m w of (Inl e, w) \<Rightarrow> (Inl (Err (msg @ printed e)), w) | (Inr x, w) \<Rightarrow> (Inr x, w))"

definition json_response :: "('n, 'url, 'resp, 'err, 'v) http_api \<Rightarrow> string \<Rightarrow> (string, 'v) res" where
  "json_response H response =
     (case ha_json_parse H response of Inl e \<Rightarrow> Inl (Err (''json error '' @ e)) | Inr v \<Rightarrow> Inr v)"

definition http_request ::
    "('n, 'url, 'resp, 'err, 'v) http_api \<Rightarrow> string \<Rightarrow> string \<Rightarrow> 'v \<Rightarrow> ('n, string, 'v) act" where
  "http_request H addr auth req =
     bind_act (ret_act (unwrap_res ''request: url'' (ha_url H addr))) (\<lambda>url.
     bind_act (http_call ''failed to get response '' (ha_debug H)
         (ha_post H url [(''Content-Type'', ''application/json''), (''authorization'', auth)] (ha_json_text H req)))
       (\<lambda>resp.
     bind_act (http_call ''failed to get payload '' (ha_debug H) (ha_text H resp)) (\<lambda>response.
       ret_act (json_response H response))))"

definition request_get :: "('n, 'url, 'resp, 'err, 'v) http_api \<Rightarrow> string \<Rightarrow> ('n, string, 'v) act" where
  "request_get H addr =
     bind_act (ret_act (unwrap_res ''request_get: url'' (ha_url H addr))) (\<lambda>url.
     bind_act (http_call ''failed to get response '' (ha_display H)
         (ha_get H url [(''Content-Type'', ''application/json'')])) (\<lambda>resp.
     bind_act (http_call ''failed to get payload '' (ha_display H) (ha_text H resp)) (\<lambda>response.
       ret_act (json_response H response))))"

subsection \<open>The transport of the full node's client\<close>

text \<open>The fields of a \<open>Daemon\<close> that its requests use, with the network.\<close>

record 'n node_link =
  daemon_rpc_addr :: string
  cookie :: string
  network_world :: 'n

definition send_req ::
    "('n, 'url, 'resp, 'err, 'v) http_api \<Rightarrow> 'v \<Rightarrow> ('n node_link, string, 'v) act" where
  "send_req H req link =
     (let url = ''http://'' @ daemon_rpc_addr link;
          auth = ''Basic '' @ ha_base64 H (cookie link);
          (r, w) = http_request H url auth req (network_world link)
      in (r, link\<lparr>network_world := w\<rparr>))"

text \<open>A \<open>transport\<close> has no panic; the one of a malformed address does not occur (\<open>send_req_no_panic\<close>).\<close>

definition http_transport ::
    "('n, 'url, 'resp, 'err, 'v) http_api \<Rightarrow> ('n node_link, 'v) transport" where
  "http_transport H link req =
     (case send_req H req link of
        (Inr v, link) \<Rightarrow> (Inr v, link)
      | (Inl (Err e), link) \<Rightarrow> (Inl e, link)
      | (Inl (Panic site), link) \<Rightarrow> (Inl site, link))"

subsection \<open>What is sent and what comes back\<close>

lemma http_call_Inr [res_simps]: "http_call msg printed m w = (Inr x, w') \<longleftrightarrow> m w = (Inr x, w')"
  by (auto simp: http_call_def split: prod.splits sum.splits)

lemma http_call_no_panic: "http_call msg printed m w \<noteq> (Inl (Panic site), w')"
  by (auto simp: http_call_def split: prod.splits sum.splits)

lemma json_response_Inr [res_simps]: "json_response H t = Inr v \<longleftrightarrow> ha_json_parse H t = Inr v"
  by (auto simp: json_response_def split: sum.splits)

lemma http_request_Inr:
  "http_request H addr auth req w = (Inr v, w') \<longleftrightarrow>
     (\<exists>url resp w1 text. ha_url H addr = Some url \<and>
        ha_post H url [(''Content-Type'', ''application/json''), (''authorization'', auth)] (ha_json_text H req) w =
          (Inr resp, w1) \<and>
        ha_text H resp w1 = (Inr text, w') \<and> ha_json_parse H text = Inr v)"
  unfolding http_request_def by (auto simp: res_simps)

lemma request_get_Inr:
  "request_get H addr w = (Inr v, w') \<longleftrightarrow>
     (\<exists>url resp w1 text. ha_url H addr = Some url \<and>
        ha_get H url [(''Content-Type'', ''application/json'')] w = (Inr resp, w1) \<and>
        ha_text H resp w1 = (Inr text, w') \<and> ha_json_parse H text = Inr v)"
  unfolding request_get_def by (auto simp: res_simps)

lemma http_request_panics:
  "(\<exists>site. fst (http_request H addr auth req w) = Inl (Panic site)) \<longleftrightarrow> ha_url H addr = None"
  by (cases "ha_url H addr")
    (auto simp: http_request_def bind_act_def http_call_def json_response_def split: prod.splits sum.splits)

text \<open>Documented: the text \<open>http://\<close> with a socket address is a URL.\<close>

lemma send_req_no_panic:
  assumes "ha_url H (''http://'' @ daemon_rpc_addr link) \<noteq> None"
  shows "send_req H req link \<noteq> (Inl (Panic site), link')"
proof
  assume "send_req H req link = (Inl (Panic site), link')"
  then have "fst (http_request H (''http://'' @ daemon_rpc_addr link) (''Basic '' @ ha_base64 H (cookie link)) req
      (network_world link)) = Inl (Panic site)"
    by (auto simp: send_req_def split: prod.splits)
  with http_request_panics assms show False by metis
qed

lemma http_transport_keeps:
  "http_transport H link req = (r, link') \<Longrightarrow>
   daemon_rpc_addr link' = daemon_rpc_addr link \<and> cookie link' = cookie link"
  by (auto simp: http_transport_def send_req_def split: prod.splits sum.splits fault.splits)

lemma http_transport_Inr:
  "http_transport H link req = (Inr v, link') \<longleftrightarrow>
     (\<exists>w. http_request H (''http://'' @ daemon_rpc_addr link) (''Basic '' @ ha_base64 H (cookie link)) req
        (network_world link) = (Inr v, w) \<and> link' = link\<lparr>network_world := w\<rparr>)"
  by (auto simp: http_transport_def send_req_def split: prod.splits sum.splits fault.splits)

text \<open>
  a query of the full node over HTTP succeeds exactly if the response to one POST of its JSON-RPC request, as a
  list of one, to the node's address with the cookie as basic authorisation, is the text of a list of one
  accepted reply; the value is that reply's result.
\<close>

lemma request_over_http:
  "request J (http_transport H) method params d = (Inr v, d') \<longleftrightarrow>
     (\<exists>url resp w1 w2 text replies reply.
        ha_url H (''http://'' @ daemon_rpc_addr (dm_node d)) = Some url \<and>
        ha_post H url [(''Content-Type'', ''application/json''),
            (''authorization'', ''Basic '' @ ha_base64 H (cookie (dm_node d)))]
          (ha_json_text H (jarr J [mk_request J method (dm_message_id d + 1) params])) (network_world (dm_node d)) =
          (Inr resp, w1) \<and>
        ha_text H resp w1 = (Inr text, w2) \<and> ha_json_parse H text = Inr replies \<and>
        jas_array J replies = Some [reply] \<and> reply_value J reply (dm_message_id d + 1) = Some v \<and>
        d' = d\<lparr>dm_message_id := dm_message_id d + 1, dm_node := (dm_node d)\<lparr>network_world := w2\<rparr>\<rparr>)"
  unfolding request_Inr http_transport_Inr http_request_Inr by blast

end
