(* ===== verification/Api_Check.thy ===== *)
theory Api_Check
  imports Indexer Http_Client
begin

text \<open>
  \<open>index.rs\<close>: the comparison of headers with those of public APIs. \<open>A\<close> holds the libraries: the decoder of an
  API description, the hexadecimal form of a header, the printed hash, the HTTP GET, which changes a
  world \<open>'w\<close>, and the text of a JSON value.
\<close>

record api =
  api_name :: string
  api_method :: string
  api_url :: string
  api_replace :: string
  api_data :: string
  api_returntype :: string
  api_returnvaluekey :: string

record ('w, 'v) check_api =
  ca_decode :: "bytes \<Rightarrow> string + api"
  ca_hex_header :: "block_header \<Rightarrow> string"
  ca_show_hash :: "block_hash \<Rightarrow> string"
  ca_get :: "string \<Rightarrow> ('w, string, 'v) act"
  ca_null :: 'v
  ca_text :: "'v \<Rightarrow> string"

datatype 'v check_error = Bad_Api string | Get_Failed string | Check_Failed string 'v

text \<open>\<open>str::replace\<close> of a non-empty pattern: the leftmost occurrences that do not overlap.\<close>

function str_replace :: "string \<Rightarrow> string \<Rightarrow> string \<Rightarrow> string" where
  "str_replace s pat to =
     (if s = [] \<or> pat = [] then s
      else if take (length pat) s = pat then to @ str_replace (drop (length pat) s) pat to
      else hd s # str_replace (tl s) pat to)"
  by pat_completeness auto
termination
  by (relation "measure (\<lambda>(s, _, _). length s)") auto

declare str_replace.simps [simp del]

definition api_value ::
    "('w, 'v) check_api \<Rightarrow> api \<Rightarrow> block_hash \<Rightarrow> ('w, 'v check_error, 'v) act" where
  "api_value A a hash w =
     (if api_data a \<noteq> ''none'' then (Inr (ca_null A), w)
      else map_err_act Get_Failed (ca_get A (str_replace (api_url a) ''{replace}'' (ca_show_hash A hash))) w)"

definition check_one ::
    "('w, 'v) check_api \<Rightarrow> header_entry \<Rightarrow> bytes \<Rightarrow> ('w, 'v check_error, unit) act" where
  "check_one A h api_vec =
     bind_act (ret_act (case ca_decode A api_vec of Inl e \<Rightarrow> Inl (Err (Bad_Api e)) | Inr a \<Rightarrow> Inr a)) (\<lambda>a.
     bind_act (api_value A a (he_hash h)) (\<lambda>value.
       (let header = ca_hex_header A (he_header h);
            api_header = (if api_returntype a = ''string'' then ca_text A value else [])
        in ret_act (if header \<noteq> api_header then Inl (Err (Check_Failed header value)) else Inr ()))))"

fun check_header ::
    "('w, 'v) check_api \<Rightarrow> header_entry \<Rightarrow> bytes list \<Rightarrow> ('w, 'v check_error, unit) act" where
  "check_header A h [] = ret_act (Inr ())"
| "check_header A h (a # apis) = bind_act (check_one A h a) (\<lambda>_. check_header A h apis)"

fun api_check ::
    "('w, 'v) check_api \<Rightarrow> header_entry list \<Rightarrow> bytes list \<Rightarrow> ('w, 'v check_error, unit) act" where
  "api_check A [] apis = ret_act (Inr ())"
| "api_check A (h # hs) apis = bind_act (check_header A h apis) (\<lambda>_. api_check A hs apis)"

subsection \<open>What a passed check says\<close>

lemma check_one_Inr:
  "check_one A h v w = (Inr (), w') \<longleftrightarrow>
     (\<exists>a got. ca_decode A v = Inr a \<and> api_value A a (he_hash h) w = (Inr got, w') \<and>
        ca_hex_header A (he_header h) = (if api_returntype a = ''string'' then ca_text A got else []))"
  unfolding check_one_def bind_act_Inr Let_def by (auto split: sum.splits if_splits)

text \<open>
  The text of a JSON string carries its quotes, so the check refuses a correct header: against APIs that
  answer with strings it only ever passes without a header or without an API.
\<close>

lemma api_check_refuses:
  assumes "api_check A hs apis w = (Inr (), w')" "hs \<noteq> []" "apis \<noteq> []"
    and "\<And>h. CHR ''\"'' \<notin> set (ca_hex_header A h) \<and> ca_hex_header A h \<notin> {[], ca_text A (ca_null A)}"
    and "\<And>w url v. fst (ca_get A url w) = Inr v \<Longrightarrow> CHR ''\"'' \<in> set (ca_text A v)"
  shows False
proof -
  obtain h hs' v apis' where l: "hs = h # hs'" "apis = v # apis'"
    using assms(2,3) by (cases hs; cases apis) auto
  then obtain w1 where "check_one A h v w = (Inr (), w1)"
    using assms(1) by (auto simp: res_simps)
  then obtain a got where a: "api_value A a (he_hash h) w = (Inr got, w1)"
    "ca_hex_header A (he_header h) = (if api_returntype a = ''string'' then ca_text A got else [])"
    unfolding check_one_Inr by blast
  let ?url = "str_replace (api_url a) ''{replace}'' (ca_show_hash A (he_hash h))"
  have "got = ca_null A \<or> fst (ca_get A ?url w) = Inr got"
    using a(1) unfolding api_value_def by (auto simp: map_err_act_Inr split: if_splits)
  then have "got = ca_null A \<or> CHR ''\"'' \<in> set (ca_text A got)"
    using assms(5) by blast
  with a(2) assms(4)[of "he_header h"] show False by (auto split: if_splits)
qed

end
