(* ===== verification/Auxpow.thy ===== *)
theory Auxpow
  imports Sample_Node
begin

text \<open>
  Dogecoin's Merkle blocks: between the header and the tree a merge-mined block carries a proof of the parent
  chain's work, which the decoder of \<open>daemon.rs\<close> skips. Encoders inverse to the library's decoders give the
  layout; the decoder reads every block laid out so, whatever follows it.
\<close>

subsection \<open>The layout\<close>

record ('tx, 'pmt) consensus_enc =
  en_header :: "block_header \<Rightarrow> bytes"
  en_tx :: "'tx \<Rightarrow> bytes"
  en_hash :: "block_hash \<Rightarrow> bytes"
  en_varint :: "u64 \<Rightarrow> bytes"
  en_i32 :: "u32 \<Rightarrow> bytes"
  en_pmt :: "'pmt \<Rightarrow> bytes"

text \<open>Decoding undoes encoding, for the headers of \<open>U\<close>, and leaves the bytes that follow.\<close>

definition consensus_ok ::
    "('tx, 'pmt) bitcoin_api \<Rightarrow> ('tx, 'pmt) consensus_enc \<Rightarrow> block_header set \<Rightarrow> bool" where
  "consensus_ok B E U \<longleftrightarrow>
     (\<forall>h \<in> U. \<forall>r. dec_header B (en_header E h @ r) = Inr (h, r)) \<and>
     (\<forall>t r. dec_tx B (en_tx E t @ r) = Inr (t, r)) \<and>
     (\<forall>b r. length b = 32 \<longrightarrow> dec_hash B (en_hash E b @ r) = Inr (b, r)) \<and>
     (\<forall>n r. dec_varint B (en_varint E n @ r) = Inr (n, r)) \<and>
     (\<forall>n r. dec_i32 B (en_i32 E n @ r) = Inr (n, r)) \<and>
     (\<forall>p r. dec_pmt B (en_pmt E p @ r) = Inr (p, r))"

record 'tx auxpow =
  ax_coinbase :: 'tx
  ax_blockhash :: block_hash
  ax_coinbase_branch :: "block_hash list"
  ax_coinbase_mask :: u32
  ax_chain_branch :: "block_hash list"
  ax_chain_mask :: u32
  ax_parent :: block_header

definition auxpow_ok :: "block_header set \<Rightarrow> 'tx auxpow \<Rightarrow> bool" where
  "auxpow_ok U a \<longleftrightarrow> length (ax_blockhash a) = 32 \<and> ax_parent a \<in> U \<and>
     (\<forall>b \<in> set (ax_coinbase_branch a) \<union> set (ax_chain_branch a). length b = 32) \<and>
     length (ax_coinbase_branch a) < 2 ^ 64 \<and> length (ax_chain_branch a) < 2 ^ 64"

definition en_branch :: "('tx, 'pmt) consensus_enc \<Rightarrow> block_hash list \<Rightarrow> u32 \<Rightarrow> bytes" where
  "en_branch E branch size_mask =
     en_varint E (of_nat (length branch)) @ concat (map (en_hash E) branch) @ en_i32 E size_mask"

definition en_auxpow :: "('tx, 'pmt) consensus_enc \<Rightarrow> 'tx auxpow \<Rightarrow> bytes" where
  "en_auxpow E a = en_tx E (ax_coinbase a) @ en_hash E (ax_blockhash a) @
     en_branch E (ax_coinbase_branch a) (ax_coinbase_mask a) @
     en_branch E (ax_chain_branch a) (ax_chain_mask a) @ en_header E (ax_parent a)"

text \<open>A block's bytes: with an auxiliary proof exactly if the version says so.\<close>

definition en_doge_block ::
    "('tx, 'pmt) consensus_enc \<Rightarrow> 'tx auxpow \<Rightarrow> 'pmt merkle_block \<Rightarrow> bytes" where
  "en_doge_block E a mb = en_header E (mb_header mb) @
     (if and (version (mb_header mb)) VERSION_FLAG_AUXPOW \<noteq> 0 then en_auxpow E a else []) @ en_pmt E (mb_txn mb)"

subsection \<open>Decoding\<close>

lemma cur_Inr: "dec r = Inr (x, r') \<Longrightarrow> cur dec r = (Inr x, r')"
  by (simp add: cur_def)

lemma skip_hashes_all:
  assumes "consensus_ok B E U" "\<forall>b \<in> set bs. length b = 32"
  shows "skip_hashes B (length bs) (concat (map (en_hash E) bs) @ r) =
    ((Inr (), r) :: ('v rpc_error, unit) res \<times> bytes)"
  using assms(2)
proof (induction bs)
  case (Cons b bs)
  have "dec_hash B (en_hash E b @ concat (map (en_hash E) bs) @ r) = Inr (b, concat (map (en_hash E) bs) @ r)"
    using assms(1) Cons.prems by (simp add: consensus_ok_def)
  with Cons show ?case by (simp add: bind_act_def cur_Inr)
qed simp

lemma skip_auxpow_all:
  assumes "consensus_ok B E U" "auxpow_ok U a"
  shows "skip_auxpow B (en_auxpow E a @ r) = ((Inr (), r) :: ('v rpc_error, unit) res \<times> bytes)"
proof -
  have n: "unat (of_nat (length (ax_coinbase_branch a)) :: u64) = length (ax_coinbase_branch a)"
    "unat (of_nat (length (ax_chain_branch a)) :: u64) = length (ax_chain_branch a)"
    using assms(2) by (simp_all add: auxpow_ok_def unat_of_nat)
  have d: "dec_tx B (en_tx E t @ s) = Inr (t, s)" "dec_varint B (en_varint E m @ s) = Inr (m, s)"
    "dec_i32 B (en_i32 E w @ s) = Inr (w, s)" "length b = 32 \<Longrightarrow> dec_hash B (en_hash E b @ s) = Inr (b, s)"
    "h \<in> U \<Longrightarrow> dec_header B (en_header E h @ s) = Inr (h, s)" for t m w b h s
    using assms(1) by (simp_all add: consensus_ok_def)
  have skip: "\<forall>b \<in> set bs. length b = 32 \<Longrightarrow> skip_hashes B (length bs) (concat (map (en_hash E) bs) @ s) =
      ((Inr (), s) :: ('v rpc_error, unit) res \<times> bytes)" for bs s
    using skip_hashes_all[OF assms(1)] by blast
  show ?thesis
    using assms(2)
    by (simp add: skip_auxpow_def en_auxpow_def en_branch_def auxpow_ok_def bind_act_def cur_def d n skip)
qed

text \<open>
  C21: a Dogecoin Merkle block is decoded to its header and tree, with or without an auxiliary proof of work and
  whatever the lengths of its two branches; bytes that follow the tree are ignored.
\<close>

theorem doge_merkleblock_decodes:
  assumes "consensus_ok B E U" "auxpow_ok U a" "mb_header mb \<in> U"
    and "jas_str J value = Some hex" "hex_decode B hex = Some (en_doge_block E a mb @ rest)"
  shows "doge_merkleblock_from_value J B value =
    (Inr \<lparr>mb_header = mb_header mb, mb_txn = mb_txn mb\<rparr> :: ('v rpc_error, 'pmt merkle_block) res)"
proof -
  let ?h = "mb_header mb"
  let ?aux = "if and (version ?h) VERSION_FLAG_AUXPOW \<noteq> 0 then en_auxpow E a else []"
  have "dec_header B (en_header E ?h @ ?aux @ en_pmt E (mb_txn mb) @ rest) =
      Inr (?h, ?aux @ en_pmt E (mb_txn mb) @ rest)"
    "dec_pmt B (en_pmt E (mb_txn mb) @ rest) = Inr (mb_txn mb, rest)"
    using assms(1,3) by (simp_all add: consensus_ok_def)
  with assms(4,5) show ?thesis
    by (simp add: skip_auxpow_all[OF assms(1,2)] doge_merkleblock_from_value_def en_doge_block_def bind_act_def cur_def)
qed

subsection \<open>A sample\<close>

text \<open>Numbers in unary, headers and hashes in fixed length; the sample header's version has the proof's flag.\<close>

definition unary :: "nat \<Rightarrow> bytes" where
  "unary n = replicate n 1 @ [0]"

definition dec_unary :: "(nat \<Rightarrow> 'a) \<Rightarrow> bytes \<Rightarrow> string + 'a \<times> bytes" where
  "dec_unary f bs =
     (let ones = takeWhile (\<lambda>b. b = 1) bs; r = drop (length ones) bs
      in if r = [] then Inl ''eof'' else Inr (f (length ones), tl r))"

lemma dec_unary: "dec_unary f (unary n @ r) = Inr (f n, r)"
proof -
  have "takeWhile (\<lambda>b. b = 1) (unary n @ r) = replicate n (1 :: u8)"
    by (induction n) (simp_all add: unary_def)
  then show ?thesis by (simp add: dec_unary_def unary_def)
qed

definition merged_header :: block_header where
  "merged_header = (sample_header 1 null_hash)\<lparr>version := 0x620104\<rparr>"

definition unary_btc :: "(unit, u64) bitcoin_api" where
  "unary_btc = \<lparr>
     block_hash_of = sample_hash, show_hash = sample_show, hash_from_str = sample_parse,
     hex_decode = (\<lambda>s. Some (map (\<lambda>c. if c = CHR ''1'' then 1 else 0) s)), de_header = (\<lambda>bs. None),
     de_merkleblock = (\<lambda>bs. None), dec_header = dec_unary (\<lambda>n. merged_header), dec_tx = dec_unary (\<lambda>n. ()),
     dec_hash = (\<lambda>bs. if length bs < 32 then Inl ''eof'' else Inr (take 32 bs, drop 32 bs)),
     dec_varint = dec_unary of_nat, dec_i32 = dec_unary of_nat, dec_pmt = dec_unary of_nat\<rparr>"

definition unary_enc :: "(unit, u64) consensus_enc" where
  "unary_enc = \<lparr>en_header = (\<lambda>h. unary 0), en_tx = (\<lambda>t. unary 0), en_hash = id, en_varint = unary \<circ> unat,
     en_i32 = unary \<circ> unat, en_pmt = unary \<circ> unat\<rparr>"

lemma unary_ok: "consensus_ok unary_btc unary_enc {merged_header}"
  by (auto simp: consensus_ok_def unary_btc_def unary_enc_def dec_unary)

definition sample_auxpow :: "unit auxpow" where
  "sample_auxpow = \<lparr>ax_coinbase = (), ax_blockhash = replicate 32 0,
     ax_coinbase_branch = [replicate 32 1, replicate 32 0], ax_coinbase_mask = 0, ax_chain_branch = [],
     ax_chain_mask = 0, ax_parent = merged_header\<rparr>"

theorem doge_merkleblock_decodes_witness:
  "doge_merkleblock_from_value js_api unary_btc
     (JStr (map (\<lambda>b. if b = 1 then CHR ''1'' else CHR ''0'')
       (en_doge_block unary_enc sample_auxpow \<lparr>mb_header = merged_header, mb_txn = 3\<rparr> @ [1]))) =
   (Inr \<lparr>mb_header = merged_header, mb_txn = 3\<rparr> :: (js rpc_error, u64 merkle_block) res)"
proof -
  let ?mb = "\<lparr>mb_header = merged_header, mb_txn = 3\<rparr> :: u64 merkle_block"
  let ?bs = "en_doge_block unary_enc sample_auxpow ?mb @ [1]"
  have "set ?bs \<subseteq> {0, 1}"
    by (auto simp: en_doge_block_def en_auxpow_def en_branch_def unary_enc_def unary_def sample_auxpow_def
        split: if_splits)
  then have "map ((\<lambda>c. if c = CHR ''1'' then 1 else 0) \<circ> (\<lambda>b. if b = 1 then CHR ''1'' else CHR ''0'')) ?bs = ?bs"
    by (intro map_idI) auto
  then have hex: "hex_decode unary_btc (map (\<lambda>b. if b = 1 then CHR ''1'' else CHR ''0'') ?bs) = Some ?bs"
    by (simp add: unary_btc_def)
  have aux: "auxpow_ok {merged_header} sample_auxpow"
    by (simp add: auxpow_ok_def sample_auxpow_def)
  have "mb_header ?mb \<in> {merged_header}" "jas_str js_api (JStr x) = Some x" for x by simp_all
  from doge_merkleblock_decodes[OF unary_ok aux this hex] show ?thesis by simp
qed

end
