(* ===== verification/Sol_Async.thy ===== *)
theory Sol_Async
  imports Sol_Query_Facts
begin

text \<open>
  \<open>chains/sol.rs\<close>, the dispatcher, its workers and their channels as they run: every part makes its
  next step when it is scheduled. The queue of tasks is bounded and read in order; a task is broadcast to
  workers that read the broadcasts at their own pace, skipping what the broadcast channel no longer
  keeps; each round has a channel of its own, so that a message for a round that is over is lost.

  The parts that depend on the kind of the task are the \<open>protocol\<close>: what is broadcast, what a worker does
  on its endpoint, which orders hash maps may have, and what the dispatcher makes of the events of a
  round so far (None: it goes on).
\<close>

subsection \<open>State\<close>

record ('t, 'i, 'w, 'm, 'h, 'r) protocol =
  pr_cast :: "'t \<Rightarrow> 'i"
  pr_work :: "'i \<Rightarrow> 'w \<Rightarrow> 'm \<times> 'w"
  pr_order :: "'h \<Rightarrow> bool"
  pr_deal :: "'h \<Rightarrow> nat \<Rightarrow> 't \<Rightarrow> (nat \<times> 'm) option list \<Rightarrow> (unit, 'r) res option"

text \<open>
  A worker: its endpoint, the next broadcast it reads, and the message it is about to send, with the
  number of the round whose channel it holds. Messages carry the number of their worker (the code: its URL).
\<close>

record ('w, 'm) sol_worker =
  wk_client :: 'w
  wk_next :: nat
  wk_sending :: "(nat \<times> 'm) option"

text \<open>
  The dispatcher waits for a task, collects the round of a query (with its task, the order of hash
  maps, the start of the round and what happened since), or has ended in a panic.
\<close>

datatype ('t, 'h, 'm) dispatcher =
    Waiting
  | Collecting nat 't 'h nat "(nat \<times> nat \<times> 'm) option list"
  | Stopped

text \<open>
  \<open>sy_asked\<close>, \<open>sy_log\<close> and \<open>sy_answers\<close> grow only: the tasks put into the queue, the broadcasts, and what was
  sent to the queries (None: their channel was dropped). A query is known by its place in \<open>sy_asked\<close>.
\<close>

record ('t, 'i, 'w, 'm, 'h, 'r) sol_system =
  sy_now :: nat
  sy_asked :: "'t list"
  sy_queue :: "(nat \<times> 't) list"
  sy_dispatcher :: "('t, 'h, 'm) dispatcher"
  sy_log :: "'i list"
  sy_channel :: "(nat \<times> 'm) list"
  sy_workers :: "('w, 'm) sol_worker list"
  sy_answers :: "(nat \<times> 'r option) list"

definition start_system :: "'w list \<Rightarrow> ('t, 'i, 'w, 'm, 'h, 'r) sol_system" where
  "start_system ws =
     \<lparr>sy_now = 0, sy_asked = [], sy_queue = [], sy_dispatcher = Waiting, sy_log = [], sy_channel = [],
      sy_workers = map (\<lambda>w. \<lparr>wk_client = w, wk_next = 0, wk_sending = None\<rparr>) ws, sy_answers = []\<rparr>"

subsection \<open>Steps\<close>

text \<open>The result None is a part that cannot go on now. Both channels of the client keep 1024 entries.\<close>

definition capacity :: nat where
  "capacity = 1024"

definition send_task ::
    "'t \<Rightarrow> ('t, 'i, 'w, 'm, 'h, 'r) sol_system \<Rightarrow> ('t, 'i, 'w, 'm, 'h, 'r) sol_system option" where
  "send_task t s =
     (if length (sy_queue s) < capacity then
        Some (s\<lparr>sy_asked := sy_asked s @ [t], sy_queue := sy_queue s @ [(length (sy_asked s), t)]\<rparr>)
      else None)"

text \<open>
  The dispatcher after an event of its round: it collects further, or responds and drops the channel; a
  panic ends it and drops the response channel as well.
\<close>

definition settle ::
    "('t, 'i, 'w, 'm, 'h, 'r) protocol \<Rightarrow> nat \<Rightarrow> 't \<Rightarrow> 'h \<Rightarrow> nat \<Rightarrow> (nat \<times> nat \<times> 'm) option list
      \<Rightarrow> ('t, 'i, 'w, 'm, 'h, 'r) sol_system \<Rightarrow> ('t, 'i, 'w, 'm, 'h, 'r) sol_system" where
  "settle P q t h start es s =
     (case pr_deal P h (length (sy_workers s)) t (map (map_option (\<lambda>(t, i, m). (t, m))) es) of
        None \<Rightarrow> s\<lparr>sy_dispatcher := Collecting q t h start es\<rparr>
      | Some (Inl _) \<Rightarrow>
          s\<lparr>sy_dispatcher := Stopped, sy_channel := [], sy_answers := sy_answers s @ [(q, None)]\<rparr>
      | Some (Inr r) \<Rightarrow>
          s\<lparr>sy_dispatcher := Waiting, sy_channel := [], sy_answers := sy_answers s @ [(q, Some r)]\<rparr>)"

definition take_task ::
    "('t, 'i, 'w, 'm, 'h, 'r) protocol \<Rightarrow> 'h \<Rightarrow> ('t, 'i, 'w, 'm, 'h, 'r) sol_system
      \<Rightarrow> ('t, 'i, 'w, 'm, 'h, 'r) sol_system option" where
  "take_task P h s =
     (case (sy_dispatcher s, sy_queue s) of
        (Waiting, (q, t) # rest) \<Rightarrow>
          Some (settle P q t h (sy_now s) []
            (s\<lparr>sy_queue := rest, sy_log := sy_log s @ [pr_cast P t], sy_channel := []\<rparr>))
      | _ \<Rightarrow> None)"

text \<open>A message received, or a second without one.\<close>

definition receive_message ::
    "('t, 'i, 'w, 'm, 'h, 'r) protocol \<Rightarrow> ('t, 'i, 'w, 'm, 'h, 'r) sol_system
      \<Rightarrow> ('t, 'i, 'w, 'm, 'h, 'r) sol_system option" where
  "receive_message P s =
     (case (sy_dispatcher s, sy_channel s) of
        (Collecting q t h start es, (i, m) # ms) \<Rightarrow>
          Some (settle P q t h start (es @ [Some (sy_now s - start, i, m)]) (s\<lparr>sy_channel := ms\<rparr>))
      | _ \<Rightarrow> None)"

definition wait_second ::
    "('t, 'i, 'w, 'm, 'h, 'r) protocol \<Rightarrow> ('t, 'i, 'w, 'm, 'h, 'r) sol_system
      \<Rightarrow> ('t, 'i, 'w, 'm, 'h, 'r) sol_system option" where
  "wait_second P s =
     (case (sy_dispatcher s, sy_channel s) of
        (Collecting q t h start es, []) \<Rightarrow> Some (settle P q t h start (es @ [None]) s)
      | _ \<Rightarrow> None)"

text \<open>
  A worker reads its next broadcast and does its part, or, if the broadcast is no longer kept, goes on with
  the oldest one that is.
\<close>

definition worker_step ::
    "('t, 'i, 'w, 'm, 'h, 'r) protocol \<Rightarrow> 'i list \<Rightarrow> ('w, 'm) sol_worker \<Rightarrow> ('w, 'm) sol_worker option" where
  "worker_step P log wk =
     (if wk_sending wk \<noteq> None \<or> length log \<le> wk_next wk then None
      else if capacity < length log - wk_next wk then Some (wk\<lparr>wk_next := length log - capacity\<rparr>)
      else
        (case pr_work P (log ! wk_next wk) (wk_client wk) of
           (m, w) \<Rightarrow> Some \<lparr>wk_client = w, wk_next = wk_next wk + 1, wk_sending = Some (wk_next wk, m)\<rparr>))"

definition worker_receive ::
    "('t, 'i, 'w, 'm, 'h, 'r) protocol \<Rightarrow> nat \<Rightarrow> ('t, 'i, 'w, 'm, 'h, 'r) sol_system
      \<Rightarrow> ('t, 'i, 'w, 'm, 'h, 'r) sol_system option" where
  "worker_receive P i s =
     (if i < length (sy_workers s) then
        map_option (\<lambda>wk. s\<lparr>sy_workers := (sy_workers s)[i := wk]\<rparr>)
          (worker_step P (sy_log s) (sy_workers s ! i))
      else None)"

text \<open>
  The round that the dispatcher collects is the last one broadcast. Its channel has room for one message
  per worker; a sender to a full channel waits, a sender to a dropped one loses the message.
\<close>

definition collecting :: "('t, 'h, 'm) dispatcher \<Rightarrow> bool" where
  "collecting d \<longleftrightarrow> (case d of Collecting q t h start es \<Rightarrow> True | _ \<Rightarrow> False)"

definition worker_send ::
    "nat \<Rightarrow> ('t, 'i, 'w, 'm, 'h, 'r) sol_system \<Rightarrow> ('t, 'i, 'w, 'm, 'h, 'r) sol_system option" where
  "worker_send i s =
     (if i < length (sy_workers s) then
        (let workers = (sy_workers s)[i := (sy_workers s ! i)\<lparr>wk_sending := None\<rparr>]
         in case wk_sending (sy_workers s ! i) of
              None \<Rightarrow> None
            | Some (k, m) \<Rightarrow>
                if collecting (sy_dispatcher s) \<and> length (sy_log s) = k + 1 then
                  (if length (sy_channel s) < length (sy_workers s)
                   then Some (s\<lparr>sy_workers := workers, sy_channel := sy_channel s @ [(i, m)]\<rparr>)
                   else None)
                else Some (s\<lparr>sy_workers := workers\<rparr>))
      else None)"

text \<open>What the dispatcher and the workers do on their own, and the running client: time passes, queries come in.\<close>

inductive proceeds ::
    "('t, 'i, 'w, 'm, 'h, 'r) protocol \<Rightarrow> ('t, 'i, 'w, 'm, 'h, 'r) sol_system
      \<Rightarrow> ('t, 'i, 'w, 'm, 'h, 'r) sol_system \<Rightarrow> bool"
  for P where
  proceed_take: "pr_order P h \<Longrightarrow> take_task P h s = Some s' \<Longrightarrow> proceeds P s s'"
| proceed_receive: "receive_message P s = Some s' \<Longrightarrow> proceeds P s s'"
| proceed_wait: "wait_second P s = Some s' \<Longrightarrow> proceeds P s s'"
| proceed_worker: "worker_receive P i s = Some s' \<Longrightarrow> proceeds P s s'"
| proceed_send: "worker_send i s = Some s' \<Longrightarrow> proceeds P s s'"

inductive running ::
    "('t, 'i, 'w, 'm, 'h, 'r) protocol \<Rightarrow> 'w list \<Rightarrow> ('t, 'i, 'w, 'm, 'h, 'r) sol_system \<Rightarrow> bool"
  for P ws where
  run_start: "running P ws (start_system ws)"
| run_tick: "running P ws s \<Longrightarrow> running P ws (s\<lparr>sy_now := sy_now s + 1\<rparr>)"
| run_ask: "running P ws s \<Longrightarrow> send_task t s = Some s' \<Longrightarrow> running P ws s'"
| run_proceed: "running P ws s \<Longrightarrow> proceeds P s s' \<Longrightarrow> running P ws s'"

end
