(* ===== verification/Sol_Async_Facts.thy ===== *)
theory Sol_Async_Facts
  imports Sol_Async
begin

text \<open>
  Invariants of the running Solana client: the queue is the rest of what was asked, rounds follow its
  order, every worker has done a part of the broadcasts it has passed, and the messages of a round
  are the answers of different workers to that round's broadcast.
\<close>

subsection \<open>What a worker has done\<close>

text \<open>The endpoint \<open>w\<close> after the broadcasts before \<open>k\<close>, except for those skipped, and its message of round \<open>k\<close>.\<close>

definition client_after ::
    "('t, 'i, 'w, 'm, 'h, 'r) protocol \<Rightarrow> 'i list \<Rightarrow> nat set \<Rightarrow> nat \<Rightarrow> 'w \<Rightarrow> 'w" where
  "client_after P log skipped k w =
     fold (\<lambda>j w. if j \<in> skipped then w else snd (pr_work P (log ! j) w)) [0..<k] w"

definition message_of ::
    "('t, 'i, 'w, 'm, 'h, 'r) protocol \<Rightarrow> 'i list \<Rightarrow> nat set \<Rightarrow> nat \<Rightarrow> 'w \<Rightarrow> 'm" where
  "message_of P log skipped k w = fst (pr_work P (log ! k) (client_after P log skipped k w))"

lemma client_after_cong:
  assumes "\<And>j. j < k \<Longrightarrow> log ! j = log' ! j" "\<And>j. j < k \<Longrightarrow> j \<in> skipped \<longleftrightarrow> j \<in> skipped'"
  shows "client_after P log skipped k w = client_after P log' skipped' k w"
  unfolding client_after_def using assms by (intro fold_cong) auto

lemma client_after_Suc:
  "client_after P log skipped (Suc k) w =
   (if k \<in> skipped then client_after P log skipped k w
    else snd (pr_work P (log ! k) (client_after P log skipped k w)))"
  by (simp add: client_after_def)

lemma client_after_log: "k \<le> length log \<Longrightarrow> client_after P (log @ [e]) skipped k w = client_after P log skipped k w"
  by (rule client_after_cong) (auto simp: nth_append)

lemma message_of_log: "k < length log \<Longrightarrow> message_of P (log @ [e]) skipped k w = message_of P log skipped k w"
  by (simp add: message_of_def client_after_log nth_append)

lemma client_after_skip:
  "k \<le> a \<Longrightarrow> client_after P log (skipped \<union> {a..<b}) k w = client_after P log skipped k w"
  by (rule client_after_cong) auto

lemma client_after_gap:
  "a \<le> b \<Longrightarrow> client_after P log (skipped \<union> {a..<b}) b w = client_after P log skipped a w"
proof (induction "b - a" arbitrary: b)
  case 0
  then show ?case by (simp add: client_after_skip)
next
  case (Suc d)
  then obtain c where b: "b = Suc c" "a \<le> c" by (cases b) auto
  then have "client_after P log (skipped \<union> {a..<b}) b w = client_after P log (skipped \<union> {a..<b}) c w"
    by (simp add: client_after_Suc)
  also have "\<dots> = client_after P log (skipped \<union> {a..<c}) c w"
    using b by (intro client_after_cong) auto
  also have "\<dots> = client_after P log skipped a w" using Suc b by simp
  finally show ?case .
qed

lemma message_of_skip: "k < a \<Longrightarrow> message_of P log (skipped \<union> {a..<b}) k w = message_of P log skipped k w"
  by (simp add: message_of_def client_after_skip)

subsection \<open>Workers\<close>

text \<open>The state of a worker that began with the endpoint \<open>w\<close>. Skipping needs more broadcasts than are kept.\<close>

definition worker_inv ::
    "('t, 'i, 'w, 'm, 'h, 'r) protocol \<Rightarrow> 'i list \<Rightarrow> 'w \<Rightarrow> nat set \<Rightarrow> ('w, 'm) sol_worker \<Rightarrow> bool" where
  "worker_inv P log w skipped wk \<longleftrightarrow>
     wk_next wk \<le> length log \<and> skipped \<subseteq> {..<wk_next wk} \<and>
     (\<forall>k \<in> skipped. k + capacity < length log) \<and>
     wk_client wk = client_after P log skipped (wk_next wk) w \<and>
     (\<forall>k m. wk_sending wk = Some (k, m) \<longrightarrow> k < wk_next wk \<and> m = message_of P log skipped k w)"

lemma worker_inv_start: "worker_inv P [] w {} \<lparr>wk_client = w, wk_next = 0, wk_sending = None\<rparr>"
  by (simp add: worker_inv_def client_after_def)

lemma worker_inv_log: "worker_inv P log w skipped wk \<Longrightarrow> worker_inv P (log @ [e]) w skipped wk"
  by (fastforce simp: worker_inv_def client_after_log message_of_log)

lemma worker_inv_sent: "worker_inv P log w skipped wk \<Longrightarrow> worker_inv P log w skipped (wk\<lparr>wk_sending := None\<rparr>)"
  by (simp add: worker_inv_def)

lemma worker_step_inv:
  assumes "worker_inv P log w skipped wk" "worker_step P log wk = Some wk'"
  shows "\<exists>skipped'. worker_inv P log w skipped' wk' \<and>
    (\<forall>k < wk_next wk. message_of P log skipped' k w = message_of P log skipped k w) \<and>
    wk_next wk < wk_next wk' \<and> wk_sending wk = None \<and>
    (wk_next wk' < length log \<or> (\<exists>m. wk_sending wk' = Some (length log - 1, m)))"
proof -
  from assms(2) have n: "wk_sending wk = None" "wk_next wk < length log"
    by (simp_all add: worker_step_def split: if_splits del: not_None_eq)
  show ?thesis
  proof (cases "capacity < length log - wk_next wk")
    case True
    let ?to = "length log - capacity" and ?new = "skipped \<union> {wk_next wk..<length log - capacity}"
    from True assms(2) n have wk': "wk' = wk\<lparr>wk_next := ?to\<rparr>" by (auto simp: worker_step_def)
    have "client_after P log ?new ?to w = client_after P log skipped (wk_next wk) w"
      using True by (intro client_after_gap) simp
    then have "worker_inv P log w ?new wk'"
      using assms(1) n True by (auto simp: worker_inv_def wk')
    moreover have "\<forall>k < wk_next wk. message_of P log ?new k w = message_of P log skipped k w"
      by (simp add: message_of_skip)
    ultimately show ?thesis using True n(1) by (intro exI[of _ ?new]) (auto simp: wk' capacity_def)
  next
    case False
    obtain m w' where m: "pr_work P (log ! wk_next wk) (wk_client wk) = (m, w')" by force
    from False assms(2) n m
    have wk': "wk' = \<lparr>wk_client = w', wk_next = wk_next wk + 1, wk_sending = Some (wk_next wk, m)\<rparr>"
      by (auto simp: worker_step_def)
    have "wk_next wk \<notin> skipped" "wk_client wk = client_after P log skipped (wk_next wk) w"
      using assms(1) by (auto simp: worker_inv_def)
    then have "worker_inv P log w skipped wk'"
      using assms(1) n m by (auto simp: worker_inv_def wk' client_after_Suc message_of_def)
    then show ?thesis using n by (intro exI[of _ skipped]) (auto simp: wk')
  qed
qed

subsection \<open>Rounds\<close>

text \<open>What the dispatcher has heard, and from whom.\<close>

definition heard_from :: "(nat \<times> nat \<times> 'm) option list \<Rightarrow> (nat \<times> 'm) list" where
  "heard_from es = List.map_filter (map_option snd) es"

lemma heard_from_simps [simp]:
  "heard_from [] = []"
  "heard_from (es @ [None]) = heard_from es"
  "heard_from (es @ [Some (t, im)]) = heard_from es @ [im]"
  by (simp_all add: heard_from_def List.map_filter_def)

text \<open>The messages of the current round that have left their workers, and whether a worker has sent its own.\<close>

definition arrived :: "('t, 'i, 'w, 'm, 'h, 'r) sol_system \<Rightarrow> (nat \<times> 'm) list" where
  "arrived s = (case sy_dispatcher s of Collecting q t h start es \<Rightarrow> heard_from es | _ \<Rightarrow> []) @ sy_channel s"

definition round_inv ::
    "('t, 'i, 'w, 'm, 'h, 'r) protocol \<Rightarrow> 'w list \<Rightarrow> (nat \<Rightarrow> nat set) \<Rightarrow> ('t, 'i, 'w, 'm, 'h, 'r) sol_system \<Rightarrow> bool" where
  "round_inv P ws skipped s \<longleftrightarrow> sy_log s \<noteq> [] \<and> distinct (map fst (arrived s)) \<and>
     (\<forall>(i, m) \<in> set (arrived s). i < length ws \<and> wk_next (sy_workers s ! i) = length (sy_log s) \<and>
        wk_sending (sy_workers s ! i) = None \<and> m = message_of P (sy_log s) (skipped i) (length (sy_log s) - 1) (ws ! i)) \<and>
     (\<forall>i < length ws. wk_next (sy_workers s ! i) = length (sy_log s) \<longrightarrow>
        i \<in> fst ` set (arrived s) \<or> (\<exists>m. wk_sending (sy_workers s ! i) = Some (length (sy_log s) - 1, m)))"

text \<open>The queue is the rest of what was asked, and the rounds are those of the tasks before it.\<close>

definition order_inv :: "('t, 'i, 'w, 'm, 'h, 'r) protocol \<Rightarrow> ('t, 'i, 'w, 'm, 'h, 'r) sol_system \<Rightarrow> bool" where
  "order_inv P s \<longleftrightarrow>
     length (sy_log s) \<le> length (sy_asked s) \<and>
     (\<forall>k < length (sy_log s). sy_log s ! k = pr_cast P (sy_asked s ! k)) \<and>
     sy_queue s = map (\<lambda>q. (q, sy_asked s ! q)) [length (sy_log s)..<length (sy_asked s)] \<and>
     length (sy_queue s) \<le> capacity \<and>
     map fst (sy_answers s) = [0..<length (sy_answers s)] \<and>
     (case sy_dispatcher s of
        Collecting q t h start es \<Rightarrow>
          length (sy_log s) = length (sy_answers s) + 1 \<and> q = length (sy_answers s) \<and> t = sy_asked s ! q \<and>
          pr_order P h
      | _ \<Rightarrow> length (sy_log s) = length (sy_answers s))"

text \<open>
  An answer is what the dispatcher makes of a schedule of different workers, each on its endpoint
  after the broadcasts it has done.
\<close>

definition answer_inv ::
    "('t, 'i, 'w, 'm, 'h, 'r) protocol \<Rightarrow> 'w list \<Rightarrow> 't list \<Rightarrow> 'i list \<Rightarrow> nat \<Rightarrow> 'r option \<Rightarrow> bool" where
  "answer_inv P ws asked log q r \<longleftrightarrow>
     (\<exists>h sched skipped. pr_order P h \<and> (\<forall>t i. Some (t, i) \<in> set sched \<longrightarrow> i < length ws) \<and>
        distinct (List.map_filter (map_option snd) sched) \<and>
        (\<forall>i. \<forall>k \<in> skipped i. k + capacity \<le> q) \<and>
        map_option (\<lambda>r. case r of Inr ev \<Rightarrow> Some ev | Inl _ \<Rightarrow> None)
          (pr_deal P h (length ws) (asked ! q)
            (map (map_option (\<lambda>(t, i). (t, message_of P log (skipped i) q (ws ! i)))) sched)) = Some r)"

text \<open>\<open>open_inv\<close>: a round is collected only as long as it is not decided, and only a panic stops.\<close>

definition open_inv :: "('t, 'i, 'w, 'm, 'h, 'r) protocol \<Rightarrow> ('t, 'i, 'w, 'm, 'h, 'r) sol_system \<Rightarrow> bool" where
  "open_inv P s \<longleftrightarrow>
     (case sy_dispatcher s of
        Collecting q t h start es \<Rightarrow>
          pr_deal P h (length (sy_workers s)) t (map (map_option (\<lambda>(t, i, m). (t, m))) es) = None
      | Waiting \<Rightarrow> sy_channel s = []
      | Stopped \<Rightarrow> sy_channel s = [] \<and> None \<in> snd ` set (sy_answers s))"

definition core_inv :: "('t, 'i, 'w, 'm, 'h, 'r) protocol \<Rightarrow> 'w list \<Rightarrow> ('t, 'i, 'w, 'm, 'h, 'r) sol_system \<Rightarrow> bool" where
  "core_inv P ws s \<longleftrightarrow> length (sy_workers s) = length ws \<and> order_inv P s \<and>
     (\<exists>skipped. (\<forall>i < length ws. worker_inv P (sy_log s) (ws ! i) (skipped i) (sy_workers s ! i)) \<and>
        (collecting (sy_dispatcher s) \<longrightarrow> round_inv P ws skipped s)) \<and>
     (\<forall>(q, r) \<in> set (sy_answers s). answer_inv P ws (sy_asked s) (sy_log s) q r)"

lemma answers_before:
  assumes "order_inv P s" "(q, r) \<in> set (sy_answers s)"
  shows "q < length (sy_log s)" "q < length (sy_asked s)"
proof -
  have "q \<in> set (map fst (sy_answers s))" using assms(2) by force
  also have "map fst (sy_answers s) = [0..<length (sy_answers s)]" using assms(1) by (simp add: order_inv_def)
  finally have "q < length (sy_answers s)" by simp
  with assms(1) show "q < length (sy_log s)" "q < length (sy_asked s)"
    by (auto simp: order_inv_def split: dispatcher.splits)
qed

lemma answer_inv_asked: "q < length asked \<Longrightarrow> answer_inv P ws (asked @ [t]) log q r = answer_inv P ws asked log q r"
  by (simp add: answer_inv_def nth_append)

lemma answer_inv_log: "q < length log \<Longrightarrow> answer_inv P ws asked (log @ [e]) q r = answer_inv P ws asked log q r"
  by (simp add: answer_inv_def message_of_log)

text \<open>What was heard, as a schedule.\<close>

lemma heard_from_schedule:
  "List.map_filter (map_option snd) (map (map_option (\<lambda>(t, i, m). (t, i))) es) = map fst (heard_from es)"
proof (induction es)
  case (Cons e es)
  then show ?case by (cases e) (auto simp: heard_from_def List.map_filter_def)
qed (simp add: heard_from_def List.map_filter_def)

lemma heard_from_mem: "Some (t, i, m) \<in> set es \<Longrightarrow> (i, m) \<in> set (heard_from es)"
  by (force simp: heard_from_def List.map_filter_def)

lemma collected_events:
  assumes "core_inv P ws s" "sy_dispatcher s = Collecting q t h start es"
  obtains sched skipped where
    "map (map_option (\<lambda>(t, i, m). (t, m))) es =
       map (map_option (\<lambda>(t, i). (t, message_of P (sy_log s) (skipped i) q (ws ! i)))) sched"
    "\<forall>t i. Some (t, i) \<in> set sched \<longrightarrow> i < length ws"
    "List.map_filter (map_option snd) sched = map fst (heard_from es)"
    "distinct (List.map_filter (map_option snd) sched)" "\<forall>i. \<forall>k \<in> skipped i. k + capacity \<le> q"
proof -
  from assms obtain skipped where
    w: "\<forall>i < length ws. worker_inv P (sy_log s) (ws ! i) (skipped i) (sy_workers s ! i)" and
    r: "round_inv P ws skipped s" and o: "length (sy_log s) = q + 1"
    by (auto simp: core_inv_def collecting_def order_inv_def)
  let ?sched = "map (map_option (\<lambda>(t, i, m). (t, i))) es"
  let ?sk = "\<lambda>i. if i < length ws then skipped i else {}"
  have heard: "i < length ws \<and> m = message_of P (sy_log s) (skipped i) q (ws ! i)"
    if "Some (t, i, m) \<in> set es" for t i m
    using r heard_from_mem[OF that] o by (auto simp: round_inv_def arrived_def assms(2))
  have "map_option (\<lambda>(t, i, m). (t, m)) e =
      map_option ((\<lambda>(t, i). (t, message_of P (sy_log s) (?sk i) q (ws ! i))) \<circ> (\<lambda>(t, i, m). (t, i))) e"
    if e: "e \<in> set es" for e
  proof (cases e)
    case (Some x)
    obtain u i m where "x = (u, i, m)" by (cases x)
    with e Some heard[of u i m] show ?thesis by simp
  qed simp
  then have "map (map_option (\<lambda>(t, i, m). (t, m))) es =
      map (map_option (\<lambda>(t, i). (t, message_of P (sy_log s) (?sk i) q (ws ! i)))) ?sched"
    by (simp add: option.map_comp)
  moreover have "\<forall>t i. Some (t, i) \<in> set ?sched \<longrightarrow> i < length ws"
    using heard by (auto simp: map_option_case split: option.splits)
  moreover have "distinct (map fst (heard_from es))"
    using r by (simp add: round_inv_def arrived_def assms(2))
  moreover have "\<forall>i. \<forall>k \<in> ?sk i. k + capacity \<le> q"
    using w o by (simp add: worker_inv_def less_Suc_eq_le)
  ultimately show ?thesis
    using heard_from_schedule[of es] by (intro that[of ?sk ?sched]) (simp_all del: map_map)
qed

lemma collected_answer:
  assumes "core_inv P ws s" "sy_dispatcher s = Collecting q t h start es"
    and "pr_deal P h (length ws) t (map (map_option (\<lambda>(t, i, m). (t, m))) es) = Some r"
  shows "answer_inv P ws (sy_asked s) (sy_log s) q (case r of Inr ev \<Rightarrow> Some ev | Inl _ \<Rightarrow> None)"
proof -
  have t: "t = sy_asked s ! q" "pr_order P h" using assms(1,2) by (simp_all add: core_inv_def order_inv_def)
  obtain sched skipped where "map (map_option (\<lambda>(t, i, m). (t, m))) es =
      map (map_option (\<lambda>(t, i). (t, message_of P (sy_log s) (skipped i) q (ws ! i)))) sched"
    "\<forall>t i. Some (t, i) \<in> set sched \<longrightarrow> i < length ws" "distinct (List.map_filter (map_option snd) sched)"
    "\<forall>i. \<forall>k \<in> skipped i. k + capacity \<le> q"
    by (rule collected_events[OF assms(1,2)])
  with assms(3) t show ?thesis
    unfolding answer_inv_def by (intro exI[of _ h] exI[of _ sched] exI[of _ skipped]) simp
qed

lemma settle_inv:
  assumes "core_inv P ws (s\<lparr>sy_dispatcher := Collecting q t h start es\<rparr>)"
  shows "core_inv P ws (settle P q t h start es s) \<and> open_inv P (settle P q t h start es s)"
proof -
  let ?r = "pr_deal P h (length ws) t (map (map_option (\<lambda>(t, i, m). (t, m))) es)"
  have n: "length (sy_workers s) = length ws" using assms by (simp add: core_inv_def)
  show ?thesis
  proof (cases ?r)
    case None
    then show ?thesis using assms n by (simp add: settle_def open_inv_def)
  next
    case (Some r)
    from collected_answer[OF assms _ Some]
    have a: "answer_inv P ws (sy_asked s) (sy_log s) q (case r of Inr ev \<Rightarrow> Some ev | Inl _ \<Rightarrow> None)" by simp
    from Some show ?thesis using assms a n
      by (cases r) (auto simp: settle_def open_inv_def core_inv_def order_inv_def collecting_def)
  qed
qed

subsection \<open>Every step keeps the invariants\<close>

definition system_inv :: "('t, 'i, 'w, 'm, 'h, 'r) protocol \<Rightarrow> 'w list \<Rightarrow> ('t, 'i, 'w, 'm, 'h, 'r) sol_system \<Rightarrow> bool" where
  "system_inv P ws s \<longleftrightarrow> core_inv P ws s \<and> open_inv P s"

lemma start_inv: "system_inv P ws (start_system ws)"
  by (auto simp: system_inv_def core_inv_def open_inv_def order_inv_def start_system_def collecting_def
      worker_inv_start intro!: exI[of _ "\<lambda>_. {}"])

text \<open>The updates that do not concern an invariant.\<close>

lemma arrived_now [simp]: "arrived (s\<lparr>sy_now := n\<rparr>) = arrived s"
  and arrived_workers [simp]: "arrived (s\<lparr>sy_workers := wks\<rparr>) = arrived s"
  and arrived_asked [simp]: "arrived (s\<lparr>sy_asked := ts, sy_queue := qs\<rparr>) = arrived s"
  by (simp_all add: arrived_def)

lemma round_inv_now [simp]: "round_inv P ws skipped (s\<lparr>sy_now := n\<rparr>) = round_inv P ws skipped s"
  and round_inv_asked [simp]: "round_inv P ws skipped (s\<lparr>sy_asked := ts, sy_queue := qs\<rparr>) = round_inv P ws skipped s"
  by (simp_all add: round_inv_def)

lemma open_inv_now [simp]: "open_inv P (s\<lparr>sy_now := n\<rparr>) = open_inv P s"
  and open_inv_asked [simp]: "open_inv P (s\<lparr>sy_asked := ts, sy_queue := qs\<rparr>) = open_inv P s"
  unfolding open_inv_def by (cases "sy_dispatcher s"; simp)+

lemma order_inv_now [simp]: "order_inv P (s\<lparr>sy_now := n\<rparr>) = order_inv P s"
  unfolding order_inv_def by (cases "sy_dispatcher s") simp_all

lemma order_inv_collect:
  "sy_dispatcher s = Collecting q t h start es \<Longrightarrow>
   order_inv P (s\<lparr>sy_dispatcher := Collecting q t h start es'\<rparr>) = order_inv P s"
  by (simp add: order_inv_def)

lemma order_inv_channel: "order_inv P (s\<lparr>sy_channel := ms\<rparr>) = order_inv P s"
  and order_inv_workers: "order_inv P (s\<lparr>sy_workers := wks\<rparr>) = order_inv P s"
  unfolding order_inv_def by (cases "sy_dispatcher s"; simp)+

lemma open_inv_workers:
  "length wks = length (sy_workers s) \<Longrightarrow> open_inv P (s\<lparr>sy_workers := wks\<rparr>) = open_inv P s"
  unfolding open_inv_def by (cases "sy_dispatcher s") simp_all

lemma tick_inv: "system_inv P ws s \<Longrightarrow> system_inv P ws (s\<lparr>sy_now := n\<rparr>)"
  by (simp add: system_inv_def core_inv_def)

lemma send_task_inv:
  assumes "system_inv P ws s" "send_task t s = Some s'"
  shows "system_inv P ws s'"
proof -
  have o: "order_inv P s" using assms(1) by (simp add: system_inv_def core_inv_def)
  have n: "length (sy_log s) \<le> length (sy_asked s)" using o by (simp add: order_inv_def)
  from assms(2) have s': "length (sy_queue s) < capacity"
    "s' = s\<lparr>sy_asked := sy_asked s @ [t], sy_queue := sy_queue s @ [(length (sy_asked s), t)]\<rparr>"
    by (auto simp: send_task_def split: if_splits)
  have queue: "map (\<lambda>q. (q, (sy_asked s @ [t]) ! q)) [length (sy_log s)..<length (sy_asked s)] = sy_queue s"
    using o by (simp add: order_inv_def nth_append)
  have "order_inv P s'"
    using o n s'(1) queue unfolding s'(2) order_inv_def
    by (cases "sy_dispatcher s") (simp_all add: nth_append)
  moreover have "\<forall>(q, r) \<in> set (sy_answers s). answer_inv P ws (sy_asked s') (sy_log s) q r"
    using assms(1) answers_before(2)[OF o]
    by (auto simp: s'(2) system_inv_def core_inv_def answer_inv_asked)
  ultimately show ?thesis
    using assms(1) by (simp add: system_inv_def core_inv_def s'(2))
qed

lemma take_task_core:
  assumes "system_inv P ws s" "pr_order P h" and d: "sy_dispatcher s = Waiting" "sy_queue s = (q, t) # rest"
  shows "core_inv P ws (s\<lparr>sy_queue := rest, sy_log := sy_log s @ [pr_cast P t], sy_channel := [],
    sy_dispatcher := Collecting q t h (sy_now s) []\<rparr>)"
proof -
  let ?s = "s\<lparr>sy_queue := rest, sy_log := sy_log s @ [pr_cast P t], sy_channel := [],
      sy_dispatcher := Collecting q t h (sy_now s) []\<rparr>"
  have c: "core_inv P ws s" using assms(1) by (simp add: system_inv_def)
  then have o: "order_inv P s" by (simp add: core_inv_def)
  have lt: "length (sy_log s) < length (sy_asked s)"
    using o d(2) by (cases "length (sy_log s) < length (sy_asked s)") (auto simp: order_inv_def)
  then have q: "q = length (sy_log s)" "t = sy_asked s ! q"
    "rest = map (\<lambda>q. (q, sy_asked s ! q)) [Suc (length (sy_log s))..<length (sy_asked s)]"
    using o d(2) by (auto simp: order_inv_def upt_conv_Cons)
  have o': "order_inv P ?s" using o d lt q assms(2) by (auto simp: order_inv_def nth_append less_Suc_eq)
  obtain skipped where w: "\<forall>i < length ws. worker_inv P (sy_log s) (ws ! i) (skipped i) (sy_workers s ! i)"
    using c by (auto simp: core_inv_def)
  then have "wk_next (sy_workers s ! i) \<noteq> length (sy_log ?s)" if "i < length ws" for i
    using that by (fastforce simp: worker_inv_def)
  then have r: "round_inv P ws skipped ?s" by (auto simp: round_inv_def arrived_def)
  have w': "\<forall>i < length ws. worker_inv P (sy_log ?s) (ws ! i) (skipped i) (sy_workers ?s ! i)"
    using w by (simp add: worker_inv_log)
  have a: "\<forall>(q, r) \<in> set (sy_answers ?s). answer_inv P ws (sy_asked ?s) (sy_log ?s) q r"
    using c answers_before(1)[OF o] by (auto simp: core_inv_def answer_inv_log)
  have n: "length (sy_workers ?s) = length ws" using c by (simp add: core_inv_def)
  show ?thesis unfolding core_inv_def using n o' w' r a by blast
qed

lemma take_task_inv:
  assumes "system_inv P ws s" "pr_order P h" "take_task P h s = Some s'"
  shows "system_inv P ws s'"
proof -
  from assms(3) obtain q t rest where d: "sy_dispatcher s = Waiting" "sy_queue s = (q, t) # rest" and
    s': "s' = settle P q t h (sy_now s) [] (s\<lparr>sy_queue := rest, sy_log := sy_log s @ [pr_cast P t], sy_channel := []\<rparr>)"
    by (auto simp: take_task_def split: dispatcher.splits list.splits)
  have "core_inv P ws (s\<lparr>sy_queue := rest, sy_log := sy_log s @ [pr_cast P t], sy_channel := []\<rparr>
      \<lparr>sy_dispatcher := Collecting q t h (sy_now s) []\<rparr>)"
    using take_task_core[OF assms(1,2) d] by simp
  from settle_inv[OF this] show ?thesis by (simp add: s' system_inv_def)
qed

lemma receive_message_inv:
  assumes "system_inv P ws s" "receive_message P s = Some s'"
  shows "system_inv P ws s'"
proof -
  from assms(2) obtain q t h start es i m ms where d: "sy_dispatcher s = Collecting q t h start es"
      "sy_channel s = (i, m) # ms" and
    s': "s' = settle P q t h start (es @ [Some (sy_now s - start, i, m)]) (s\<lparr>sy_channel := ms\<rparr>)"
    by (auto simp: receive_message_def split: dispatcher.splits list.splits)
  let ?s = "s\<lparr>sy_channel := ms, sy_dispatcher := Collecting q t h start (es @ [Some (sy_now s - start, i, m)])\<rparr>"
  have a: "arrived ?s = arrived s" by (simp add: arrived_def d)
  then have "round_inv P ws skipped ?s = round_inv P ws skipped s" for skipped
    by (simp add: round_inv_def)
  then have "core_inv P ws ?s"
    using assms(1) d by (simp add: system_inv_def core_inv_def order_inv_collect order_inv_channel collecting_def)
  from settle_inv[where s = "s\<lparr>sy_channel := ms\<rparr>"] this show ?thesis by (simp add: s' system_inv_def)
qed

lemma wait_second_inv:
  assumes "system_inv P ws s" "wait_second P s = Some s'"
  shows "system_inv P ws s'"
proof -
  from assms(2) obtain q t h start es where d: "sy_dispatcher s = Collecting q t h start es" and
    s': "s' = settle P q t h start (es @ [None]) s"
    by (auto simp: wait_second_def split: dispatcher.splits list.splits)
  have "round_inv P ws skipped (s\<lparr>sy_dispatcher := Collecting q t h start (es @ [None])\<rparr>) = round_inv P ws skipped s" for skipped
    by (simp add: round_inv_def arrived_def d)
  then have "core_inv P ws (s\<lparr>sy_dispatcher := Collecting q t h start (es @ [None])\<rparr>)"
    using assms(1) d by (simp add: system_inv_def core_inv_def order_inv_collect order_inv_channel collecting_def)
  from settle_inv[OF this] show ?thesis by (simp add: s' system_inv_def)
qed

lemma worker_receive_inv:
  assumes "system_inv P ws s" "worker_receive P i s = Some s'"
  shows "system_inv P ws s'"
proof -
  let ?wk = "sy_workers s ! i"
  from assms(2) obtain wk' where i: "i < length (sy_workers s)" and step: "worker_step P (sy_log s) ?wk = Some wk'" and
    s': "s' = s\<lparr>sy_workers := (sy_workers s)[i := wk']\<rparr>"
    by (auto simp: worker_receive_def split: if_splits)
  have c: "core_inv P ws s" and op: "open_inv P s" using assms(1) by (simp_all add: system_inv_def)
  from c obtain skipped where
    w: "\<forall>i < length ws. worker_inv P (sy_log s) (ws ! i) (skipped i) (sy_workers s ! i)" and
    r: "collecting (sy_dispatcher s) \<longrightarrow> round_inv P ws skipped s" and n: "length (sy_workers s) = length ws"
    by (auto simp: core_inv_def)
  from w i n have "worker_inv P (sy_log s) (ws ! i) (skipped i) ?wk" by simp
  from worker_step_inv[OF this step] obtain new where
    new: "worker_inv P (sy_log s) (ws ! i) new wk'" "wk_next ?wk < wk_next wk'"
      "wk_next wk' < length (sy_log s) \<or> (\<exists>m. wk_sending wk' = Some (length (sy_log s) - 1, m))" by blast
  then have before: "wk_next ?wk < length (sy_log s)" by (auto simp: worker_inv_def)
  let ?skipped = "skipped(i := new)"
  have "\<forall>j < length ws. worker_inv P (sy_log s) (ws ! j) (?skipped j) (sy_workers s' ! j)"
    using w new(1) i n by (auto simp: s' nth_list_update)
  moreover have "round_inv P ws ?skipped s'" if "collecting (sy_dispatcher s)"
  proof -
    have r: "round_inv P ws skipped s" using r that by simp
    have a: "arrived s' = arrived s" by (simp add: s' arrived_def)
    have other: "j \<noteq> i" if "(j, m) \<in> set (arrived s)" for j m
      using r that before by (auto simp: round_inv_def)
    have "j < length ws \<and> wk_next (sy_workers s' ! j) = length (sy_log s') \<and> wk_sending (sy_workers s' ! j) = None \<and>
        m = message_of P (sy_log s') (?skipped j) (length (sy_log s') - 1) (ws ! j)"
      if jm: "(j, m) \<in> set (arrived s')" for j m
    proof -
      from jm r have "j < length ws \<and> wk_next (sy_workers s ! j) = length (sy_log s) \<and>
          wk_sending (sy_workers s ! j) = None \<and> m = message_of P (sy_log s) (skipped j) (length (sy_log s) - 1) (ws ! j)"
        unfolding round_inv_def a by blast
      moreover have "j \<noteq> i" using jm other a by simp
      ultimately show ?thesis by (simp add: s')
    qed
    moreover have "\<forall>j < length ws. wk_next (sy_workers s' ! j) = length (sy_log s') \<longrightarrow>
        j \<in> fst ` set (arrived s') \<or> (\<exists>m. wk_sending (sy_workers s' ! j) = Some (length (sy_log s') - 1, m))"
    proof (intro allI impI)
      fix j assume j: "j < length ws" "wk_next (sy_workers s' ! j) = length (sy_log s')"
      show "j \<in> fst ` set (arrived s') \<or> (\<exists>m. wk_sending (sy_workers s' ! j) = Some (length (sy_log s') - 1, m))"
      proof (cases "j = i")
        case True
        with j new(3) i show ?thesis by (simp add: s')
      next
        case False
        with j r show ?thesis by (simp add: a s' round_inv_def)
      qed
    qed
    moreover have "sy_log s' \<noteq> []" "distinct (map fst (arrived s'))" using r by (simp_all add: round_inv_def a s')
    ultimately show ?thesis unfolding round_inv_def by blast
  qed
  ultimately show ?thesis
    using c op n by (auto simp: system_inv_def core_inv_def order_inv_workers open_inv_workers s' intro!: exI[of _ ?skipped])
qed

lemma worker_send_inv:
  assumes "system_inv P ws s" "worker_send i s = Some s'"
  shows "system_inv P ws s'"
proof -
  let ?workers = "(sy_workers s)[i := (sy_workers s ! i)\<lparr>wk_sending := None\<rparr>]"
  let ?open = "\<lambda>k. collecting (sy_dispatcher s) \<and> length (sy_log s) = k + 1"
  from assms(2) obtain k m where i: "i < length (sy_workers s)" and m: "wk_sending (sy_workers s ! i) = Some (k, m)" and
    s': "s' = (if ?open k then s\<lparr>sy_workers := ?workers, sy_channel := sy_channel s @ [(i, m)]\<rparr>
               else s\<lparr>sy_workers := ?workers\<rparr>)"
    by (auto simp: worker_send_def Let_def split: if_splits option.splits)
  have c: "core_inv P ws s" and op: "open_inv P s" using assms(1) by (simp_all add: system_inv_def)
  from c obtain skipped where
    w: "\<forall>i < length ws. worker_inv P (sy_log s) (ws ! i) (skipped i) (sy_workers s ! i)" and
    r: "collecting (sy_dispatcher s) \<longrightarrow> round_inv P ws skipped s" and n: "length (sy_workers s) = length ws"
    by (auto simp: core_inv_def)
  from w i n have wi: "worker_inv P (sy_log s) (ws ! i) (skipped i) (sy_workers s ! i)" by simp
  then have mi: "k < wk_next (sy_workers s ! i)" "m = message_of P (sy_log s) (skipped i) k (ws ! i)"
    "wk_next (sy_workers s ! i) \<le> length (sy_log s)"
    using m by (auto simp: worker_inv_def)
  have w': "\<forall>j < length ws. worker_inv P (sy_log s) (ws ! j) (skipped j) (?workers ! j)"
    using w i n by (auto simp: nth_list_update worker_inv_sent)
  have nw: "wk_next (?workers ! j) = wk_next (sy_workers s ! j)" for j
    using i by (cases "j = i") simp_all
  have r': "round_inv P ws skipped s'" if col: "collecting (sy_dispatcher s)"
  proof -
    have r: "round_inv P ws skipped s" using r col by simp
    have fresh: "i \<notin> fst ` set (arrived s)" using r m by (auto simp: round_inv_def)
    have a: "arrived s' = arrived s @ (if ?open k then [(i, m)] else [])"
      using col by (cases "sy_dispatcher s") (simp_all add: s' arrived_def collecting_def)
    have ks: "sy_workers s' = ?workers" "sy_log s' = sy_log s" by (simp_all add: s')
    have "j < length ws \<and> wk_next (?workers ! j) = length (sy_log s) \<and> wk_sending (?workers ! j) = None \<and>
        m' = message_of P (sy_log s) (skipped j) (length (sy_log s) - 1) (ws ! j)"
      if jm: "(j, m') \<in> set (arrived s')" for j m'
    proof (cases "(j, m') \<in> set (arrived s)")
      case True
      with r fresh show ?thesis unfolding round_inv_def by (cases "j = i") force+
    next
      case False
      with jm a have "j = i" "m' = m" "?open k" by (auto split: if_splits)
      with mi i n show ?thesis by simp
    qed
    moreover have "j \<in> fst ` set (arrived s') \<or> (\<exists>m. wk_sending (?workers ! j) = Some (length (sy_log s) - 1, m))"
      if j: "j < length ws" "wk_next (?workers ! j) = length (sy_log s)" for j
    proof (cases "j = i")
      case True
      with j r nw fresh m have "k = length (sy_log s) - 1" by (fastforce simp: round_inv_def)
      moreover have "0 < length (sy_log s)" using r by (simp add: round_inv_def)
      ultimately have "?open k" using col by simp
      with True show ?thesis by (simp add: a)
    next
      case False
      with j r nw show ?thesis by (force simp: round_inv_def a)
    qed
    moreover have "sy_log s \<noteq> []" "distinct (map fst (arrived s'))" using r fresh by (auto simp: round_inv_def a)
    ultimately show ?thesis unfolding round_inv_def ks by blast
  qed
  have same: "sy_log s' = sy_log s" "sy_workers s' = ?workers" "sy_dispatcher s' = sy_dispatcher s"
    "sy_answers s' = sy_answers s" "sy_asked s' = sy_asked s" by (simp_all add: s')
  have "order_inv P s'" using c by (simp add: s' core_inv_def order_inv_channel order_inv_workers)
  moreover have "open_inv P s'"
  proof (cases "?open k")
    case True
    then have s'': "s' = s\<lparr>sy_workers := ?workers, sy_channel := sy_channel s @ [(i, m)]\<rparr>" by (simp add: s')
    from True op show ?thesis unfolding open_inv_def s''
      by (cases "sy_dispatcher s") (simp_all add: collecting_def)
  next
    case False
    with op show ?thesis by (auto simp: s' open_inv_workers)
  qed
  ultimately show ?thesis
    using c n w' r' unfolding system_inv_def core_inv_def same by auto
qed

lemma proceeds_inv: "proceeds P s s' \<Longrightarrow> system_inv P ws s \<Longrightarrow> system_inv P ws s'"
  by (induction rule: proceeds.induct)
    (blast intro: take_task_inv receive_message_inv wait_second_inv worker_receive_inv worker_send_inv)+

lemma running_inv: "running P ws s \<Longrightarrow> system_inv P ws s"
  by (induction rule: running.induct) (blast intro: start_inv tick_inv send_task_inv proceeds_inv)+

end
