(* ===== verification/Sol_Async_Progress.thy ===== *)
theory Sol_Async_Progress
  imports Sol_Async_Facts
begin

text \<open>
  What the running client always keeps, and that it always can go on: no message waits for room, and if a
  round is decided once every worker is heard (the locale \<open>deciding\<close>), every state has a continuation, by
  steps of the dispatcher and the workers alone, in which everything asked is answered.
\<close>

subsection \<open>Order and bounds\<close>

lemma running_order: "running P ws s \<Longrightarrow> order_inv P s"
  using running_inv by (auto simp: system_inv_def core_inv_def)

lemma answers_in_order:
  assumes "running P ws s"
  shows "map fst (sy_answers s) = [0..<length (sy_answers s)]"
    "map fst (sy_queue s) = [length (sy_log s)..<length (sy_asked s)]"
    "length (sy_answers s) \<le> length (sy_log s)" "length (sy_log s) \<le> length (sy_answers s) + 1"
    "length (sy_queue s) \<le> capacity"
  using running_order[OF assms] by (auto simp: order_inv_def o_def split: dispatcher.splits)

lemma running_answer: "running P ws s \<Longrightarrow> (q, r) \<in> set (sy_answers s) \<Longrightarrow> answer_inv P ws (sy_asked s) (sy_log s) q r"
  using running_inv by (fastforce simp: system_inv_def core_inv_def)

text \<open>The channel of a round has room for every worker's message.\<close>

lemma channel_room:
  assumes "system_inv P ws s"
  shows "length (sy_channel s) \<le> length ws"
    "i < length ws \<Longrightarrow> wk_sending (sy_workers s ! i) \<noteq> None \<Longrightarrow> worker_send i s \<noteq> None"
proof -
  have n: "length (sy_workers s) = length ws" using assms by (simp add: system_inv_def core_inv_def)
  have sub: "set (map fst (sy_channel s)) \<subseteq> {j. j < length ws \<and> wk_sending (sy_workers s ! j) = None} \<and>
      distinct (map fst (sy_channel s))"
  proof (cases "collecting (sy_dispatcher s)")
    case True
    with assms obtain skipped where "round_inv P ws skipped s" by (auto simp: system_inv_def core_inv_def)
    then have "\<forall>(j, m) \<in> set (sy_channel s). j < length ws \<and> wk_sending (sy_workers s ! j) = None"
      "distinct (map fst (sy_channel s))"
      unfolding round_inv_def arrived_def by (simp_all add: ball_Un split_def)
    then show ?thesis by auto
  next
    case False
    then have "sy_channel s = []"
      using assms by (cases "sy_dispatcher s") (simp_all add: system_inv_def open_inv_def collecting_def)
    then show ?thesis by simp
  qed
  have le: "length (sy_channel s) \<le> card X" if "finite X" "set (map fst (sy_channel s)) \<subseteq> X" for X
    using card_mono[OF that] sub distinct_card[of "map fst (sy_channel s)"] by simp
  from sub le[of "{..<length ws}"] show "length (sy_channel s) \<le> length ws" by auto
  assume i: "i < length ws" "wk_sending (sy_workers s ! i) \<noteq> None"
  then have "{j. j < length ws \<and> wk_sending (sy_workers s ! j) = None} \<subseteq> {..<length ws} - {i}" by auto
  with sub have "set (map fst (sy_channel s)) \<subseteq> {..<length ws} - {i}" by blast
  with i le[of "{..<length ws} - {i}"] have "length (sy_channel s) < length ws" by simp
  with i n show "worker_send i s \<noteq> None" by (auto simp: worker_send_def Let_def split: option.splits)
qed

lemma proceeds_running: "(proceeds P)\<^sup>*\<^sup>* s s' \<Longrightarrow> running P ws s \<Longrightarrow> running P ws s'"
  by (induction rule: rtranclp_induct) (blast intro: run_proceed)+

lemma proceeds_rtranclp_inv: "(proceeds P)\<^sup>*\<^sup>* s s' \<Longrightarrow> system_inv P ws s \<Longrightarrow> system_inv P ws s'"
  by (induction rule: rtranclp_induct) (blast intro: proceeds_inv)+

text \<open>The messages of a round, from the endpoints as they were when they did their part.\<close>

lemma events_of_clients:
  assumes "\<forall>t i. Some (t, i) \<in> set sched \<longrightarrow> i < length ws" "log ! q = pr_cast P t"
  shows "map (map_option (\<lambda>(u, i). (u, message_of P log (skipped i) q (ws ! i)))) sched =
    map (map_option (\<lambda>(u, i). (u, fst (pr_work P (pr_cast P t)
      (map (\<lambda>i. client_after P log (skipped i) q (ws ! i)) [0..<length ws] ! i))))) sched"
proof (rule map_cong[OF refl])
  fix e assume "e \<in> set sched"
  with assms show "map_option (\<lambda>(u, i). (u, message_of P log (skipped i) q (ws ! i))) e =
      map_option (\<lambda>(u, i). (u, fst (pr_work P (pr_cast P t)
        (map (\<lambda>i. client_after P log (skipped i) q (ws ! i)) [0..<length ws] ! i)))) e"
    by (cases e) (auto simp: message_of_def split: prod.split)
qed

subsection \<open>Progress\<close>

text \<open>What is left to do in a round: broadcasts to read, messages to send and to receive.\<close>

definition worker_work :: "'i list \<Rightarrow> ('w, 'm) sol_worker \<Rightarrow> nat" where
  "worker_work log wk = 3 * (length log - wk_next wk) + (if wk_sending wk = None then 0 else 2)"

definition work_left :: "('t, 'i, 'w, 'm, 'h, 'r) sol_system \<Rightarrow> nat" where
  "work_left s = sum_list (map (worker_work (sy_log s)) (sy_workers s)) + length (sy_channel s)"

lemma resting_worker:
  assumes "system_inv P ws s" "i < length ws" "worker_receive P i s = None" "worker_send i s = None"
  shows "wk_next (sy_workers s ! i) = length (sy_log s) \<and> wk_sending (sy_workers s ! i) = None"
proof -
  have idle: "wk_sending (sy_workers s ! i) = None" using channel_room(2)[OF assms(1,2)] assms(4) by blast
  have n: "length (sy_workers s) = length ws" using assms(1) by (simp add: system_inv_def core_inv_def)
  from assms(1,2) obtain sk where "worker_inv P (sy_log s) (ws ! i) sk (sy_workers s ! i)"
    by (auto simp: system_inv_def core_inv_def)
  then have "wk_next (sy_workers s ! i) \<le> length (sy_log s)" by (simp add: worker_inv_def)
  moreover have "worker_step P (sy_log s) (sy_workers s ! i) = None"
    using assms(2,3) n by (simp add: worker_receive_def)
  ultimately show ?thesis using idle by (simp add: worker_step_def split: if_splits prod.splits)
qed

lemma sum_list_less:
  "i < length xs \<Longrightarrow> f y + c \<le> f (xs ! i) \<Longrightarrow> sum_list (map f (xs[i := y])) + c \<le> sum_list (map f xs :: nat list)"
proof (induction xs arbitrary: i)
  case (Cons x xs)
  then show ?case by (cases i) force+
qed simp

lemma worker_receive_work:
  assumes "worker_receive P i s = Some s'"
  shows "work_left s' < work_left s" "sy_dispatcher s' = sy_dispatcher s" "sy_queue s' = sy_queue s"
    "sy_asked s' = sy_asked s" "length (sy_workers s') = length (sy_workers s)"
proof -
  from assms obtain wk' where i: "i < length (sy_workers s)" "worker_step P (sy_log s) (sy_workers s ! i) = Some wk'"
    "s' = s\<lparr>sy_workers := (sy_workers s)[i := wk']\<rparr>"
    by (auto simp: worker_receive_def split: if_splits)
  have "worker_work (sy_log s) wk' + 1 \<le> worker_work (sy_log s) (sy_workers s ! i)"
    using i(2) by (auto simp: worker_step_def worker_work_def capacity_def split: if_splits prod.splits)
  from sum_list_less[of i "sy_workers s" "worker_work (sy_log s)", OF i(1) this] i(3)
  show "work_left s' < work_left s" by (simp add: work_left_def)
qed (use assms in \<open>auto simp: worker_receive_def split: if_splits\<close>)

lemma worker_send_work:
  assumes "worker_send i s = Some s'"
  shows "work_left s' < work_left s" "sy_dispatcher s' = sy_dispatcher s" "sy_queue s' = sy_queue s"
    "sy_asked s' = sy_asked s" "length (sy_workers s') = length (sy_workers s)"
proof -
  let ?wk = "(sy_workers s ! i)\<lparr>wk_sending := None\<rparr>"
  from assms have i: "i < length (sy_workers s)" "wk_sending (sy_workers s ! i) \<noteq> None"
    "sy_workers s' = (sy_workers s)[i := ?wk]" "sy_log s' = sy_log s" "length (sy_channel s') \<le> length (sy_channel s) + 1"
    by (auto simp: worker_send_def Let_def split: if_splits option.splits)
  have "worker_work (sy_log s) ?wk + 2 \<le> worker_work (sy_log s) (sy_workers s ! i)"
    using i(2) by (simp add: worker_work_def)
  from sum_list_less[of i "sy_workers s" "worker_work (sy_log s)", OF i(1) this] i
  show "work_left s' < work_left s" by (simp add: work_left_def)
qed (use assms in \<open>auto simp: worker_send_def Let_def split: if_splits option.splits\<close>)

text \<open>
  The laws of a protocol whose rounds end: the part of a worker keeps its URL, and if the libraries behave
  (\<open>ok\<close>) and no two endpoints have the same URL, no round panics, and none waits on when it has heard from all.
\<close>

locale deciding =
  fixes P :: "('t, 'i, 'w, 'm, 'h, 'r) protocol" and url :: "'w \<Rightarrow> string" and ok :: bool
  assumes some_order: "\<exists>h. pr_order P h"
    and url_work: "ok \<Longrightarrow> url (snd (pr_work P e w)) = url w"
    and no_panic: "ok \<Longrightarrow> pr_order P h \<Longrightarrow> distinct (map url ws) \<Longrightarrow> ws \<noteq> [] \<Longrightarrow> (\<forall>t i. Some (t, i) \<in> set sched \<longrightarrow> i < length ws) \<Longrightarrow>
      pr_deal P h (length ws) t
        (map (map_option (\<lambda>(u, i). (u, fst (pr_work P (pr_cast P t) (ws ! i))))) sched) \<noteq> Some (Inl f)"
    and decides: "ok \<Longrightarrow> pr_order P h \<Longrightarrow> distinct (map url ws) \<Longrightarrow> ws \<noteq> [] \<Longrightarrow> (\<forall>t i. Some (t, i) \<in> set sched \<longrightarrow> i < length ws) \<Longrightarrow>
      {..<length ws} \<subseteq> set (List.map_filter (map_option snd) sched) \<Longrightarrow>
      pr_deal P h (length ws) t
        (map (map_option (\<lambda>(u, i). (u, fst (pr_work P (pr_cast P t) (ws ! i))))) sched) \<noteq> None"
begin

lemma url_client_after: "ok \<Longrightarrow> url (client_after P log skipped k w) = url w"
  by (induction k) (simp_all add: client_after_Suc url_work, simp add: client_after_def)

text \<open>The endpoints of a round, as they were when they did their part.\<close>

lemma round_clients:
  assumes "core_inv P ws s" "sy_dispatcher s = Collecting q t h start es" "ok"
  obtains ws' sched where "length ws' = length ws" "map url ws' = map url ws"
    "map (map_option (\<lambda>(t, i, m). (t, m))) es =
       map (map_option (\<lambda>(u, i). (u, fst (pr_work P (pr_cast P t) (ws' ! i))))) sched"
    "\<forall>t i. Some (t, i) \<in> set sched \<longrightarrow> i < length ws'"
    "List.map_filter (map_option snd) sched = map fst (heard_from es)"
proof -
  obtain sched skipped where e: "map (map_option (\<lambda>(t, i, m). (t, m))) es =
      map (map_option (\<lambda>(t, i). (t, message_of P (sy_log s) (skipped i) q (ws ! i)))) sched" and
    i: "\<forall>t i. Some (t, i) \<in> set sched \<longrightarrow> i < length ws" and
    h: "List.map_filter (map_option snd) sched = map fst (heard_from es)"
    by (rule collected_events[OF assms(1,2)])
  let ?ws = "map (\<lambda>i. client_after P (sy_log s) (skipped i) q (ws ! i)) [0..<length ws]"
  have t: "sy_log s ! q = pr_cast P t"
    using assms(1,2) by (simp add: core_inv_def order_inv_def)
  have "map (map_option (\<lambda>(t, i, m). (t, m))) es =
      map (map_option (\<lambda>(u, i). (u, fst (pr_work P (pr_cast P t) (?ws ! i))))) sched"
    unfolding e using i t by (rule events_of_clients)
  moreover have "map url ?ws = map url ws" by (rule nth_equalityI) (simp_all add: url_client_after assms(3))
  ultimately show ?thesis using that[of ?ws sched] i h by simp
qed

lemma settle_goes_on:
  assumes "core_inv P ws (s\<lparr>sy_dispatcher := Collecting q t h start es\<rparr>)" "ok" "distinct (map url ws)" "ws \<noteq> []"
  shows "sy_dispatcher (settle P q t h start es s) \<noteq> Stopped"
proof -
  have n: "length (sy_workers s) = length ws" using assms(1) by (simp add: core_inv_def)
  obtain ws' sched where r: "length ws' = length ws" "map url ws' = map url ws"
    "map (map_option (\<lambda>(t, i, m). (t, m))) es =
       map (map_option (\<lambda>(u, i). (u, fst (pr_work P (pr_cast P t) (ws' ! i))))) sched"
    "\<forall>t i. Some (t, i) \<in> set sched \<longrightarrow> i < length ws'"
    by (rule round_clients[OF assms(1) _ assms(2)]) simp
  from r(1) assms(4) have ws': "ws' \<noteq> []" by auto
  have d: "distinct (map url ws')" using r(2) assms(3) by simp
  have h: "pr_order P h" using assms(1) by (simp add: core_inv_def order_inv_def)
  have "pr_deal P h (length ws) t (map (map_option (\<lambda>(t, i, m). (t, m))) es) \<noteq> Some (Inl f)" for f
    using no_panic[OF assms(2) h d ws' r(4)] r(1,3) by simp
  then show ?thesis by (auto simp: settle_def n split: option.splits sum.splits)
qed

text \<open>A round that is collected ends, if the dispatcher and the workers go on.\<close>

lemma round_decided_at_rest:
  assumes "system_inv P ws s" "sy_dispatcher s = Collecting q t h start es" "sy_channel s = []"
    and "\<forall>i < length ws. wk_next (sy_workers s ! i) = length (sy_log s) \<and> wk_sending (sy_workers s ! i) = None"
    and "ok" "distinct (map url ws)" "ws \<noteq> []"
  shows False
proof -
  have c: "core_inv P ws s" and op: "open_inv P s" using assms(1) by (simp_all add: system_inv_def)
  then have n: "length (sy_workers s) = length ws" by (simp add: core_inv_def)
  from c obtain skipped where r: "round_inv P ws skipped s" by (auto simp: core_inv_def collecting_def assms(2))
  have "arrived s = heard_from es" by (simp add: arrived_def assms(2,3))
  with r assms(4) have all: "{..<length ws} \<subseteq> set (map fst (heard_from es))" by (auto simp: round_inv_def)
  obtain ws' sched where w: "length ws' = length ws" "map url ws' = map url ws"
    "map (map_option (\<lambda>(t, i, m). (t, m))) es =
       map (map_option (\<lambda>(u, i). (u, fst (pr_work P (pr_cast P t) (ws' ! i))))) sched"
    "\<forall>t i. Some (t, i) \<in> set sched \<longrightarrow> i < length ws'"
    "List.map_filter (map_option snd) sched = map fst (heard_from es)"
    by (rule round_clients[OF c assms(2,5)])
  from w(1) assms(7) have ws': "ws' \<noteq> []" by auto
  have d: "distinct (map url ws')" using w(2) assms(6) by simp
  have h: "pr_order P h" using c by (simp add: core_inv_def order_inv_def assms(2))
  have "pr_deal P h (length ws) t (map (map_option (\<lambda>(t, i, m). (t, m))) es) \<noteq> None"
    using decides[OF assms(5) h d ws' w(4)] w(1,3,5) all by simp
  with op n show False by (simp add: open_inv_def assms(2))
qed

lemma round_receives:
  assumes "system_inv P ws s" "sy_dispatcher s = Collecting q t h start es" "sy_channel s \<noteq> []"
    and "ok" "distinct (map url ws)" "ws \<noteq> []"
  obtains s' where "proceeds P s s'" "sy_queue s' = sy_queue s" "sy_asked s' = sy_asked s"
    "sy_dispatcher s' = Waiting \<or> collecting (sy_dispatcher s') \<and> work_left s' < work_left s"
proof -
  from assms(3) obtain i m ms where ch: "sy_channel s = (i, m) # ms" by (cases "sy_channel s") auto
  let ?es = "es @ [Some (sy_now s - start, i, m)]"
  let ?s = "settle P q t h start ?es (s\<lparr>sy_channel := ms\<rparr>)"
  have r: "receive_message P s = Some ?s" by (simp add: receive_message_def assms(2) ch)
  have "core_inv P ws (s\<lparr>sy_channel := ms, sy_dispatcher := Collecting q t h start ?es\<rparr>)"
    using assms(1,2) ch
    by (simp add: system_inv_def core_inv_def order_inv_collect order_inv_channel collecting_def round_inv_def arrived_def)
  from settle_goes_on[where s = "s\<lparr>sy_channel := ms\<rparr>", OF _ assms(4-6)] this
  have "sy_dispatcher ?s \<noteq> Stopped" by simp
  then have "sy_dispatcher ?s = Waiting \<or> ?s = s\<lparr>sy_channel := ms, sy_dispatcher := Collecting q t h start ?es\<rparr>"
    by (auto simp: settle_def split: option.splits sum.splits)
  then have "sy_dispatcher ?s = Waiting \<or> collecting (sy_dispatcher ?s) \<and> work_left ?s < work_left s"
    by (auto simp: collecting_def work_left_def ch)
  moreover have "sy_queue ?s = sy_queue s" "sy_asked ?s = sy_asked s"
    by (simp_all add: settle_def split: option.split sum.split)
  ultimately show ?thesis using that[OF proceed_receive[OF r]] by blast
qed

lemma round_steps:
  assumes "system_inv P ws s" "collecting (sy_dispatcher s)" "ok" "distinct (map url ws)" "ws \<noteq> []"
  obtains s' where "proceeds P s s'" "sy_queue s' = sy_queue s" "sy_asked s' = sy_asked s"
    "sy_dispatcher s' = Waiting \<or> collecting (sy_dispatcher s') \<and> work_left s' < work_left s"
proof -
  from assms(2) obtain q t h start es where d: "sy_dispatcher s = Collecting q t h start es"
    by (auto simp: collecting_def split: dispatcher.splits)
  consider i s' where "worker_receive P i s = Some s'" | i s' where "worker_send i s = Some s'"
    | "\<And>i. worker_receive P i s = None" "\<And>i. worker_send i s = None" by (metis option.exhaust)
  then show ?thesis
  proof cases
    case 1
    with worker_receive_work[OF 1] assms(2) show ?thesis by (intro that[OF proceed_worker[OF 1]]) auto
  next
    case 2
    with worker_send_work[OF 2] assms(2) show ?thesis by (intro that[OF proceed_send[OF 2]]) auto
  next
    case 3
    with resting_worker[OF assms(1)] round_decided_at_rest[OF assms(1) d _ _ assms(3-5)]
    have "sy_channel s \<noteq> []" by blast
    from round_receives[OF assms(1) d this assms(3-5)] that show ?thesis by blast
  qed
qed

lemma round_ends:
  assumes "system_inv P ws s" "collecting (sy_dispatcher s)" "ok" "distinct (map url ws)" "ws \<noteq> []"
  shows "\<exists>s'. (proceeds P)\<^sup>*\<^sup>* s s' \<and> sy_dispatcher s' = Waiting \<and> sy_queue s' = sy_queue s \<and> sy_asked s' = sy_asked s"
  using assms(1,2)
proof (induction "work_left s" arbitrary: s rule: less_induct)
  case less
  obtain s' where s': "proceeds P s s'" "sy_queue s' = sy_queue s" "sy_asked s' = sy_asked s"
    "sy_dispatcher s' = Waiting \<or> collecting (sy_dispatcher s') \<and> work_left s' < work_left s"
    by (rule round_steps[OF less.prems assms(3-5)])
  show ?case
  proof (cases "sy_dispatcher s' = Waiting")
    case False
    with s' less.hyps[OF _ proceeds_inv[OF s'(1) less.prems(1)]] show ?thesis
      by (metis converse_rtranclp_into_rtranclp)
  qed (use s' in blast)
qed

text \<open>Everything in the queue is answered.\<close>

lemma takes_task:
  assumes "system_inv P ws s" "sy_dispatcher s = Waiting" "sy_queue s = qt # rest"
    and "ok" "distinct (map url ws)" "ws \<noteq> []"
  obtains s' where "(proceeds P)\<^sup>*\<^sup>* s s'" "sy_dispatcher s' = Waiting" "sy_queue s' = rest" "sy_asked s' = sy_asked s"
proof -
  obtain q t where qt: "qt = (q, t)" by force
  obtain h where h: "pr_order P h" using some_order by blast
  let ?s = "s\<lparr>sy_queue := rest, sy_log := sy_log s @ [pr_cast P t], sy_channel := []\<rparr>"
  let ?s' = "settle P q t h (sy_now s) [] ?s"
  have k: "take_task P h s = Some ?s'" by (simp add: take_task_def assms(2,3) qt)
  have same: "sy_queue ?s' = rest" "sy_asked ?s' = sy_asked s"
    by (simp_all add: settle_def split: option.split sum.split)
  have inv: "system_inv P ws ?s'" using assms(1) h k by (rule take_task_inv)
  have "core_inv P ws (?s\<lparr>sy_dispatcher := Collecting q t h (sy_now s) []\<rparr>)"
    using take_task_core[OF assms(1) h assms(2)] by (simp add: assms(3) qt)
  from settle_goes_on[OF this assms(4-6)] have "sy_dispatcher ?s' \<noteq> Stopped" .
  then consider "sy_dispatcher ?s' = Waiting" | "collecting (sy_dispatcher ?s')"
    by (cases "sy_dispatcher ?s'") (auto simp: collecting_def)
  then show ?thesis
  proof cases
    case 1
    with same k show ?thesis by (intro that[of ?s']) (auto intro: proceed_take[OF h])
  next
    case 2
    from round_ends[OF inv 2 assms(4-6)] same obtain s' where "(proceeds P)\<^sup>*\<^sup>* ?s' s'" "sy_dispatcher s' = Waiting"
      "sy_queue s' = rest" "sy_asked s' = sy_asked s" by auto
    with k show ?thesis by (intro that[of s']) (auto intro: converse_rtranclp_into_rtranclp proceed_take[OF h])
  qed
qed

lemma queue_empties:
  assumes "system_inv P ws s" "sy_dispatcher s = Waiting" "ok" "distinct (map url ws)" "ws \<noteq> []"
  shows "\<exists>s'. (proceeds P)\<^sup>*\<^sup>* s s' \<and> sy_dispatcher s' = Waiting \<and> sy_queue s' = [] \<and> sy_asked s' = sy_asked s"
  using assms(1,2)
proof (induction "sy_queue s" arbitrary: s)
  case (Cons qt rest)
  obtain s' where s': "(proceeds P)\<^sup>*\<^sup>* s s'" "sy_dispatcher s' = Waiting" "sy_queue s' = rest" "sy_asked s' = sy_asked s"
    by (rule takes_task[OF Cons.prems Cons.hyps(2)[symmetric] assms(3-5)])
  with Cons.hyps(1)[of s'] proceeds_rtranclp_inv[OF s'(1) Cons.prems(1)] show ?case
    by (metis rtranclp_trans)
qed auto

text \<open>No query's channel is dropped, so that the dispatcher never stops.\<close>

lemma answer_given:
  assumes "answer_inv P ws asked log q r" "log ! q = pr_cast P (asked ! q)" "ok" "distinct (map url ws)" "ws \<noteq> []"
  shows "r \<noteq> None"
proof -
  from assms(1) obtain h sched skipped where h: "pr_order P h" and i: "\<forall>t i. Some (t, i) \<in> set sched \<longrightarrow> i < length ws" and
    r: "map_option (\<lambda>r. case r of Inr ev \<Rightarrow> Some ev | Inl _ \<Rightarrow> None) (pr_deal P h (length ws) (asked ! q)
      (map (map_option (\<lambda>(t, i). (t, message_of P log (skipped i) q (ws ! i)))) sched)) = Some r"
    unfolding answer_inv_def by blast
  let ?ws = "map (\<lambda>i. client_after P log (skipped i) q (ws ! i)) [0..<length ws]"
  have "map url ?ws = map url ws" by (rule nth_equalityI) (simp_all add: url_client_after assms(3))
  then have d: "distinct (map url ?ws)" using assms(4) by simp
  let ?deal = "pr_deal P h (length ws) (asked ! q)
      (map (map_option (\<lambda>(t, i). (t, message_of P log (skipped i) q (ws ! i)))) sched)"
  have "?deal \<noteq> Some (Inl f)" for f
    using no_panic[OF assms(3) h d, of sched] i assms(5) unfolding events_of_clients[OF i assms(2)] by simp
  with r show ?thesis by (cases ?deal) (auto split: sum.splits)
qed

lemma all_given:
  assumes "running P ws s" "ok" "distinct (map url ws)" "ws \<noteq> []"
  shows "None \<notin> snd ` set (sy_answers s)" "sy_dispatcher s \<noteq> Stopped"
proof -
  have o: "order_inv P s" using assms(1) by (rule running_order)
  have "r \<noteq> None" if "(q, r) \<in> set (sy_answers s)" for q r
    using answer_given[OF running_answer[OF assms(1) that] _ assms(2-4)] answers_before[OF o that] o
    by (simp add: order_inv_def)
  then show n: "None \<notin> snd ` set (sy_answers s)" by fastforce
  show "sy_dispatcher s \<noteq> Stopped"
    using running_inv[OF assms(1)] n by (auto simp: system_inv_def open_inv_def)
qed

text \<open>Whatever the state, all that was asked can be answered without anything from outside.\<close>

lemma completes:
  assumes "running P ws s" "ok" "distinct (map url ws)" "ws \<noteq> []"
  obtains s' where "(proceeds P)\<^sup>*\<^sup>* s s'" "running P ws s'" "sy_asked s' = sy_asked s"
    "map fst (sy_answers s') = [0..<length (sy_asked s)]" "None \<notin> snd ` set (sy_answers s')"
proof -
  have inv: "system_inv P ws s" using assms(1) by (rule running_inv)
  obtain s1 where s1: "(proceeds P)\<^sup>*\<^sup>* s s1" "sy_dispatcher s1 = Waiting" "sy_asked s1 = sy_asked s"
  proof (cases "sy_dispatcher s")
    case Waiting
    with that[of s] show thesis by blast
  next
    case (Collecting q t h start es)
    then have "collecting (sy_dispatcher s)" by (simp add: collecting_def)
    from round_ends[OF inv this assms(2-4)] that show thesis by blast
  next
    case Stopped
    with all_given(2)[OF assms] show thesis by blast
  qed
  obtain s2 where s2: "(proceeds P)\<^sup>*\<^sup>* s1 s2" "sy_dispatcher s2 = Waiting" "sy_queue s2 = []" "sy_asked s2 = sy_asked s1"
    using queue_empties[OF proceeds_rtranclp_inv[OF s1(1) inv] s1(2) assms(2-4)] by blast
  from s1(1) s2(1) have p: "(proceeds P)\<^sup>*\<^sup>* s s2" by (rule rtranclp_trans)
  then have r: "running P ws s2" using assms(1) by (rule proceeds_running)
  from running_order[OF r] s2(2,3) have "map fst (sy_answers s2) = [0..<length (sy_asked s2)]"
    by (auto simp: order_inv_def)
  with that[OF p r] s1(3) s2(4) all_given(1)[OF r assms(2-4)] show thesis by simp
qed

end

end
