(* ===== verification/Sol_Tasks.thy ===== *)
theory Sol_Tasks
  imports Sol_Async_Progress Sol_Lists
begin

text \<open>
  \<open>chains/sol.rs\<close>, the five kinds of tasks as a protocol of the running client: what \<open>deal_get_...\<close>
  broadcasts (\<open>InnerTaskEvent\<close>), what a worker does with it (\<open>start_client_workers\<close>) and how the dispatcher
  goes through a round (\<open>start_dispatcher\<close>). Shown: the running client's answers are those of \<open>dispatch\<close>, and
  its rounds end (\<open>sol\<close> interprets \<open>deciding\<close>).
\<close>

subsection \<open>Broadcasts and messages\<close>

text \<open>The options of a signature query travel as a tuple.\<close>

datatype 'c inner_task_event =
    Inner_GetTransaction signature "'c option"
  | Inner_GetSlot "'c option"
  | Inner_GetAccountInfo pubkey "'c option"
  | Inner_GetSignaturesForAddress pubkey "(signature option \<times> signature option \<times> u64 option \<times> 'c option) option"
  | Inner_GetProgramAccounts pubkey "'c option"

fun inner_event :: "'c task_event \<Rightarrow> 'c inner_task_event" where
  "inner_event (Task_GetTransaction sig config) = Inner_GetTransaction sig config"
| "inner_event (Task_GetSlot config) = Inner_GetSlot config"
| "inner_event (Task_GetAccountInfo key config) = Inner_GetAccountInfo key config"
| "inner_event (Task_GetSignaturesForAddress key config) =
     Inner_GetSignaturesForAddress key
       (map_option (\<lambda>c. (sc_before c, sc_until c, sc_limit c, sc_commitment c)) config)"
| "inner_event (Task_GetProgramAccounts key config) = Inner_GetProgramAccounts key config"

text \<open>A message of a worker; the type of a round's channel admits one of these.\<close>

datatype ('tx, 'acc, 'sg) inner_reply =
    Reply_Transaction "'tx inner_message"
  | Reply_Slot "u64 inner_message"
  | Reply_Account "'acc option inner_message"
  | Reply_Signatures "'sg list inner_message"
  | Reply_Program_Accounts "(pubkey \<times> 'acc) list inner_message"

fun client_worker ::
    "('w, 'c, 'tx, 'acc, 'sg) sol_rpc_api \<Rightarrow> 'c inner_task_event \<Rightarrow> 'w \<Rightarrow> ('tx, 'acc, 'sg) inner_reply \<times> 'w" where
  "client_worker R (Inner_GetTransaction sig tx_config) w =
     apfst Reply_Transaction (client_worker_do_get_transaction R tx_config sig w)"
| "client_worker R (Inner_GetSlot commitment_config) w =
     apfst Reply_Slot (client_worker_do_get_slot R commitment_config w)"
| "client_worker R (Inner_GetAccountInfo key config) w =
     apfst Reply_Account (client_worker_do_get_account R config key w)"
| "client_worker R (Inner_GetSignaturesForAddress key config) w =
     apfst Reply_Signatures (client_worker_do_get_signatures_for_address R
       (map_option (\<lambda>(before, until, limit, commitment).
          \<lparr>sc_before = before, sc_until = until, sc_limit = limit, sc_commitment = commitment\<rparr>) config) key w)"
| "client_worker R (Inner_GetProgramAccounts key config) w =
     apfst Reply_Program_Accounts (client_worker_do_get_program_accounts R config key w)"

subsection \<open>Rounds\<close>

text \<open>The events of a round as the loop of its task reads them: \<open>pick\<close> is the type of the round's channel.\<close>

definition inner_events :: "('r \<Rightarrow> 'a inner_message option) \<Rightarrow> (nat \<times> 'r) option list \<Rightarrow> 'a inner_event list" where
  "inner_events pick =
     List.map_filter (\<lambda>e. case e of
        None \<Rightarrow> Some Elapsed
      | Some (t, r) \<Rightarrow> map_option (\<lambda>(res, from). Message t res from) (pick r))"

fun deal_task ::
    "('tx, 'acc, 'sg) sol_json \<Rightarrow> 'sg hash_order \<Rightarrow> nat \<Rightarrow> 'c task_event
      \<Rightarrow> (nat \<times> ('tx, 'acc, 'sg) inner_reply) option list \<Rightarrow> ('tx, 'acc, 'sg) deal_result" where
  "deal_task S H rpc_num (Task_GetTransaction sig config) es =
     deal_get_transaction S rpc_num rpc_num
       (inner_events (\<lambda>r. case r of Reply_Transaction m \<Rightarrow> Some m | _ \<Rightarrow> None) es)"
| "deal_task S H rpc_num (Task_GetSlot config) es =
     deal_get_slot rpc_num rpc_num (inner_events (\<lambda>r. case r of Reply_Slot m \<Rightarrow> Some m | _ \<Rightarrow> None) es)"
| "deal_task S H rpc_num (Task_GetAccountInfo key config) es =
     deal_get_account_info S rpc_num rpc_num
       (inner_events (\<lambda>r. case r of Reply_Account m \<Rightarrow> Some m | _ \<Rightarrow> None) es)"
| "deal_task S H rpc_num (Task_GetSignaturesForAddress key config) es =
     deal_get_signatures_for_address S (order_senders H) rpc_num rpc_num
       (inner_events (\<lambda>r. case r of Reply_Signatures m \<Rightarrow> Some m | _ \<Rightarrow> None) es)"
| "deal_task S H rpc_num (Task_GetProgramAccounts key config) es =
     deal_get_program_accounts S (order_counts H) rpc_num rpc_num
       (inner_events (\<lambda>r. case r of Reply_Program_Accounts m \<Rightarrow> Some m | _ \<Rightarrow> None) es)"

definition sol_protocol ::
    "('w, 'c, 'tx, 'acc, 'sg) sol_rpc_api \<Rightarrow> ('tx, 'acc, 'sg) sol_json
      \<Rightarrow> ('c task_event, 'c inner_task_event, 'w, ('tx, 'acc, 'sg) inner_reply, 'sg hash_order,
          ('tx, 'acc, 'sg) response_event) protocol" where
  "sol_protocol R S =
     \<lparr>pr_cast = inner_event, pr_work = client_worker R, pr_order = orders_ok, pr_deal = deal_task S\<rparr>"

lemma sol_protocol_sel [simp]:
  "pr_cast (sol_protocol R S) = inner_event" "pr_work (sol_protocol R S) = client_worker R"
  "pr_order (sol_protocol R S) = orders_ok" "pr_deal (sol_protocol R S) = deal_task S"
  by (simp_all add: sol_protocol_def)

subsection \<open>A round is a round of \<open>dispatch\<close>\<close>

lemma inner_events_round:
  assumes "\<forall>t i. Some (t, i) \<in> set sched \<longrightarrow> i < length ws" "\<And>m. pick (C m) = Some m"
  shows "inner_events pick (map (map_option (\<lambda>(u, i). (u, C (fst (worker (ws ! i)))))) sched) =
    round_events (map (fst \<circ> worker) ws) sched"
  using assms(1)
proof (induction sched)
  case (Cons s sched)
  have "\<forall>t i. Some (t, i) \<in> set sched \<longrightarrow> i < length ws" using Cons.prems by simp
  note IH = Cons.IH[OF this]
  show ?case
  proof (cases s)
    case None
    with IH show ?thesis by (simp add: inner_events_def round_events_def List.map_filter_def)
  next
    case (Some x)
    obtain u i where x: "x = (u, i)" by force
    with Some Cons.prems have "i < length ws" by simp
    with IH Some x assms(2) show ?thesis
      by (simp add: inner_events_def round_events_def List.map_filter_def split: prod.split)
  qed
qed (simp add: inner_events_def round_events_def List.map_filter_def)

lemma config_roundtrip:
  "map_option (\<lambda>(before, until, limit, commitment).
      \<lparr>sc_before = before, sc_until = until, sc_limit = limit, sc_commitment = commitment\<rparr>)
    (map_option (\<lambda>c. (sc_before c, sc_until c, sc_limit c, sc_commitment c)) config) = config"
  by (cases config) simp_all

lemma deal_task_dispatch:
  fixes R :: "('w, 'c, 'tx, 'acc, 'sg) sol_rpc_api"
  assumes "\<forall>t i. Some (t, i) \<in> set sched \<longrightarrow> i < length ws"
  shows "deal_task S H (length ws) t (map (map_option (\<lambda>(u, i). (u, fst (client_worker R (inner_event t) (ws ! i))))) sched) =
    fst (dispatch R S H sched t ws)"
proof (cases t)
  case (Task_GetTransaction sig config)
  then show ?thesis
    using inner_events_round[OF assms, where C = "Reply_Transaction :: 'tx inner_message \<Rightarrow> ('tx, 'acc, 'sg) inner_reply" and
        worker = "client_worker_do_get_transaction R config sig"]
    by (simp add: dispatch_def run_workers_def Let_def)
next
  case (Task_GetSlot config)
  then show ?thesis
    using inner_events_round[OF assms, where C = "Reply_Slot :: u64 inner_message \<Rightarrow> ('tx, 'acc, 'sg) inner_reply" and worker = "client_worker_do_get_slot R config"]
    by (simp add: dispatch_def run_workers_def Let_def)
next
  case (Task_GetAccountInfo key config)
  then show ?thesis
    using inner_events_round[OF assms, where C = "Reply_Account :: 'acc option inner_message \<Rightarrow> ('tx, 'acc, 'sg) inner_reply" and
        worker = "client_worker_do_get_account R config key"]
    by (simp add: dispatch_def run_workers_def Let_def)
next
  case (Task_GetSignaturesForAddress key config)
  then show ?thesis
    using inner_events_round[OF assms, where C = "Reply_Signatures :: 'sg list inner_message \<Rightarrow> ('tx, 'acc, 'sg) inner_reply" and
        worker = "client_worker_do_get_signatures_for_address R config key"]
    by (simp add: dispatch_def run_workers_def Let_def config_roundtrip)
next
  case (Task_GetProgramAccounts key config)
  then show ?thesis
    using inner_events_round[OF assms, where C = "Reply_Program_Accounts :: (pubkey \<times> 'acc) list inner_message \<Rightarrow> ('tx, 'acc, 'sg) inner_reply" and
        worker = "client_worker_do_get_program_accounts R config key"]
    by (simp add: dispatch_def run_workers_def Let_def)
qed

lemma dispatch_workers: "snd (dispatch R S H sched t ws) = map (snd \<circ> client_worker R (inner_event t)) ws"
proof (cases t)
  case (Task_GetSignaturesForAddress key config)
  show ?thesis
    using config_roundtrip[of config]
    by (simp add: Task_GetSignaturesForAddress dispatch_def run_workers_def Let_def o_def)
qed (simp_all add: dispatch_def run_workers_def Let_def o_def)

subsection \<open>Rounds end, and without a panic\<close>

lemma most_frequent_parses:
  assumes "\<And>x. from (to x) = Some x" "set vs \<subseteq> range to"
  shows "bind_res (most_frequent (tally vs)) (\<lambda>v. unwrap_res site (from v)) \<noteq> Inl (Panic p)"
proof (cases "most_frequent (tally vs)")
  case (Inl f)
  then show ?thesis using most_frequent_no_panic[of "tally vs"] by (cases f) simp_all
next
  case (Inr v)
  then have "v \<in> set vs" by (simp add: most_frequent_Inr plurality_def)
  with assms obtain x where "v = to x" by blast
  with Inr assms(1) show ?thesis by simp
qed

lemma respond_panic:
  "respond ok failed r = Inl f \<longleftrightarrow> (\<exists>site. r = Decided (Inl (Panic site)) \<and> f = Panic site)"
  by (cases "(ok, failed, r)" rule: respond.cases) auto

lemma collected_values:
  assumes "collect n (\<lambda>a url. List.insert (f a, url)) decide [] es = Some (Decided d)"
  shows "\<exists>rs. d = decide rs \<and> set (map fst rs) \<subseteq> range f"
  using hset.decided[where f = f, OF assms] by fastforce

lemma round_no_panic:
  assumes "0 < n" "\<And>p. collect n ins decide [] es \<noteq> Some (Decided (Inl (Panic p)))"
  shows "open_round n n ok (map_option (respond ok failed) (collect n ins decide [] es)) \<noteq> Some (Inl f)"
  using assms by (auto simp: open_round_def respond_panic)

lemma values_no_panic:
  assumes "\<And>rs. set (map fst rs) \<subseteq> range f \<Longrightarrow> decide rs \<noteq> Inl (Panic p)"
  shows "collect n (\<lambda>a url. List.insert (f a, url)) decide [] es \<noteq> Some (Decided (Inl (Panic p)))"
proof
  assume "collect n (\<lambda>a url. List.insert (f a, url)) decide [] es = Some (Decided (Inl (Panic p)))"
  from collected_values[OF this] assms show False by metis
qed

lemma lists_no_panic:
  assumes "\<And>rs. decide rs \<noteq> Inl (Panic p)"
  shows "collect n (\<lambda>a url. AList.update url a) decide [] es \<noteq> Some (Decided (Inl (Panic p)))"
proof
  assume "collect n (\<lambda>a url. AList.update url a) decide [] es = Some (Decided (Inl (Panic p)))"
  from hmap.decided[OF this] assms show False by (metis distinct.simps(1) list.map(1))
qed

lemma dispatch_no_panic:
  assumes "sol_json_ok S" "orders_ok H" "ws \<noteq> []"
  shows "fst (dispatch R S H sched t ws) \<noteq> Some (Inl f)"
proof -
  note json = assms(1)[unfolded sol_json_ok_def]
  have n: "0 < length ws" using assms(3) by simp
  have tx: "deal_get_transaction_res S rs \<noteq> Inl (Panic p)"
    if "set (map fst rs) \<subseteq> range (tx_to_vec S)" for rs p
    using json that unfolding deal_get_transaction_res_def by (intro most_frequent_parses) auto
  have acc: "deal_get_account_res S rs \<noteq> Inl (Panic p)" if "set (map fst rs) \<subseteq> range (acc_to_vec S)" for rs p
    using json that unfolding deal_get_account_res_def by (intro most_frequent_parses) auto
  have slot: "deal_get_slot_res rs \<noteq> Inl (Panic p)" for rs p
    by (simp add: deal_get_slot_res_def most_frequent_no_panic)
  have sigs: "deal_get_signatures_for_address_res S it rs \<noteq> Inl (Panic p)" for it rs p
    using json by (simp add: deal_get_signatures_for_address_res_def Let_def unwrap_counted)
  have pacc: "deal_get_program_accounts_res S (order_counts H) rs \<noteq> Inl (Panic p)" for rs p
    using unwrap_counted_order[where it = "order_counts H"] json assms(2)
    unfolding deal_get_program_accounts_res_def Let_def orders_ok_def by (metis sum.distinct(1))
  show ?thesis
    using values_no_panic[of "tx_to_vec S" "deal_get_transaction_res S", OF tx]
      values_no_panic[of "acc_to_vec S" "deal_get_account_res S", OF acc]
      values_no_panic[of "\<lambda>x. x" deal_get_slot_res, OF slot]
      lists_no_panic[of "deal_get_signatures_for_address_res S (order_senders H)", OF sigs]
      lists_no_panic[of "deal_get_program_accounts_res S (order_counts H)", OF pacc]
    by (cases t) (simp_all add: dispatch_def Let_def run_workers_def deal_get_transaction_def deal_get_slot_def
        deal_get_account_info_def deal_get_signatures_for_address_def deal_get_program_accounts_def
        round_no_panic[OF n])
qed

lemma set_heard: "set (List.map_filter (map_option snd) sched) = heard sched"
proof (rule set_eqI)
  fix i
  show "i \<in> set (List.map_filter (map_option snd) sched) \<longleftrightarrow> i \<in> heard sched"
    by (force simp: heard_def List.map_filter_def)
qed

lemma worker_url [simp]:
  "snd (fst (client_worker_do_get_transaction R c sig w)) = rpc_url R w"
  "snd (fst (client_worker_do_get_slot R c w)) = rpc_url R w"
  "snd (fst (client_worker_do_get_account R c key w)) = rpc_url R w"
  "snd (fst (client_worker_do_get_signatures_for_address R sc key w)) = rpc_url R w"
  "snd (fst (client_worker_do_get_program_accounts R c key w)) = rpc_url R w"
  by (simp_all add: worker_defs client_worker_do_def worker_message_def split: prod.split option.split)

lemma dispatch_ends:
  assumes "urls_ok R ws" "ws \<noteq> []" "sched_ok sched (length ws)" "{..<length ws} \<subseteq> heard sched"
  shows "fst (dispatch R S H sched t ws) \<noteq> None"
proof -
  have n: "0 < length ws" "length ws \<noteq> 0" using assms(2) by simp_all
  show ?thesis
    using assms(1) n
    by (cases t) (simp_all add: urls_ok_def dispatch_def Let_def run_workers_def open_round_def o_def
        deal_get_transaction_def deal_get_slot_def deal_get_account_info_def deal_get_signatures_for_address_def
        deal_get_program_accounts_def hset.round_heard_all[OF assms(3,4)] hmap.round_heard_all[OF assms(3,4)]
        hset.round_heard_all[where f = "\<lambda>x. x", OF assms(3,4)] del: not_None_eq)
qed

text \<open>An endpoint keeps its URL.\<close>

definition url_fixed :: "('w, 'c, 'tx, 'acc, 'sg) sol_rpc_api \<Rightarrow> bool" where
  "url_fixed R \<longleftrightarrow> (\<forall>e w. rpc_url R (snd (client_worker R e w)) = rpc_url R w)"

interpretation sol: deciding "sol_protocol R S" "rpc_url R" "url_fixed R \<and> sol_json_ok S" for R S
proof unfold_locales
  show "\<exists>h. pr_order (sol_protocol R S) h"
    by (rule exI[of _ "\<lparr>order_counts = id, order_senders = id\<rparr>"]) (simp add: orders_ok_def)
  fix ws h t f and sched :: schedule
  assume a: "url_fixed R \<and> sol_json_ok S" "pr_order (sol_protocol R S) h" "distinct (map (rpc_url R) ws)" "ws \<noteq> []" and
    s: "\<forall>t i. Some (t, i) \<in> set sched \<longrightarrow> i < length ws"
  show "pr_deal (sol_protocol R S) h (length ws) t (map (map_option (\<lambda>(u, i).
      (u, fst (pr_work (sol_protocol R S) (pr_cast (sol_protocol R S) t) (ws ! i))))) sched) \<noteq> Some (Inl f)"
    using a by (simp add: deal_task_dispatch[OF s] dispatch_no_panic)
  assume "{..<length ws} \<subseteq> set (List.map_filter (map_option snd) sched)"
  then show "pr_deal (sol_protocol R S) h (length ws) t (map (map_option (\<lambda>(u, i).
      (u, fst (pr_work (sol_protocol R S) (pr_cast (sol_protocol R S) t) (ws ! i))))) sched) \<noteq> None"
    using a s unfolding sol_protocol_sel deal_task_dispatch[OF s]
    by (intro dispatch_ends) (simp_all add: urls_ok_def sched_ok_def set_heard)
qed (simp add: url_fixed_def)

end
