(* ===== verification/Sol_Async_Properties.thy ===== *)
theory Sol_Async_Properties
  imports Sol_Tasks Sample_Sol
begin

text \<open>
  What the running Solana client promises to its queries: each answer is the answer of one round of
  \<open>dispatch\<close> on that query's task, queries are answered once and in their order, and as long as the
  dispatcher and the workers are scheduled every query is answered.
\<close>

subsection \<open>Runs of the dispatcher, one round after the other\<close>

fun dispatch_all ::
    "('w, 'c, 'tx, 'acc, 'sg) sol_rpc_api \<Rightarrow> ('tx, 'acc, 'sg) sol_json
      \<Rightarrow> ('sg hash_order \<times> schedule \<times> 'c task_event) list \<Rightarrow> 'w list
      \<Rightarrow> ('tx, 'acc, 'sg) deal_result list \<times> 'w list" where
  "dispatch_all R S [] ws = ([], ws)"
| "dispatch_all R S ((H, sched, task) # rounds) ws =
     (case dispatch R S H sched task ws of
        (r, ws) \<Rightarrow> (case dispatch_all R S rounds ws of (rs, ws) \<Rightarrow> (r # rs, ws)))"

lemma dispatch_all_Cons:
  "dispatch_all R S (x # rounds) ws =
     (let d = dispatch R S (fst x) (fst (snd x)) (snd (snd x)) ws; a = dispatch_all R S rounds (snd d)
      in (fst d # fst a, snd a))"
  by (cases x) (simp add: Let_def split: prod.split)

lemma dispatch_all_snoc:
  "fst (dispatch_all R S (rounds @ [(H, sched, task)]) ws) =
     fst (dispatch_all R S rounds ws) @ [fst (dispatch R S H sched task (snd (dispatch_all R S rounds ws)))]"
  "snd (dispatch_all R S (rounds @ [(H, sched, task)]) ws) =
     snd (dispatch R S H sched task (snd (dispatch_all R S rounds ws)))"
  by (induction rounds arbitrary: ws) (simp_all add: dispatch_all_Cons Let_def del: dispatch_all.simps(2))

text \<open>What a query receives: the response, or None from a dropped channel.\<close>

definition received :: "('tx, 'acc, 'sg) deal_result \<Rightarrow> ('tx, 'acc, 'sg) response_event option option" where
  "received = map_option (\<lambda>r. case r of Inr event \<Rightarrow> Some event | Inl _ \<Rightarrow> None)"

lemma received_ask_dispatcher:
  "fst (ask_dispatcher V task client) =
     received (fst (dispatch (env_rpc V) (env_json V) (env_order V) (env_schedule V) task (sol_extra_rpc client)))"
  by (simp add: ask_dispatcher_def received_def split: prod.split)

text \<open>An answer of the running client as a round of \<open>dispatch\<close>.\<close>

lemma answer_round:
  assumes "running (sol_protocol R S) ws s" "(q, r) \<in> set (sy_answers s)"
  obtains H sched skipped where "orders_ok H" "sched_ok sched (length ws)"
    "distinct (List.map_filter (map_option snd) sched)" "\<forall>i. \<forall>k \<in> skipped i. k + capacity \<le> q"
    "received (fst (dispatch R S H sched (sy_asked s ! q)
       (map (\<lambda>i. client_after (sol_protocol R S) (sy_log s) (skipped i) q (ws ! i)) [0..<length ws]))) = Some r"
proof -
  let ?P = "sol_protocol R S"
  from running_answer[OF assms] obtain H sched skipped where
    a: "pr_order ?P H" "\<forall>t i. Some (t, i) \<in> set sched \<longrightarrow> i < length ws"
      "distinct (List.map_filter (map_option snd) sched)" "\<forall>i. \<forall>k \<in> skipped i. k + capacity \<le> q" and
    r: "map_option (\<lambda>r. case r of Inr ev \<Rightarrow> Some ev | Inl _ \<Rightarrow> None)
      (pr_deal ?P H (length ws) (sy_asked s ! q)
        (map (map_option (\<lambda>(t, i). (t, message_of ?P (sy_log s) (skipped i) q (ws ! i)))) sched)) = Some r"
    unfolding answer_inv_def by blast
  let ?ws = "map (\<lambda>i. client_after ?P (sy_log s) (skipped i) q (ws ! i)) [0..<length ws]"
  have o: "order_inv ?P s" using assms(1) by (rule running_order)
  then have "sy_log s ! q = pr_cast ?P (sy_asked s ! q)"
    using answers_before[OF o assms(2)] by (simp add: order_inv_def)
  note e = events_of_clients[where P = ?P, OF a(2) this]
  have i: "\<forall>t i. Some (t, i) \<in> set sched \<longrightarrow> i < length ?ws" using a(2) by simp
  have "received (fst (dispatch R S H sched (sy_asked s ! q) ?ws)) = Some r"
    using r deal_task_dispatch[where R = R and S = S and H = H, OF i] unfolding e by (simp add: received_def)
  with that a show ?thesis by (auto simp: sched_ok_def)
qed

subsection \<open>The answers\<close>

text \<open>
  C3: interleaving changes no answer: whatever the order in which queries, dispatcher and workers make
  their steps, what a query receives is what \<open>ask_dispatcher\<close> returns for its task on some schedule that
  hears each worker at most once, with every endpoint as its earlier tasks left it, where a task is
  missing only if 1024 later ones were broadcast before this round.
\<close>

theorem async_answers:
  assumes "running (sol_protocol R S) ws s" "(q, r) \<in> set (sy_answers s)"
  shows "\<exists>V client skipped. env_rpc V = R \<and> env_json V = S \<and> orders_ok (env_order V) \<and>
    sched_ok (env_schedule V) (length ws) \<and> distinct (List.map_filter (map_option snd) (env_schedule V)) \<and>
    sol_judge_rpc client = judge \<and>
    sol_extra_rpc client = map (\<lambda>i. client_after (sol_protocol R S) (map inner_event (sy_asked s)) (skipped i) q (ws ! i)) [0..<length ws] \<and>
    (\<forall>i. \<forall>k \<in> skipped i. k + 1024 \<le> q) \<and>
    q < length (sy_asked s) \<and> fst (ask_dispatcher V (sy_asked s ! q) client) = Some r"
proof -
  have o: "order_inv (sol_protocol R S) s" using assms(1) by (rule running_order)
  have q: "q < length (sy_log s)" "q < length (sy_asked s)" using answers_before[OF o assms(2)] .
  have log: "client_after (sol_protocol R S) (sy_log s) sk q w =
      client_after (sol_protocol R S) (map inner_event (sy_asked s)) sk q w" for sk w
    using o q by (intro client_after_cong) (auto simp: order_inv_def)
  obtain H sched skipped where h: "orders_ok H" "sched_ok sched (length ws)"
    "distinct (List.map_filter (map_option snd) sched)" "\<forall>i. \<forall>k \<in> skipped i. k + capacity \<le> q"
    "received (fst (dispatch R S H sched (sy_asked s ! q)
       (map (\<lambda>i. client_after (sol_protocol R S) (sy_log s) (skipped i) q (ws ! i)) [0..<length ws]))) = Some r"
    by (rule answer_round[OF assms])
  let ?client = "\<lparr>sol_extra_rpc = map (\<lambda>i. client_after (sol_protocol R S) (sy_log s) (skipped i) q (ws ! i))
      [0..<length ws], sol_judge_rpc = judge\<rparr>"
  let ?V = "\<lparr>env_rpc = R, env_json = S, env_order = H, env_schedule = sched\<rparr>"
  show ?thesis
    using h q(2)
    by (intro exI[of _ ?V] exI[of _ ?client] exI[of _ skipped]) (simp add: log received_ask_dispatcher capacity_def)
qed

text \<open>The first \<open>n\<close> answers and the endpoints after them, as a run of the sequential dispatcher.\<close>

lemma sequential_rounds:
  assumes "running (sol_protocol R S) ws s" "length (sy_answers s) \<le> 1024" "n \<le> length (sy_answers s)"
  shows "\<exists>rounds. map (snd \<circ> snd) rounds = take n (sy_asked s) \<and>
    map received (fst (dispatch_all R S rounds ws)) = map (Some \<circ> snd) (take n (sy_answers s)) \<and>
    snd (dispatch_all R S rounds ws) = map (client_after (sol_protocol R S) (sy_log s) {} n) ws"
  using assms(3)
proof (induction n)
  case 0
  show ?case by (rule exI[of _ "[]"]) (simp add: client_after_def)
next
  case (Suc n)
  let ?P = "sol_protocol R S" and ?n = "length (sy_answers s)"
  have o: "order_inv ?P s" using assms(1) by (rule running_order)
  have len: "?n \<le> length (sy_log s)" "length (sy_log s) \<le> length (sy_asked s)"
    using answers_in_order(3)[OF assms(1)] o by (simp_all add: order_inv_def)
  from Suc obtain rounds where rounds: "map (snd \<circ> snd) rounds = take n (sy_asked s)"
      "map received (fst (dispatch_all R S rounds ws)) = map (Some \<circ> snd) (take n (sy_answers s))"
      "snd (dispatch_all R S rounds ws) = map (client_after ?P (sy_log s) {} n) ws" by (meson Suc_leD)
  have n: "n < ?n" using Suc.prems by simp
  have "fst (sy_answers s ! n) = n"
    using answers_in_order(1)[OF assms(1)] n by (metis add_0 diff_zero length_upt nth_map nth_upt)
  with n have m: "(n, snd (sy_answers s ! n)) \<in> set (sy_answers s)" by (metis nth_mem prod.collapse)
  obtain H sched skipped where sk: "\<forall>i. \<forall>k \<in> skipped i. k + capacity \<le> n" and
      r: "received (fst (dispatch R S H sched (sy_asked s ! n)
        (map (\<lambda>i. client_after ?P (sy_log s) (skipped i) n (ws ! i)) [0..<length ws]))) = Some (snd (sy_answers s ! n))"
    by (rule answer_round[OF assms(1) m])
  have "skipped i = {}" for i using sk n assms(2) by (fastforce simp: capacity_def)
  then have ws: "map (\<lambda>i. client_after ?P (sy_log s) (skipped i) n (ws ! i)) [0..<length ws] =
      map (client_after ?P (sy_log s) {} n) ws"
    by (intro nth_equalityI) simp_all
  have log: "sy_log s ! n = inner_event (sy_asked s ! n)" using o n len by (simp add: order_inv_def)
  let ?rounds = "rounds @ [(H, sched, sy_asked s ! n)]"
  have "map (snd \<circ> snd) ?rounds = take (Suc n) (sy_asked s)"
    using rounds(1) n len by (simp add: take_Suc_conv_app_nth)
  moreover have "map received (fst (dispatch_all R S ?rounds ws)) = map (Some \<circ> snd) (take (Suc n) (sy_answers s))"
    using rounds(2,3) r n by (simp add: dispatch_all_snoc ws take_Suc_conv_app_nth)
  moreover have "snd (dispatch_all R S ?rounds ws) = map (client_after ?P (sy_log s) {} (Suc n)) ws"
    using rounds(3) by (simp add: dispatch_all_snoc dispatch_workers client_after_Suc log)
  ultimately show ?case by blast
qed

text \<open>
  C7: up to 1024 broadcasts, an interleaved run is a run of the sequential dispatcher: the answers so far
  are those of \<open>dispatch\<close> on the tasks in the order of the queue, each round continuing with the
  endpoints as the round before left them.
\<close>

theorem async_sequential:
  assumes "running (sol_protocol R S) ws s" "length (sy_answers s) \<le> 1024"
  shows "\<exists>rounds. map (snd \<circ> snd) rounds = take (length (sy_answers s)) (sy_asked s) \<and>
    map received (fst (dispatch_all R S rounds ws)) = map (Some \<circ> snd) (sy_answers s)"
  using sequential_rounds[OF assms order_refl] by auto

text \<open>
  C8: queries are answered once, in the order in which they were taken into the queue; those in the queue
  are the next ones, at most one is being worked on, and neither the queue nor the channel of a round
  ever holds more than it has room for.
\<close>

theorem async_in_order:
  assumes "running (sol_protocol R S) ws s"
  shows "map fst (sy_answers s) = [0..<length (sy_answers s)] \<and>
    map fst (sy_queue s) = [length (sy_log s)..<length (sy_asked s)] \<and>
    length (sy_log s) - length (sy_answers s) \<le> 1 \<and> length (sy_answers s) \<le> length (sy_log s) \<and>
    length (sy_queue s) \<le> 1024 \<and> length (sy_channel s) \<le> length ws"
  using answers_in_order[OF assms] channel_room(1)[OF running_inv[OF assms]] by (simp add: capacity_def)

text \<open>
  C4: the client never gets stuck: with endpoints of different URLs and JSON forms that parse back, from
  every state it can reach the steps of the dispatcher and the workers alone lead to a state in which
  every query asked so far has a response.
\<close>

theorem async_completes:
  assumes "running (sol_protocol R S) ws s" "url_fixed R" "sol_json_ok S" "urls_ok R ws" "ws \<noteq> []"
  shows "\<exists>s'. (proceeds (sol_protocol R S))\<^sup>*\<^sup>* s s' \<and> running (sol_protocol R S) ws s' \<and> sy_asked s' = sy_asked s \<and>
    map fst (sy_answers s') = [0..<length (sy_asked s)] \<and> (\<forall>(q, r) \<in> set (sy_answers s'). r \<noteq> None)"
proof -
  have ok: "url_fixed R \<and> sol_json_ok S" and d: "distinct (map (rpc_url R) ws)"
    using assms(2-4) by (simp_all add: urls_ok_def)
  obtain s' where s': "(proceeds (sol_protocol R S))\<^sup>*\<^sup>* s s'" "running (sol_protocol R S) ws s'"
    "sy_asked s' = sy_asked s" "map fst (sy_answers s') = [0..<length (sy_asked s)]"
    "None \<notin> snd ` set (sy_answers s')"
    by (rule sol.completes[OF assms(1) ok d assms(5)])
  moreover from s'(5) have "\<forall>(q, r) \<in> set (sy_answers s'). r \<noteq> None" by force
  ultimately show ?thesis by blast
qed

subsection \<open>A sample run\<close>

text \<open>
  Two queries on the three sample endpoints: the second is put into the queue while the first is collected.
  The steps of a run do not look at \<open>pr_order\<close>, so that they are evaluated without it.
\<close>

definition id_order :: "string hash_order" where
  "id_order = \<lparr>order_counts = id, order_senders = id\<rparr>"

definition sample_steps where
  "sample_steps P =
     [send_task (Task_GetSlot None), take_task P id_order, worker_receive P 2, worker_receive P 0, worker_send 2,
      receive_message P, send_task (Task_GetTransaction [] None), worker_send 0, worker_receive P 1,
      receive_message P, wait_second P, worker_send 1, receive_message P]"

fun run_steps :: "('s \<Rightarrow> 's option) list \<Rightarrow> 's \<Rightarrow> 's option" where
  "run_steps [] s = Some s"
| "run_steps (f # fs) s = (case f s of None \<Rightarrow> None | Some s' \<Rightarrow> run_steps fs s')"

lemma running_steps:
  "run_steps fs s = Some s' \<Longrightarrow> running P ws s \<Longrightarrow>
   \<forall>f \<in> set fs. \<forall>t t'. running P ws t \<longrightarrow> f t = Some t' \<longrightarrow> running P ws t' \<Longrightarrow> running P ws s'"
proof (induction fs arbitrary: s)
  case (Cons f fs)
  from Cons.prems(1) obtain t where t: "f s = Some t" "run_steps fs t = Some s'" by (auto split: option.splits)
  from Cons.prems(3) have f: "\<forall>t t'. running P ws t \<longrightarrow> f t = Some t' \<longrightarrow> running P ws t'"
    and fs: "\<forall>f \<in> set fs. \<forall>t t'. running P ws t \<longrightarrow> f t = Some t' \<longrightarrow> running P ws t'"
    unfolding list.set ball_simps by (rule conjunct1, rule conjunct2)
  from f Cons.prems(2) t(1) have "running P ws t" by blast
  from Cons.IH[OF t(2) this fs] show ?case .
qed simp

lemma steps_order:
  "settle (P\<lparr>pr_order := g\<rparr>) = settle P" "take_task (P\<lparr>pr_order := g\<rparr>) = take_task P"
  "receive_message (P\<lparr>pr_order := g\<rparr>) = receive_message P" "wait_second (P\<lparr>pr_order := g\<rparr>) = wait_second P"
  "worker_receive (P\<lparr>pr_order := g\<rparr>) = worker_receive P"
proof -
  show "settle (P\<lparr>pr_order := g\<rparr>) = settle P" by (intro ext) (simp add: settle_def)
  note s = this
  show "take_task (P\<lparr>pr_order := g\<rparr>) = take_task P" "receive_message (P\<lparr>pr_order := g\<rparr>) = receive_message P"
    "wait_second (P\<lparr>pr_order := g\<rparr>) = wait_second P"
    by (intro ext; simp add: take_task_def receive_message_def wait_second_def s split: dispatcher.split list.split)+
  have "worker_step (P\<lparr>pr_order := g\<rparr>) = worker_step P" by (intro ext) (simp add: worker_step_def)
  then show "worker_receive (P\<lparr>pr_order := g\<rparr>) = worker_receive P" by (intro ext) (simp add: worker_receive_def)
qed

abbreviation "sample_protocol \<equiv> sol_protocol sample_sol_rpc sample_sol_json"

lemma sample_running:
  obtains s where "running sample_protocol (sol_extra_rpc sample_sol_client) s"
    "sy_answers s = [(0, Some (Resp_GetSlot (Inr 9)))]"
    "sy_asked s = [Task_GetSlot None, Task_GetTransaction [] None]"
proof -
  let ?P = "\<lparr>pr_cast = inner_event, pr_work = client_worker sample_sol_rpc, pr_order = \<lambda>_. True,
      pr_deal = deal_task sample_sol_json\<rparr>"
  let ?start = "start_system (sol_extra_rpc sample_sol_client)"
  have "case run_steps (sample_steps ?P) ?start of None \<Rightarrow> False
      | Some s \<Rightarrow> sy_answers s = [(0, Some (Resp_GetSlot (Inr 9)))] \<and>
          sy_asked s = [Task_GetSlot None, Task_GetTransaction [] None]"
    by code_simp
  then obtain s where s: "run_steps (sample_steps ?P) ?start = Some s"
    "sy_answers s = [(0, Some (Resp_GetSlot (Inr 9)))]" "sy_asked s = [Task_GetSlot None, Task_GetTransaction [] None]"
    by (auto split: option.splits)
  have p: "?P = sample_protocol\<lparr>pr_order := \<lambda>_. True\<rparr>" by (simp add: sol_protocol_def)
  have "pr_order sample_protocol id_order" by (simp add: orders_ok_def id_order_def)
  then have "running sample_protocol (sol_extra_rpc sample_sol_client) s"
    by (intro running_steps[OF s(1) run_start])
      (auto simp: sample_steps_def p steps_order intro: run_ask run_proceed[OF _ proceed_take]
        run_proceed[OF _ proceed_receive] run_proceed[OF _ proceed_wait] run_proceed[OF _ proceed_worker]
        run_proceed[OF _ proceed_send])
  with that s(2,3) show ?thesis by blast
qed

lemma try_rpc_same: "(\<And>w. snd (call w) = w) \<Longrightarrow> snd (try_rpc n call w) = w"
proof (induction n)
  case (Suc n)
  then have "snd (call w) = w" by blast
  then obtain r where "call w = (r, w)" by (cases "call w") simp
  with Suc show ?case by (cases r) simp_all
qed simp

lemma client_worker_do_same: "(\<And>w. snd (call w) = w) \<Longrightarrow> snd (client_worker_do call url w) = w"
  using try_rpc_same[of call] by (simp add: client_worker_do_def split: prod.split) (metis snd_conv)

lemma sample_client_ok:
  "url_fixed sample_sol_rpc" "urls_ok sample_sol_rpc (sol_extra_rpc sample_sol_client)" "sol_extra_rpc sample_sol_client \<noteq> []"
proof -
  have "snd (client_worker sample_sol_rpc e w) = w" for e w
    by (cases e)
      (auto simp: worker_defs sample_sol_rpc_def ep_answer_def account_call_def client_worker_do_same split: option.split)
  then show "url_fixed sample_sol_rpc" by (simp add: url_fixed_def)
qed (simp_all add: urls_ok_def sample_sol_client_def sample_sol_rpc_def)

theorem async_answers_witness:
  "\<exists>V client. fst (ask_dispatcher V (Task_GetSlot None) client) = Some (Some (Resp_GetSlot (Inr 9))) \<and>
     env_rpc V = sample_sol_rpc \<and> length (sol_extra_rpc client) = 3"
proof -
  obtain s where s: "running sample_protocol (sol_extra_rpc sample_sol_client) s"
    "sy_answers s = [(0, Some (Resp_GetSlot (Inr 9)))]" "sy_asked s = [Task_GetSlot None, Task_GetTransaction [] None]"
    by (rule sample_running)
  have "(0, Some (Resp_GetSlot (Inr 9))) \<in> set (sy_answers s)" by (simp add: s(2))
  from async_answers[OF s(1) this] s(3) show ?thesis
    by (fastforce simp: sample_sol_client_def)
qed

theorem async_sequential_witness:
  "\<exists>rounds. map (snd \<circ> snd) rounds = [Task_GetSlot None] \<and>
     map received (fst (dispatch_all sample_sol_rpc sample_sol_json rounds (sol_extra_rpc sample_sol_client))) =
       [Some (Some (Resp_GetSlot (Inr 9)))]"
proof -
  obtain s where s: "running sample_protocol (sol_extra_rpc sample_sol_client) s"
    "sy_answers s = [(0, Some (Resp_GetSlot (Inr 9)))]" "sy_asked s = [Task_GetSlot None, Task_GetTransaction [] None]"
    by (rule sample_running)
  have "length (sy_answers s) \<le> 1024" by (simp add: s(2))
  from async_sequential[OF s(1) this] s(2,3) show ?thesis by simp
qed

theorem async_in_order_witness:
  "\<exists>s. running sample_protocol (sol_extra_rpc sample_sol_client) s \<and> map fst (sy_answers s) = [0] \<and>
     map fst (sy_queue s) = [length (sy_log s)..<2]"
proof -
  obtain s where s: "running sample_protocol (sol_extra_rpc sample_sol_client) s"
    "sy_answers s = [(0, Some (Resp_GetSlot (Inr 9)))]" "sy_asked s = [Task_GetSlot None, Task_GetTransaction [] None]"
    by (rule sample_running)
  from async_in_order[OF s(1)] s show ?thesis by (intro exI[of _ s]) (simp add: numeral_2_eq_2)
qed

theorem async_completes_witness:
  "\<exists>s'. running sample_protocol (sol_extra_rpc sample_sol_client) s' \<and>
     map fst (sy_answers s') = [0, 1] \<and> (\<forall>(q, r) \<in> set (sy_answers s'). r \<noteq> None)"
proof -
  obtain s where s: "running sample_protocol (sol_extra_rpc sample_sol_client) s"
    "sy_asked s = [Task_GetSlot None, Task_GetTransaction [] None]"
    using sample_running by blast
  from async_completes[OF s(1) sample_client_ok(1) sample_sol_json_ok sample_client_ok(2,3)] s(2)
  show ?thesis by (auto simp: upt_rec)
qed

end
