(* ===== verification/Crash_Safety.thy ===== *)
theory Crash_Safety
  imports Indexer_Properties
begin

text \<open>
  What is left when the process is killed during a synchronisation (\<open>index.rs\<close>, \<open>store.rs\<close>). The rows of
  new headers are written in batches of 50000, each applied as a whole and synced (\<open>DBFlush::Enable\<close>),
  then the tip row. Shown: after any number of these writes the database opens to a valid store; and what
  the next synchronisation makes of headers that were written without their tip.
\<close>

subsection \<open>The writes of a synchronisation\<close>

definition sync_batches :: "codec \<Rightarrow> block_hash \<Rightarrow> header_entry list \<Rightarrow> ('e, db_row list list) res" where
  "sync_batches C tip to_add =
     bind_res (add_sync_headers C to_add) (\<lambda>rows.
       Inr (chunks 50000 rows @ [[\<lparr>row_key = [0x74], row_value = ser_hash C tip\<rparr>]]))"

definition killed_after ::
    "'db kv_api \<Rightarrow> codec \<Rightarrow> block_hash \<Rightarrow> header_entry list \<Rightarrow> nat \<Rightarrow> ('db, 'e, unit) act" where
  "killed_after K C tip to_add j =
     bind_act (ret_act (sync_batches C tip to_add)) (\<lambda>batches. write_rows K C (take j batches))"

lemma write_rows_append:
  "write_rows K C (xs @ ys) = bind_act (write_rows K C xs) (\<lambda>_. write_rows K C ys)"
  by (induction xs) (auto simp: fun_eq_iff bind_act_def split: prod.split sum.split)

text \<open>With a healthy disk all writes together leave the database that a synchronisation leaves.\<close>

lemma db_put_sync_write:
  assumes "kv_ok K" "codec_ok C U"
  shows "db_put_sync K C k v = (db_write K C [\<lparr>row_key = k, row_value = v\<rparr>] Enable :: ('db, 'e, unit) act)"
proof
  fix db
  obtain w where w: "seal C v = Some w" using codec_okD(1)[OF assms(2)] by blast
  obtain db' where "kv_write K (flush_options Enable) db [(k, w)] = Some db'" using kv_okD(2)[OF assms(1)] by blast
  with w show "db_put_sync K C k v db = (db_write K C [\<lparr>row_key = k, row_value = v\<rparr>] Enable db :: ('e, unit) res \<times> 'db)"
    by (simp add: db_put_sync_def db_write_def bind_act_def write_batch_def seal_data_def
        flush_options_def default_options_def)
qed

lemma db_reload_store: "reload_store K C bh s = (r, s') \<Longrightarrow> sync_db s' = sync_db s"
  by (auto simp: reload_store_def Let_def split: sum.splits)

lemma db_finish_sync:
  "(finish_sync K C bh tip es s :: ('v index_error, unit) res \<times> _) = (r, s') \<Longrightarrow> sync_db s' = sync_db s"
  by (auto simp: finish_sync_def apply_sync_def bind_act_def dest: db_reload_store split: sum.splits prod.splits if_splits)

lemma index_headers_parts:
  assumes "order_headers bh (sync_headers s) hs = (Inr es :: ('v index_error, header_entry list) res)"
  shows "(index_headers K C bh tip hs s :: ('v index_error, unit) res \<times> _) =
    (let to_add = sync_headers_to_add s es in
     bind_act (add_sync_block_header K C to_add) (\<lambda>_.
     bind_act (on_db (db_put_sync K C [0x74] (ser_hash C tip))) (\<lambda>_. finish_sync K C bh tip to_add)) s)"
  using assms by (simp add: index_headers_def finish_sync_def bind_act_def Let_def)

lemma header_batches:
  assumes "codec_ok C U" "\<forall>e \<in> set es. length (he_hash e) = 32"
  shows "\<exists>rows. add_sync_headers C es = (Inr rows :: ('e, db_row list) res) \<and> length rows = 2 * length es \<and>
    (\<forall>k. add_sync_headers C (take k es) = (Inr (take (2 * k) rows) :: ('e, db_row list) res))"
  using assms(2)
proof (induction es)
  case (Cons e es)
  then obtain rows where rows: "add_sync_headers C es = (Inr rows :: ('e, db_row list) res)"
    "length rows = 2 * length es"
    "\<forall>k. add_sync_headers C (take k es) = (Inr (take (2 * k) rows) :: ('e, db_row list) res)" by auto
  obtain a b where ab: "add_sync_headers C (e # fs) =
      bind_res (add_sync_headers C fs) (\<lambda>rows. Inr (a # b # rows) :: ('e, db_row list) res)" for fs
    using Cons.prems by (simp add: full_hash_def first_sync_header_def)
  have "add_sync_headers C (take k (e # es)) = (Inr (take (2 * k) (a # b # rows)) :: ('e, db_row list) res)" for k
    using rows(3) by (cases k) (simp_all del: add_sync_headers.simps(2) add: ab)
  with rows(1,2) show ?case by (auto simp del: add_sync_headers.simps(2) simp: ab)
qed simp

text \<open>The first \<open>j\<close> batches are those of the first \<open>25000 j\<close> entries.\<close>

lemma killed_early:
  assumes "codec_ok C U" "\<forall>e \<in> set es. length (he_hash e) = 32" "j \<le> (length es + 24999) div 25000"
  shows "killed_after K C tip es j = (bind_act (ret_act (add_sync_headers C (take (25000 * j) es)))
    (\<lambda>rows. write_rows K C (chunks 50000 rows)) :: ('db, 'e, unit) act)"
proof -
  obtain rows where rows: "add_sync_headers C es = (Inr rows :: ('e, db_row list) res)" "length rows = 2 * length es"
    "\<forall>k. add_sync_headers C (take k es) = (Inr (take (2 * k) rows) :: ('e, db_row list) res)"
    using header_batches[OF assms(1,2)] by blast
  have "length (chunks 50000 rows) = (2 * length es + 49999) div 50000"
    using rows(2) by (simp add: length_chunks)
  also have "\<dots> = (length es + 24999) div 25000" by arith
  finally have "take j (chunks 50000 rows @ xs) = chunks 50000 (take (50000 * j) rows)" for xs
    using assms(3) by (simp add: take_chunks)
  with rows(1,3) show ?thesis
    by (simp add: killed_after_def sync_batches_def fun_eq_iff bind_act_def)
qed

lemma killed_late:
  assumes "codec_ok C U" "\<forall>e \<in> set es. length (he_hash e) = 32" "(length es + 24999) div 25000 < j"
  shows "killed_after K C tip es j = (bind_act (bind_act (ret_act (add_sync_headers C es))
      (\<lambda>rows. write_rows K C (chunks 50000 rows)))
    (\<lambda>_. db_write K C [\<lparr>row_key = [0x74], row_value = ser_hash C tip\<rparr>] Enable) :: ('db, 'e, unit) act)"
proof -
  obtain rows where rows: "add_sync_headers C es = (Inr rows :: ('e, db_row list) res)" "length rows = 2 * length es"
    using header_batches[OF assms(1,2)] by blast
  have "length (chunks 50000 rows) = (2 * length es + 49999) div 50000"
    using rows(2) by (simp add: length_chunks)
  also have "\<dots> = (length es + 24999) div 25000" by arith
  finally have "take j (chunks 50000 rows @ [x]) = chunks 50000 rows @ [x]" for x
    using assms(3) by simp
  with rows(1) show ?thesis
    by (auto simp: killed_after_def sync_batches_def write_rows_append fun_eq_iff bind_act_def
        split: prod.split sum.split)
qed

subsection \<open>What the disk keeps\<close>

text \<open>
  \<open>R db d\<close>: after a kill or a power failure with the database \<open>db\<close> the disk holds \<open>d\<close>. RocksDB promises that
  a write that is synced and logged, and all before it, survive.
\<close>

definition survives :: "'db kv_api \<Rightarrow> ('db \<Rightarrow> 'db \<Rightarrow> bool) \<Rightarrow> bool" where
  "survives K R \<longleftrightarrow> (\<forall>opts db batch db' d. kv_write K opts db batch = Some db' \<and> wo_sync opts \<and>
     \<not> wo_disable_wal opts \<and> R db' d \<longrightarrow> kv_contents K d = kv_contents K db')"

definition durable :: "'db kv_api \<Rightarrow> ('db \<Rightarrow> 'db \<Rightarrow> bool) \<Rightarrow> 'db \<Rightarrow> bool" where
  "durable K R db \<longleftrightarrow> (\<forall>d. R db d \<longrightarrow> kv_contents K d = kv_contents K db)"

lemma db_write_durable:
  assumes "survives K R" "db_write K C rows Enable db = (Inr () :: ('e, unit) res, db')"
  shows "durable K R db'"
proof -
  obtain batch where "kv_write K (flush_options Enable) db batch = Some db'"
    using assms(2) by (auto simp: db_write_def bind_act_def write_batch_def split: sum.splits option.splits)
  moreover have "wo_sync (flush_options Enable)" "\<not> wo_disable_wal (flush_options Enable)"
    by (simp_all add: flush_options_def)
  ultimately show ?thesis using assms(1) unfolding survives_def durable_def by blast
qed

lemma write_rows_durable:
  assumes "survives K R" "write_rows K C rss db = (Inr () :: ('e, unit) res, db')" "durable K R db"
  shows "durable K R db'"
  using assms(2,3)
proof (induction rss arbitrary: db)
  case (Cons rs rss)
  then obtain db1 where "db_write K C rs Enable db = (Inr () :: ('e, unit) res, db1)"
    "write_rows K C rss db1 = (Inr () :: ('e, unit) res, db')"
    by (auto simp: bind_act_Inr)
  with Cons.IH db_write_durable[OF assms(1)] show ?case by blast
qed simp

lemma killed_after_durable:
  assumes "survives K R" "killed_after K C tip to_add j db = (Inr () :: ('e, unit) res, db')" "durable K R db"
  shows "durable K R db'"
  using assms(2) write_rows_durable[OF assms(1) _ assms(3)] by (auto simp: killed_after_def bind_act_Inr)

subsection \<open>Opening the database after a kill\<close>

text \<open>A part of the new headers that is persisted is the rest of a part that was downloaded.\<close>

lemma order_headers_take:
  assumes "order_headers bh hl hs = (Inr es :: ('e, header_entry list) res)"
  shows "order_headers bh hl (take m hs) = (Inr (take m es) :: ('e, header_entry list) res)"
proof -
  have adj: "adjacent (\<lambda>a b. prev_blockhash b = bh a) (take m hs)"
    and es: "map he_header es = hs"
    using assms order_headers_headers[OF assms] by (auto simp: order_headers_eq adjacent_iff split: if_splits)
  have num: "number_headers bh n (take m hs) = take m (number_headers bh n hs)" for n
    by (simp add: number_headers_def take_map min_def)
  show ?thesis
  proof (cases "take m hs = []")
    case True
    with es have "take m es = []" by (metis map_is_Nil_conv take_map)
    moreover from True have "m = 0 \<or> hs = []" by simp
    ultimately show ?thesis by (auto simp: order_headers_eq)
  next
    case False
    with adj assms show ?thesis
      by (auto simp: order_headers_eq num hd_take split: if_splits option.splits)
  qed
qed

lemma take_filter: "\<exists>m. take k (filter P xs) = filter P (take m xs)"
proof (induction xs arbitrary: k)
  case (Cons x xs)
  show ?case
  proof (cases "P x")
    case True
    show ?thesis
    proof (cases k)
      case 0
      then show ?thesis by (intro exI[of _ 0]) simp
    next
      case (Suc i)
      obtain m where "take i (filter P xs) = filter P (take m xs)" using Cons.IH by blast
      with True Suc show ?thesis by (intro exI[of _ "Suc m"]) simp
    qed
  next
    case False
    obtain m where "take k (filter P xs) = filter P (take m xs)" using Cons.IH by blast
    with False show ?thesis by (intro exI[of _ "Suc m"]) simp
  qed
qed simp

lemma to_add_ok:
  assumes "hashes_ok bh U" "order_headers bh hl hs = (Inr es :: ('e, header_entry list) res)" "set hs \<subseteq> U"
  shows "entries_ok bh (sync_headers_to_add s es)" "he_header ` set (sync_headers_to_add s es) \<subseteq> U"
    "\<forall>e \<in> set (sync_headers_to_add s es). length (he_hash e) = 32"
proof -
  have es: "entries_ok bh es" "he_header ` set es = set hs"
    using order_headers_entries_ok[OF assms(2)] order_headers_headers[OF assms(2)] by (auto simp flip: set_map)
  with to_add_facts(2)[OF es(1)] to_add_facts(3)[of s es] assms(3)
  show e: "entries_ok bh (sync_headers_to_add s es)" "he_header ` set (sync_headers_to_add s es) \<subseteq> U"
    by blast+
  then show "\<forall>e \<in> set (sync_headers_to_add s es). length (he_hash e) = 32"
    using hashes_okD(2)[OF assms(1)] by (auto simp: entries_ok_def)
qed

lemma add_sync_block_header_db:
  assumes "add_sync_block_header K C es s = (Inr () :: ('e, unit) res, s')"
  shows "bind_act (ret_act (add_sync_headers C es)) (\<lambda>rows. write_rows K C (chunks 50000 rows)) (sync_db s) =
    (Inr () :: ('e, unit) res, sync_db s')"
  using assms by (auto simp: add_sync_block_header_def bind_act_def on_db_def split: prod.splits sum.splits)

text \<open>Before the tip row is written the old tip stays, whatever part of the headers is persisted.\<close>

lemma killed_before_tip:
  assumes "kv_ok K" "codec_ok C U" "hashes_ok bh U" "store_inv K C bh U s" "set hs \<subseteq> U"
    "order_headers bh (sync_headers s) hs = (Inr es :: ('e, header_entry list) res)"
    "to_add = sync_headers_to_add s es" "j \<le> (length to_add + 24999) div 25000"
  shows "\<exists>db. killed_after K C tip to_add j (sync_db s) = (Inr () :: ('e, unit) res, db) \<and>
    (\<forall>d. kv_contents K d = kv_contents K db \<longrightarrow>
       (\<exists>s'. store_open K C bh d = (Inr s' :: (unit, 'db store) res) \<and> store_inv K C bh U s' \<and> sync_db s' = d \<and>
          synced_blockhashes s' = synced_blockhashes s \<union> he_hash ` set (take (25000 * j) to_add) \<and>
          hl_tip (sync_headers s') = hl_tip (sync_headers s)))"
proof -
  let ?S = "synced_blockhashes s" and ?part = "take (25000 * j) to_add" and ?t = "hl_tip (sync_headers s)"
  note ok = to_add_ok[OF assms(3,6,5), of s, folded assms(7)]
  obtain m where m: "?part = sync_headers_to_add s (take m es)"
    using take_filter assms(7) by (metis sync_headers_to_add_def)
  have sub: "set (take m hs) \<subseteq> U" using set_take_subset[of m hs] assms(5) by blast
  note ordm = order_headers_take[OF assms(6), of m]
  note okm = to_add_ok[OF assms(3) ordm sub, of s, folded m]
  have S': "?S \<union> he_hash ` set ?part = ?S \<union> he_hash ` set (take m es)"
    using to_add_facts(1)[of "take m es" s] m by auto
  have inv: "sealed K C (sync_db s)" "db_inv C bh U (db_map K C (sync_db s)) ?S"
    "list_inv bh U ?S (sync_headers s)"
    using assms(4) by (simp_all add: store_inv_def)
  obtain db where db: "add_sync_block_header K C ?part s = (Inr () :: ('e, unit) res,
      s\<lparr>sync_db := db, synced_blockhashes := ?S \<union> he_hash ` set ?part\<rparr>)" "sealed K C db"
    "db_inv C bh U (db_map K C db) (?S \<union> he_hash ` set ?part)"
    "\<forall>k. db_map K C db [k] = db_map K C (sync_db s) [k]"
    using add_sync_block_header_ok[OF assms(1-3) inv(1,2) refl okm(1,2)] by blast
  have killed: "killed_after K C tip to_add j (sync_db s) = (Inr () :: ('e, unit) res, db)"
    using add_sync_block_header_db[OF db(1)] unfolding killed_early[OF assms(2) ok(3) assms(8)] by simp
  have anch: "\<forall>h \<in> ?S \<union> he_hash ` set ?part. anchored bh U (?S \<union> he_hash ` set ?part) h"
    using order_anchored[OF assms(4) ordm sub] unfolding S' by blast
  have "\<exists>s'. store_open K C bh d = (Inr s' :: (unit, 'db store) res) \<and> store_inv K C bh U s' \<and>
      sync_db s' = d \<and> synced_blockhashes s' = ?S \<union> he_hash ` set ?part \<and> hl_tip (sync_headers s') = ?t"
    if "kv_contents K d = kv_contents K db" for d
  proof -
    have d: "sealed K C d" "db_inv C bh U (db_map K C d) (?S \<union> he_hash ` set ?part)"
      "db_map K C d [0x74] = db_map K C (sync_db s) [0x74]"
      using db(2-4) by (simp_all add: same_contents[OF that])
    show ?thesis
    proof (cases "db_map K C (sync_db s) [0x74] = None")
      case True
      then have "?t = hl_tip hl_empty"
        using assms(4) by (auto simp: store_inv_def list_inv_def hl_inv_def hl_empty_def)
      with True show ?thesis using store_open_fresh[OF assms(1-3) d(1,2) anch] d(3) by auto
    next
      case False
      with assms(4) d anch have "db_at K C bh U d (?S \<union> he_hash ` set ?part) ?t"
        by (auto simp: db_at_def store_inv_def)
      with store_open_at[OF assms(1-3)] list_inv_anchored[OF inv(3)] show ?thesis
        by (meson anchored_mono sup_ge1)
    qed
  qed
  with killed show ?thesis by blast
qed

lemma killed_after_tip:
  assumes "kv_ok K" "codec_ok C U" "hashes_ok bh U" "store_inv K C bh U s" "set hs \<subseteq> U"
    "order_headers bh (sync_headers s) hs = (Inr es :: ('e, header_entry list) res)"
    "to_add = sync_headers_to_add s es" "(length to_add + 24999) div 25000 < j"
    "if hs = [] then known (sync_headers s) tip else bh (last hs) = tip"
  shows "\<exists>db. killed_after K C tip to_add j (sync_db s) = (Inr () :: ('e, unit) res, db) \<and>
    (\<forall>d. kv_contents K d = kv_contents K db \<longrightarrow>
       (\<exists>s'. store_open K C bh d = (Inr s' :: (unit, 'db store) res) \<and> store_inv K C bh U s' \<and> sync_db s' = d \<and>
          synced_blockhashes s' = synced_blockhashes s \<union> he_hash ` set to_add \<and>
          hl_tip (sync_headers s') = tip))"
proof -
  let ?S = "synced_blockhashes s \<union> he_hash ` set to_add" and ?row = "\<lparr>row_key = [0x74], row_value = ser_hash C tip\<rparr>"
  note ok = to_add_ok[OF assms(3,6,5), of s, folded assms(7)]
  have S': "?S = synced_blockhashes s \<union> he_hash ` set es"
    using to_add_facts(1)[of es s] assms(7) by auto
  have inv: "sealed K C (sync_db s)" "db_inv C bh U (db_map K C (sync_db s)) (synced_blockhashes s)"
    using assms(4) by (simp_all add: store_inv_def)
  obtain db1 where db1: "add_sync_block_header K C to_add s = (Inr () :: ('e, unit) res,
      s\<lparr>sync_db := db1, synced_blockhashes := ?S\<rparr>)" "sealed K C db1" "db_inv C bh U (db_map K C db1) ?S"
    using add_sync_block_header_ok[OF assms(1-3) inv refl ok(1,2)] by blast
  obtain db where db: "db_put_sync K C [0x74] (ser_hash C tip) db1 = (Inr () :: ('e, unit) res, db)"
    "sealed K C db" "db_map K C db = (db_map K C db1)([0x74] \<mapsto> ser_hash C tip)"
    using db_put_map(2)[OF assms(1,2) db1(2)] by blast
  have killed: "killed_after K C tip to_add j (sync_db s) = (Inr () :: ('e, unit) res, db)"
    using add_sync_block_header_db[OF db1(1)] db(1)
    unfolding killed_late[OF assms(2) ok(3) assms(8)] db_put_sync_write[OF assms(1,2)]
    by (simp add: bind_act_def)
  have "db_at K C bh U d ?S tip" if "kv_contents K d = kv_contents K db" for d
    using db1(3) db(2,3) order_anchored[OF assms(4,6,5)] unfolding S'
    by (simp add: db_at_def db_inv_loaded same_contents[OF that])
  with store_open_at[OF assms(1-3)] order_tip_anchored[OF assms(4,6,5,9)] killed
  show ?thesis unfolding S' by blast
qed

text \<open>A synchronisation that runs to its end leaves the database of all its writes.\<close>

lemma killed_after_all:
  assumes "kv_ok K" "codec_ok C U" "hashes_ok bh U" "store_inv K C bh U s" "set hs \<subseteq> U"
    "order_headers bh (sync_headers s) hs = (Inr es :: ('v index_error, header_entry list) res)"
    "to_add = sync_headers_to_add s es" "(length to_add + 24999) div 25000 < j"
    "killed_after K C tip to_add j (sync_db s) = (Inr () :: ('v index_error, unit) res, db)"
    "(index_headers K C bh tip hs s :: ('v index_error, unit) res \<times> _) = (r, s')"
  shows "sync_db s' = db"
proof -
  note ok = to_add_ok[OF assms(3,6,5), of s, folded assms(7)]
  have inv: "sealed K C (sync_db s)" "db_inv C bh U (db_map K C (sync_db s)) (synced_blockhashes s)"
    using assms(4) by (simp_all add: store_inv_def)
  obtain db1 S where db1: "add_sync_block_header K C to_add s = (Inr () :: ('v index_error, unit) res,
      s\<lparr>sync_db := db1, synced_blockhashes := S\<rparr>)" "sealed K C db1"
    using add_sync_block_header_ok[OF assms(1-3) inv refl ok(1,2)] by blast
  obtain db2 where db2: "db_put_sync K C [0x74] (ser_hash C tip) db1 = (Inr () :: ('v index_error, unit) res, db2)"
    using db_put_map(2)[OF assms(1,2) db1(2)] by blast
  have "killed_after K C tip to_add j (sync_db s) = (Inr () :: ('v index_error, unit) res, db2)"
    using add_sync_block_header_db[OF db1(1)] db2
    unfolding killed_late[OF assms(2) ok(3) assms(8)] db_put_sync_write[OF assms(1,2)]
    by (simp add: bind_act_def)
  with assms(9) have "db = db2" by simp
  moreover have "(index_headers K C bh tip hs s :: ('v index_error, unit) res \<times> _) =
      finish_sync K C bh tip to_add (s\<lparr>synced_blockhashes := S, sync_db := db2\<rparr>)"
    using db1(1) db2 unfolding index_headers_parts[OF assms(6)] by (simp add: bind_act_def on_db_def assms(7))
  ultimately have "db = db2" "finish_sync K C bh tip to_add
      (s\<lparr>synced_blockhashes := S, sync_db := db2\<rparr>) = (r, s')"
    using assms(10) by simp_all
  with db_finish_sync[OF this(2)] show ?thesis by simp
qed

subsection \<open>Headers persisted without their tip\<close>

lemma prev_hash_at_tip:
  assumes "hash_ok bh U" "list_inv bh U synced hl" "k \<le> length (headers hl)"
    "prev_hash_at (headers hl) k = hl_tip hl"
  shows "k = length (headers hl)"
proof (rule ccontr)
  assume less: "k \<noteq> length (headers hl)"
  let ?es = "headers hl"
  have inv: "hl_inv bh hl" and ch: "chain_ok bh ?es" "he_header ` set ?es \<subseteq> U"
    using assms(2) by (simp_all add: list_inv_def chain_of_def)
  have dist: "distinct (map he_hash ?es)" using chain_hash_distinct[OF ch(1) hash_ok_subset[OF assms(1) ch(2)]] .
  from less assms(3) have ne: "?es \<noteq> []" "k < length ?es" by auto
  then have tip: "hl_tip hl = he_hash (?es ! (length ?es - 1))" using inv by (simp add: hl_inv_def last_conv_nth)
  show False
  proof (cases "k = 0")
    case True
    have "he_header (?es ! (length ?es - 1)) \<in> U" using ch(2) ne(1) by (simp add: image_subset_iff)
    moreover have "bh (he_header (?es ! (length ?es - 1))) = null_hash"
      using True tip assms(4) ch(1) ne by (simp add: prev_hash_at_def chain_okD)
    ultimately show False using hash_okD(2)[OF assms(1)] by blast
  next
    case False
    with tip assms(4) have "he_hash (?es ! (k - 1)) = he_hash (?es ! (length ?es - 1))"
      by (simp add: prev_hash_at_def)
    with dist ne have "k - 1 = length ?es - 1"
      by (auto simp: distinct_conv_nth) (metis One_nat_def diff_less length_greater_0_conv lessI less_imp_diff_less)
    with False ne(2) show False by simp
  qed
qed

lemma apply_rest_panics:
  assumes "hash_ok bh U" "list_inv bh U synced hl"
    "order_headers bh hl hs = (Inr es :: ('e, header_entry list) res)" "hs \<noteq> []"
    "prev_blockhash (hd hs) = hl_tip hl" "rest \<noteq> []" "set rest \<subseteq> set es - {hd es}"
  shows "\<exists>site. apply_headers hl rest = (Inl (Panic site) :: ('f, header_list) res)"
proof -
  have inv: "hl_inv bh hl" using assms(2) by (simp add: list_inv_def)
  obtain k where k: "k \<le> length (headers hl)" "prev_blockhash (hd hs) = prev_hash_at (headers hl) k"
    "he_height (hd es) = k"
    using order_then_apply_aux[OF inv assms(3,4)] by blast
  have kl: "k = length (headers hl)"
    using prev_hash_at_tip[OF assms(1,2) k(1)] k(2) assms(5) by simp
  obtain n where n: "es = number_headers bh n hs"
    using assms(3) by (auto simp: order_headers_eq split: if_splits option.splits)
  have "length es = length hs" using n by simp
  with assms(4) have ne: "es \<noteq> []" "length hs \<noteq> 0" by auto
  then have "n = k" using k(3) n by (simp add: hd_conv_nth)
  moreover obtain i where i: "i < length es" "hd rest = es ! i"
    using assms(6,7) hd_in_set[OF assms(6)] by (metis Diff_iff in_set_conv_nth subsetD)
  moreover have "es ! i \<noteq> hd es" using assms(7) hd_in_set[OF assms(6)] i(2) by auto
  then have "i \<noteq> 0" using ne(1) by (metis hd_conv_nth)
  ultimately have "length (headers hl) < he_height (hd rest)" using n kl by simp
  with assms(6) show ?thesis by (auto simp: apply_headers_eq)
qed

lemma partly_synced_step:
  fixes J :: "'v json_api"
  assumes "kv_ok K" "codec_ok C U" "hashes_ok (block_hash_of B) U" "store_inv K C (block_hash_of B) U s"
    "honest J B send P" "P d" "get_new_headers J B send (sync_headers s) tip d = Some (Inr hs, d')"
    "set hs \<subseteq> U" "hs \<noteq> []" "prev_blockhash (hd hs) = hl_tip (sync_headers s)"
    "order_headers (block_hash_of B) (sync_headers s) hs = (Inr es :: ('v index_error, header_entry list) res)"
    "block_hash_of B (hd hs) \<in> synced_blockhashes s" "tip \<notin> synced_blockhashes s"
  shows "\<exists>site s'. sync_headers_step K C J B send tip (d, s) =
      Some (Inl (Panic site) :: ('v index_error, unit) res, d', s') \<and>
    (\<exists>s''. store_open K C (block_hash_of B) (sync_db s') = (Inr s'' :: (unit, 'db store) res) \<and>
      store_inv K C (block_hash_of B) U s'' \<and> hl_tip (sync_headers s'') = tip)"
proof -
  let ?bh = "block_hash_of B" and ?S = "synced_blockhashes s \<union> he_hash ` set es"
  let ?add = "sync_headers_to_add s es"
  have hdrs: "map he_header es = hs" using order_headers_headers[OF assms(11)] .
  then have ne: "es \<noteq> []" using assms(9) by auto
  have hash: "he_hash e = ?bh (he_header e)" if "e \<in> set es" for e
    using order_headers_entries_ok[OF assms(11)] that by (auto simp: entries_ok_def)
  have ends: "if hs = [] then known (sync_headers s) tip else ?bh (last hs) = tip"
    using get_new_headers_ends[OF assms(7,5,6)] .
  have first: "hd es \<notin> set ?add"
    using assms(12) hash[of "hd es"] ne hdrs by (auto simp: sync_headers_to_add_def hd_map)
  have "he_hash (last es) = tip" using ends hash[of "last es"] ne assms(9) hdrs by (auto simp: last_map)
  then have "last es \<in> set ?add" using ne assms(13) by (simp add: sync_headers_to_add_def)
  then have rest: "?add \<noteq> []" "set ?add \<subseteq> set es - {hd es}"
    using first to_add_facts(3)[of s es] by auto
  have li: "list_inv ?bh U (synced_blockhashes s) (sync_headers s)" using assms(4) by (simp add: store_inv_def)
  obtain site where site: "apply_headers (sync_headers s) ?add = (Inl (Panic site) :: ('v index_error, header_list) res)"
    using apply_rest_panics[OF hashes_okD(1)[OF assms(3)] li assms(11,9,10) rest] by blast
  obtain db' where db': "db_at K C ?bh U db' ?S tip"
    "(index_headers K C ?bh tip hs s :: ('v index_error, unit) res \<times> _) =
      finish_sync K C ?bh tip ?add (s\<lparr>synced_blockhashes := ?S, sync_db := db'\<rparr>)"
    using index_headers_persists[OF assms(1-4,8,11)] by blast
  have "(index_headers K C ?bh tip hs s :: ('v index_error, unit) res \<times> _) =
      (Inl (Panic site), s\<lparr>synced_blockhashes := ?S, sync_db := db'\<rparr>)"
    using site unfolding db'(2) by (simp add: finish_sync_def apply_sync_def bind_act_def)
  note step = sync_headers_step_index[OF assms(7) this]
  have "\<exists>s''. store_open K C ?bh db' = (Inr s'' :: (unit, 'db store) res) \<and> store_inv K C ?bh U s'' \<and>
      hl_tip (sync_headers s'') = tip"
    using store_open_at[OF assms(1-3) db'(1) order_tip_anchored[OF assms(4,11,8) ends]] by blast
  with step show ?thesis by auto
qed

subsection \<open>Properties\<close>

text \<open>
  C11: a synchronisation with a node that returns the headers it is asked for (\<open>honest\<close>; the sync does not check
  their hashes) is cut off, by a kill or a power failure, after any number of its writes, on a disk that
  keeps synced and logged writes: what the disk holds opens to a valid store, with the blocks it had before and
  those of the batches written. Its tip is the old one until the tip row is written, and then the tip asked for;
  with all writes done the database is the one the synchronisation leaves.
\<close>

theorem killed_sync_reopens:
  assumes "kv_ok K" "codec_ok C U" "hashes_ok (block_hash_of B) U" "store_inv K C (block_hash_of B) U s"
    "honest J B send P" "P d" "get_new_headers J B send (sync_headers s) tip d = Some (Inr hs, d')" "set hs \<subseteq> U"
    "order_headers (block_hash_of B) (sync_headers s) hs = (Inr es :: ('v index_error, header_entry list) res)"
    "to_add = sync_headers_to_add s es" "batches = (length to_add + 24999) div 25000"
    "killed_after K C tip to_add j (sync_db s) = (r :: ('v index_error, unit) res, db)"
    "survives K R" "durable K R (sync_db s)" "R db disk"
  shows "r = Inr () \<and>
    (\<exists>s'. store_open K C (block_hash_of B) disk = (Inr s' :: (unit, 'db store) res) \<and>
       store_inv K C (block_hash_of B) U s' \<and>
       synced_blockhashes s' = synced_blockhashes s \<union> he_hash ` set (take (25000 * j) to_add) \<and>
       hl_tip (sync_headers s') = (if j \<le> batches then hl_tip (sync_headers s) else tip)) \<and>
    (batches < j \<longrightarrow>
       db = sync_db (snd (index_headers K C (block_hash_of B) tip hs s :: ('v index_error, unit) res \<times> _)))"
proof -
  have kept: "kv_contents K disk = kv_contents K db" if "r = Inr ()"
    using killed_after_durable[OF assms(13) assms(12)[unfolded that] assms(14)] assms(15)
    by (simp add: durable_def)
  show ?thesis
  proof (cases "j \<le> batches")
    case True
    with killed_before_tip[OF assms(1-4,8-10), of j tip] kept assms(11,12) show ?thesis by fastforce
  next
    case False
    have ends: "if hs = [] then known (sync_headers s) tip else block_hash_of B (last hs) = tip"
      using get_new_headers_ends[OF assms(7,5,6)] .
    obtain r' s' where ix: "(index_headers K C (block_hash_of B) tip hs s :: ('v index_error, unit) res \<times> _) = (r', s')"
      by force
    have late: "(length to_add + 24999) div 25000 < j" using False assms(11) by simp
    then have "length to_add \<le> 25000 * j" by arith
    with killed_after_tip[OF assms(1-4,8-10) late ends] killed_after_all[OF assms(1-4,8-10) late _ ix, of db]
      kept assms(12) False ix
    show ?thesis by fastforce
  qed
qed

lemma sample_order:
  "order_headers sample_hash sample_genesis [sample_headers ! 1, sample_headers ! 2] =
     (Inr (number_headers sample_hash 1 [sample_headers ! 1, sample_headers ! 2]) :: ('e, header_entry list) res)"
  by (simp add: order_headers_eq header_by_blockhash_def sample_genesis_eq sample_headers_def
      sample_header_def sample_hash_def null_hash_Cons adjacent_iff)

lemma survives_eq: "survives K (=)" and durable_eq: "durable K (=) db"
  by (simp_all add: survives_def durable_def)

text \<open>The new headers are one batch: killed behind it, they are synced but not yet the tip's.\<close>

theorem killed_sync_reopens_witness:
  "\<exists>s'. store_open sample_kv sample_codec sample_hash (snd (killed_after sample_kv sample_codec (3 # replicate 31 0)
        (number_headers sample_hash 1 [sample_headers ! 1, sample_headers ! 2]) 1 sample_genesis_db
        :: (js index_error, unit) res \<times> _)) = (Inr s' :: (unit, sample_db store) res) \<and>
    synced_blockhashes s' = {1 # replicate 31 0, 2 # replicate 31 0, 3 # replicate 31 0} \<and>
    hl_tip (sync_headers s') = 1 # replicate 31 0"
proof -
  let ?es = "number_headers sample_hash 1 [sample_headers ! 1, sample_headers ! 2]"
  have es: "?es = [\<lparr>he_height = 1, he_hash = 2 # replicate 31 0, he_header = sample_headers ! 1\<rparr>,
      \<lparr>he_height = 2, he_hash = 3 # replicate 31 0, he_header = sample_headers ! 2\<rparr>]"
    by (simp add: number_headers_def sample_headers_def sample_hash_def sample_header_def)
  have add: "?es = sync_headers_to_add sample_store ?es"
    unfolding es by (simp add: sync_headers_to_add_def sample_store_simps)
  have sub: "set [sample_headers ! 1, sample_headers ! 2] \<subseteq> sample_U" by (simp add: sample_headers_def)
  have new: "get_new_headers js_api sample_btc sample_send (sync_headers sample_store) (3 # replicate 31 0)
      (sample_client Bitcoin) = Some (Inr [sample_headers ! 1, sample_headers ! 2],
        sample_client Bitcoin\<lparr>dm_message_id := dm_message_id (sample_client Bitcoin) + 2, dm_node := ()\<rparr>)"
    using sample_new_headers[of "sample_client Bitcoin"] by (simp add: sample_store_simps sample_client_def)
  obtain r db where k: "killed_after sample_kv sample_codec (3 # replicate 31 0) ?es 1 (sync_db sample_store) =
      (r :: (js index_error, unit) res, db)" by force
  have bh: "block_hash_of sample_btc = sample_hash" by simp
  have c: "on_bitcoin (sample_client Bitcoin)" by (simp add: sample_client_def)
  have ord: "order_headers sample_hash (sync_headers sample_store) [sample_headers ! 1, sample_headers ! 2] =
      (Inr ?es :: (js index_error, header_entry list) res)"
    using sample_order by (simp add: sample_store_simps)
  from killed_sync_reopens[where B = sample_btc, unfolded bh, OF sample_kv_ok sample_codec_ok sample_hashes_ok
      sample_store_inv sample_honest c new sub ord add refl k survives_eq durable_eq refl]
  moreover have "he_hash ` set ?es = {2 # replicate 31 0, 3 # replicate 31 0}" unfolding es by simp
  ultimately show ?thesis using k by (auto simp: sample_store_simps sample_genesis_eq)
qed

text \<open>
  C38: what follows a kill between two batches: the headers written are marked as synced but not in the
  list, so that the next synchronisation downloads all of them and applies only the others. If the node returns the
  headers it is asked for, and the first of those above the list is marked as synced and the tip asked for is
  not, the synchronisation panics after it has stored the new tip; the start after that finds a valid
  store with this tip.
\<close>

theorem partly_synced_panics:
  assumes "kv_ok K" "codec_ok C U" "hashes_ok (block_hash_of B) U" "store_inv K C (block_hash_of B) U s"
    "honest J B send P" "P d" "get_new_headers J B send (sync_headers s) tip d = Some (Inr hs, d')"
    "set hs \<subseteq> U" "hs \<noteq> []" "prev_blockhash (hd hs) = hl_tip (sync_headers s)"
    "order_headers (block_hash_of B) (sync_headers s) hs = (Inr es :: ('v index_error, header_entry list) res)"
    "block_hash_of B (hd hs) \<in> synced_blockhashes s" "tip \<notin> synced_blockhashes s"
  shows "\<exists>site s'. sync_headers_step K C J B send tip (d, s) =
      Some (Inl (Panic site) :: ('v index_error, unit) res, d', s') \<and>
    (\<exists>s''. store_open K C (block_hash_of B) (sync_db s') = (Inr s'' :: (unit, 'db store) res) \<and>
      store_inv K C (block_hash_of B) U s'' \<and> hl_tip (sync_headers s'') = tip)"
  using partly_synced_step[OF assms] .

text \<open>The sample store after a kill that left block 2 persisted above the tip.\<close>

definition sample_killed :: "sample_db store" where
  "sample_killed = sample_store\<lparr>
     sync_db := (0x62 # 2 # replicate 31 0, [2, 1]) # (0x44 # 2 # replicate 31 0, []) # sample_genesis_db,
     synced_blockhashes := {1 # replicate 31 0, 2 # replicate 31 0}\<rparr>"

lemma sample_killed_simps:
  "sync_headers sample_killed = sample_genesis" "RELOAD sample_killed = False"
  "synced_blockhashes sample_killed = {1 # replicate 31 0, 2 # replicate 31 0}"
  by (simp_all add: sample_killed_def sample_store_simps)

lemma sample_killed_inv: "store_inv sample_kv sample_codec sample_hash sample_U sample_killed"
proof -
  let ?S = "{1 # replicate 31 0, 2 # replicate 31 0}" and ?db = "sync_db sample_killed"
  have "sealed sample_kv sample_codec ?db" by (simp add: sealed_def sample_codec_def)
  moreover have "db_inv sample_codec sample_hash sample_U (map_of ?db) ?S"
    unfolding db_inv_def sample_killed_def sample_genesis_db_def
    by (auto simp: sample_codec_def DB_VERSION_def sample_defs null_hash_Cons image_iff)
  moreover have li: "list_inv sample_hash sample_U ?S sample_genesis"
    using list_inv_mono[OF sample_list_inv] by blast
  moreover have "anchored sample_hash sample_U ?S (1 # replicate 31 0)"
    using list_inv_anchored[OF li] by (simp add: sample_genesis_eq)
  moreover have "anchored sample_hash sample_U ?S (2 # replicate 31 0)"
    unfolding anchored_def
    by (rule exI[of _ "[\<lparr>he_height = 0, he_hash = 1 # replicate 31 0, he_header = sample_headers ! 0\<rparr>,
        \<lparr>he_height = 1, he_hash = 2 # replicate 31 0, he_header = sample_headers ! 1\<rparr>]"])
      (auto simp: chain_of_def chain_ok_def prev_hash_at_def sample_defs less_Suc_eq)
  moreover have "map_of ?db [0x74] = Some (ser_hash sample_codec (hl_tip sample_genesis))"
    by (simp add: sample_killed_def sample_genesis_db_def sample_codec_def sample_genesis_eq)
  ultimately show ?thesis by (simp add: store_inv_def sample_killed_simps sample_db_map)
qed

theorem partly_synced_panics_witness:
  "\<exists>d' site s'. sync_headers_step sample_kv sample_codec js_api sample_btc sample_send (3 # replicate 31 0)
      (sample_client Bitcoin, sample_killed) = Some (Inl (Panic site) :: (js index_error, unit) res, d', s') \<and>
    (\<exists>s''. store_open sample_kv sample_codec sample_hash (sync_db s') = (Inr s'' :: (unit, sample_db store) res) \<and>
      hl_tip (sync_headers s'') = 3 # replicate 31 0)"
proof -
  let ?hs = "[sample_headers ! 1, sample_headers ! 2]"
  have bh: "block_hash_of sample_btc = sample_hash" by simp
  have c: "on_bitcoin (sample_client Bitcoin)" by (simp add: sample_client_def)
  have new: "get_new_headers js_api sample_btc sample_send (sync_headers sample_killed) (3 # replicate 31 0)
      (sample_client Bitcoin) = Some (Inr ?hs,
        sample_client Bitcoin\<lparr>dm_message_id := dm_message_id (sample_client Bitcoin) + 2, dm_node := ()\<rparr>)"
    using sample_new_headers[of "sample_client Bitcoin"] by (simp add: sample_killed_simps sample_client_def)
  have ord: "order_headers sample_hash (sync_headers sample_killed) ?hs =
      (Inr (number_headers sample_hash 1 ?hs) :: (js index_error, header_entry list) res)"
    using sample_order by (simp add: sample_killed_simps)
  have sub: "set ?hs \<subseteq> sample_U" "?hs \<noteq> []" by (simp_all add: sample_headers_def)
  have links: "prev_blockhash (hd ?hs) = hl_tip (sync_headers sample_killed)"
    "sample_hash (hd ?hs) \<in> synced_blockhashes sample_killed" "3 # replicate 31 0 \<notin> synced_blockhashes sample_killed"
    by (simp_all add: sample_killed_simps sample_genesis_eq sample_headers_def sample_header_def sample_hash_def)
  from partly_synced_panics[where B = sample_btc, unfolded bh, OF sample_kv_ok sample_codec_ok sample_hashes_ok
      sample_killed_inv sample_honest c new sub links(1) ord links(2,3)]
  show ?thesis by blast
qed

end
