(* ===== verification/Doge_Blocks.thy ===== *)
theory Doge_Blocks
  imports Auxpow
begin

text \<open>
  \<open>daemon.rs\<close>: the queries for whole blocks of Dogecoin, which the repository compiles for its tests only.
  \<open>dec_txs\<close> is the library's decoder of a list of transactions, \<open>to_hex\<close> its hexadecimal form of a hash.
  Shown: a block is read back from its layout, with or without an auxiliary proof of work.
\<close>

datatype 'v block_error =
    Rpc "'v rpc_error"
  | Invalid_Count 'v
  | Non_String_Block
  | Non_Hex_Block

definition getblockcount ::
    "'v json_api \<Rightarrow> ('w, 'v) transport \<Rightarrow> ('w daemon, 'v block_error, u64) act" where
  "getblockcount J send =
     bind_act (map_err_act Rpc (request J send ''getblockcount'' (jarr J []))) (\<lambda>value.
       ret_act (ok_or (Invalid_Count value) (jas_u64 J value)))"

definition doge_block_from_value ::
    "'v json_api \<Rightarrow> ('tx, 'pmt) bitcoin_api \<Rightarrow> (bytes \<Rightarrow> string + 'tx list \<times> bytes) \<Rightarrow> 'v
      \<Rightarrow> ('v block_error, 'tx block) res" where
  "doge_block_from_value J B dec_txs value =
     bind_res (ok_or Non_String_Block (jas_str J value)) (\<lambda>block_hex.
     bind_res (ok_or Non_Hex_Block (hex_decode B block_hex)) (\<lambda>block_bytes.
       map_err Rpc (fst (bind_act (cur (dec_header B)) (\<lambda>header.
            bind_act (if and (version header) VERSION_FLAG_AUXPOW \<noteq> 0 then skip_auxpow B
                      else ret_act (Inr ())) (\<lambda>_.
            bind_act (cur dec_txs) (\<lambda>txdata.
              ret_act (Inr \<lparr>bl_header = header, bl_txdata = txdata\<rparr>)))) block_bytes))))"

definition getblockbyheight ::
    "'v json_api \<Rightarrow> ('tx, 'pmt) bitcoin_api \<Rightarrow> (bytes \<Rightarrow> string + 'tx list \<times> bytes) \<Rightarrow> (block_hash \<Rightarrow> string)
      \<Rightarrow> ('w, 'v) transport \<Rightarrow> u64 \<Rightarrow> ('w daemon, 'v block_error, 'tx block) act" where
  "getblockbyheight J B dec_txs to_hex send block_height =
     bind_act (map_err_act Rpc (request J send ''getblockhash'' (jarr J [ju64 J block_height]))) (\<lambda>hash_value.
     bind_act (ret_act (map_err Rpc (parse_hash J B hash_value))) (\<lambda>block_hash.
     bind_act (map_err_act Rpc (request J send ''getblock''
         (jarr J [jstr J (to_hex block_hash), jbool J False]))) (\<lambda>block_value.
       ret_act (doge_block_from_value J B dec_txs block_value))))"

definition en_full_block ::
    "('tx, 'pmt) consensus_enc \<Rightarrow> ('tx list \<Rightarrow> bytes) \<Rightarrow> 'tx auxpow \<Rightarrow> 'tx block \<Rightarrow> bytes" where
  "en_full_block E en_txs a b = en_header E (bl_header b) @
     (if and (version (bl_header b)) VERSION_FLAG_AUXPOW \<noteq> 0 then en_auxpow E a else []) @ en_txs (bl_txdata b)"

lemma doge_block_decodes:
  assumes "consensus_ok B E U" "auxpow_ok U a" "bl_header b \<in> U"
    and "\<forall>txs r. dec_txs (en_txs txs @ r) = Inr (txs, r)"
    and "jas_str J value = Some hex" "hex_decode B hex = Some (en_full_block E en_txs a b @ rest)"
  shows "doge_block_from_value J B dec_txs value =
    (Inr \<lparr>bl_header = bl_header b, bl_txdata = bl_txdata b\<rparr> :: ('v block_error, 'tx block) res)"
proof -
  let ?h = "bl_header b"
  let ?aux = "if and (version ?h) VERSION_FLAG_AUXPOW \<noteq> 0 then en_auxpow E a else []"
  have "dec_header B (en_header E ?h @ ?aux @ en_txs (bl_txdata b) @ rest) =
      Inr (?h, ?aux @ en_txs (bl_txdata b) @ rest)"
    using assms(1,3) by (simp add: consensus_ok_def)
  with assms(4-6) show ?thesis
    by (simp add: skip_auxpow_all[OF assms(1,2)] doge_block_from_value_def en_full_block_def bind_act_def cur_def)
qed

text \<open>A count or a block is returned only for one accepted reply; what the node sends besides is an error.\<close>

lemma getblockcount_Inr:
  "getblockcount J send d = (Inr n, d') \<longleftrightarrow>
     (\<exists>value. request J send ''getblockcount'' (jarr J []) d = (Inr value, d') \<and> jas_u64 J value = Some n)"
  by (auto simp: getblockcount_def res_simps)

end
