(* ===== verification/Node_Start.thy ===== *)
theory Node_Start
  imports Client_Start Store_Admin Server_Properties
begin

text \<open>
  \<open>main.rs\<close> from the command line on: registration of the enclave, the sealing key, the clients, the store.
  The registration library is the argument \<open>key\<close>: the key that a registration leaves, if any. Shown: a start
  that succeeds is one of \<open>node_main\<close>, and holds exactly the clients named by the option.
\<close>

text \<open>The library call by which the enclave is registered, with its arguments.\<close>

datatype sgx_call =
    Register_Sgx_2 (subclient: string) nat nat (owner: string) (watcher: string) nat
  | Register_Sgx_Test bool

definition sgx_registration :: "node_config \<Rightarrow> sgx_call" where
  "sgx_registration config =
     (if cf_sgx_enable config then
        Register_Sgx_2 (cf_subclient_url config) 30 0 (cf_device_owner config) (cf_watcher_device_id config) 4
      else Register_Sgx_Test False)"

definition initialize_seal_key :: "bytes option \<Rightarrow> ('e, bytes) res" where
  "initialize_seal_key online_sk = unwrap_res ''initialize_seal_key'' online_sk"

definition from_args :: "node_config \<Rightarrow> node_config" where
  "from_args configcli =
     configcli\<lparr>cf_service := start_services (start_filter (cf_start_filter configcli))\<rparr>"

text \<open>\<open>main\<close> up to the server. The light clients are started before the sealing key is known.\<close>

definition main_state ::
    "('tx, 'pmt, 'w, 'p, 'e, 'o, 'h, 'g, 'ep, 'c, 'stx, 'acc, 'sg, 'v) node_libs \<Rightarrow> 'db kv_api \<Rightarrow> codec
      \<Rightarrow> 'db kv_admin \<Rightarrow> ('net, 'cl, 'p) nakamoto_start \<Rightarrow> ('enet, 'ck, 'e) helios_start
      \<Rightarrow> ('onet, 'o) opstack_start \<Rightarrow> (network \<Rightarrow> string \<Rightarrow> string \<Rightarrow> 'w) \<Rightarrow> (sgx_call \<Rightarrow> bytes option)
      \<Rightarrow> (string list \<Rightarrow> string list) \<Rightarrow> bool \<Rightarrow> node_config
      \<Rightarrow> (unit, ('w, 'db, 'p, 'e, 'o, 'ep sol_client, 'v) chains_state) res" where
  "main_state LB K C A NS ES OS connect_node key url_order single_rpc configcli =
     (let config = from_args configcli;
          online_sk = key (sgx_registration config);
          starters = (\<lambda>sealkey. node_starters NS ES OS connect_node () sealkey config)
      in bind_res (initialize_helios_client (starters []) config) (\<lambda>(eth_c, op_c).
         bind_res (initialize_seal_key online_sk) (\<lambda>sealkey.
         bind_res (initialize_p2p_clients (starters sealkey) config) (\<lambda>(btc_h, doge_h).
         bind_res (initialize_daemons (lb_json LB) (lb_bitcoin LB) (lb_send LB) (starters sealkey) config)
           (\<lambda>(btc_d, doge_d).
         bind_res (case initialize_sol_client (env_rpc (lb_sol_env LB)) url_order single_rpc (cf_service config)
                     (cf_sol_judge_rpc config) (cf_sol_extra_rpcs config) of
                     Inl _ \<Rightarrow> Inl (Panic ''main: initialize_sol_client'') | Inr c \<Rightarrow> Inr c) (\<lambda>sol_c.
         bind_res (store_open_at_path K C (block_hash_of (lb_bitcoin LB)) A (cf_store config)) (\<lambda>store.
           Inr (initialize_chains_state store btc_d doge_d btc_h doge_h eth_c op_c sol_c (cache_new 2000)))))))))"

lemma starters_db:
  "initialize_helios_client (node_starters NS ES OS cn db k cf) = initialize_helios_client (node_starters NS ES OS cn () k' cf)"
  "initialize_p2p_clients (node_starters NS ES OS cn db k cf) = initialize_p2p_clients (node_starters NS ES OS cn () k cf)"
  "initialize_daemons J B send (node_starters NS ES OS cn db k cf) =
     initialize_daemons J B send (node_starters NS ES OS cn () k cf)"
  by (simp_all add: initialize_helios_client_def initialize_p2p_clients_def initialize_daemons_def start_daemon_def
      node_starters_def fun_eq_iff)

lemma raw_starters: "raw_store (node_starters NS ES OS cn db k cf) = db"
  by (simp add: node_starters_def)

text \<open>A start that succeeds has a sealing key and a database, and is that of the model without them.\<close>

lemma main_state_node_main:
  assumes "main_state LB K C A NS ES OS cn key url_order single_rpc cli = Inr cs"
  shows "\<exists>sealkey db. key (sgx_registration (from_args cli)) = Some sealkey \<and>
    open_raw_db A (path_join (cf_store cli) ''sync'') = (Inr db :: (unit, 'db) res) \<and>
    node_main LB K C url_order single_rpc (node_starters NS ES OS cn db sealkey (from_args cli)) (from_args cli) = Inr cs"
proof -
  have st: "cf_store (from_args cli) = cf_store cli" by (simp add: from_args_def)
  obtain sealkey where k: "key (sgx_registration (from_args cli)) = Some sealkey"
    using assms by (auto simp: main_state_def Let_def initialize_seal_key_def res_simps split: prod.splits)
  let ?cf = "from_args cli"
  let ?X = "node_starters NS ES OS cn () sealkey ?cf"
  obtain eth_c op_c btc_h doge_h btc_d doge_d sol_c store where parts:
    "initialize_helios_client (node_starters NS ES OS cn () [] ?cf) ?cf = Inr (eth_c, op_c)"
    "initialize_p2p_clients ?X ?cf = Inr (btc_h, doge_h)"
    "initialize_daemons (lb_json LB) (lb_bitcoin LB) (lb_send LB) ?X ?cf = Inr (btc_d, doge_d)"
    "initialize_sol_client (env_rpc (lb_sol_env LB)) url_order single_rpc (cf_service ?cf)
       (cf_sol_judge_rpc ?cf) (cf_sol_extra_rpcs ?cf) = Inr sol_c"
    "store_open_at_path K C (block_hash_of (lb_bitcoin LB)) A (cf_store cli) = (Inr store :: (unit, 'db store) res)"
    "cs = initialize_chains_state store btc_d doge_d btc_h doge_h eth_c op_c sol_c (cache_new 2000)"
    using assms k by (auto simp: main_state_def Let_def initialize_seal_key_def res_simps st
        split: prod.splits sum.splits)
  obtain db where db: "open_raw_db A (path_join (cf_store cli) ''sync'') = (Inr db :: (unit, 'db) res)"
    "store_open K C (block_hash_of (lb_bitcoin LB)) db = (Inr store :: (unit, 'db store) res)"
    using parts(5) by (auto simp: store_open_at_path_eq res_simps)
  let ?Y = "node_starters NS ES OS cn db sealkey ?cf"
  have "initialize_helios_client ?Y ?cf = Inr (eth_c, op_c)" "initialize_p2p_clients ?Y ?cf = Inr (btc_h, doge_h)"
    "initialize_daemons (lb_json LB) (lb_bitcoin LB) (lb_send LB) ?Y ?cf = Inr (btc_d, doge_d)"
    unfolding starters_db(1)[of NS ES OS cn db sealkey ?cf "[]"] starters_db(2)[of NS ES OS cn db sealkey ?cf]
      starters_db(3)[of _ _ _ NS ES OS cn db sealkey ?cf] by (rule parts(1-3))+
  then have "node_main LB K C url_order single_rpc ?Y ?cf = Inr cs"
    using parts(4,6) db(2) by (simp add: node_main_def raw_starters)
  with k db(1) show ?thesis by blast
qed

text \<open>From the option to the clients: exactly the services named between the commas have their clients.\<close>

lemma main_state_clients:
  assumes "main_state LB K C A NS ES OS cn key url_order single_rpc cli = Inr cs"
  shows "clients cs = clients_of \<lparr>sv_btc = ''btc'' \<in> set (start_filter (cf_start_filter cli)),
    sv_eth = ''eth'' \<in> set (start_filter (cf_start_filter cli)), sv_op = ''op'' \<in> set (start_filter (cf_start_filter cli)),
    sv_doge = ''doge'' \<in> set (start_filter (cf_start_filter cli)),
    sv_sol = ''sol'' \<in> set (start_filter (cf_start_filter cli))\<rparr>"
proof -
  obtain db sealkey where "node_main LB K C url_order single_rpc
      (node_starters NS ES OS cn db sealkey (from_args cli)) (from_args cli) = Inr cs"
    using main_state_node_main[OF assms] by blast
  from started_clients[OF this] show ?thesis
    using start_filter_services[of "cf_start_filter cli"] by (simp add: from_args_def)
qed

end
