(* ===== verification/Spec2Isabelle.thy ===== *)
theory Spec2Isabelle
  imports Simple_Cache Header_Refinement Daemon_Properties Indexer_Properties Btc_Rpc_Properties Sol_Properties
    Sol_Lists Server_Properties Concurrent_Properties Client_Start Api_Check
    Auxpow Sol_Async_Properties Crash_Safety Doge_Blocks Node_Start
begin

text \<open>
  A model of deeps-spv, a node that runs in an enclave and answers questions about Bitcoin, Dogecoin, Ethereum,
  Optimism and Solana over HTTP, signing its answers. It trusts none of the servers it asks: Bitcoin
  and Dogecoin proofs come from a full node and are checked against headers of a P2P light client,
  Ethereum and Optimism answers come from light clients, Solana answers are a vote of several
  endpoints. All requests share one state: a header store, the clients and one response cache.

  \<^bold>\<open>Theories, bottom up.\<close>

  \<^item> \<open>Spv_Prelude\<close>: results with errors and panics, state-passing actions, chunks, hash functions, and the
    rewrite collection \<open>res_simps\<close>. \<open>Btree_Map\<close>: ordered maps as sorted association lists (\<open>btm\<close>).
  \<^item> \<open>Simple_Cache\<close> (\<open>utils.rs\<close>, \<open>SimpleCache\<close>): the bounded response cache, with the locale of a cache that its
    clients use (\<open>sc\<close>). Shown: the bound, lookup after insertion, and that updates evict.
  \<^item> \<open>Header_List\<close> (\<open>header.rs\<close>): the chain of headers as vector, map and tip; order, apply, rebuilding from
    a map, lookups, median time. \<open>Header_Refinement\<close>: it refines one list of headers.
  \<^item> \<open>Node_Config\<close> (\<open>types.rs\<close>, \<open>config.rs\<close>): networks, proof requests, the services to start.
  \<^item> \<open>Daemon\<close>, \<open>Daemon_Facts\<close>, \<open>Daemon_Properties\<close> (\<open>daemon.rs\<close>): the JSON-RPC client of a full node, the
    decoders and the download of headers. \<open>Http_Client\<close> (\<open>utils.rs\<close>): the POST that carries them. \<open>Auxpow\<close>,
    \<open>Doge_Blocks\<close>: Dogecoin's Merkle blocks and blocks are read back from their layout.
    \<open>Sample_Node\<close> is a concrete JSON library and node.
  \<^item> \<open>Store\<close>, \<open>Store_Facts\<close>, \<open>Store_Admin\<close> (\<open>store.rs\<close>): rows, sealing, scans, loading; opening and maintenance.
    \<open>Indexer\<close>, \<open>Indexer_Facts\<close>, \<open>Indexer_Properties\<close> (\<open>index.rs\<close>, \<open>start_indexer\<close> of \<open>main.rs\<close>): a
    synchronisation, what every outcome leaves in memory and in the database. \<open>Crash_Safety\<close>: what is
    left when it is cut off between two of its writes. \<open>Api_Check\<close>: \<open>api_check\<close> of \<open>index.rs\<close>.
  \<^item> \<open>Chain_State\<close> (\<open>chainstate.rs\<close>, \<open>btcrpc/proof.rs\<close>): the shared state and the check of a Merkle proof.
    \<open>Btc_Rpc\<close>, \<open>Btc_Rpc_Facts\<close>, \<open>Btc_Rpc_Properties\<close> (\<open>btcrpc/mod.rs\<close>): the endpoints of Bitcoin and Dogecoin,
    and the invariant of the cache (\<open>header_cache\<close>) that the proof check rests on.
  \<^item> \<open>Sol_Client\<close>, \<open>Sol_Dispatch\<close>, \<open>Sol_Query\<close> (\<open>chains/sol.rs\<close>): workers, one round of the dispatcher, the
    queries that compare judge and dispatcher. \<open>Sol_Facts\<close> and \<open>Sol_Query_Facts\<close> prove what a
    round collects, in a locale \<open>round_collection\<close> that both kinds of rounds interpret (\<open>hset\<close>, \<open>hmap\<close>).
    \<open>Sol_Properties\<close> and \<open>Sol_Lists\<close> say what is returned. \<open>Sample_Sol\<close>: sample endpoints.
  \<^item> \<open>Sol_Async\<close>, \<open>Sol_Async_Facts\<close>, \<open>Sol_Async_Progress\<close>, \<open>Sol_Tasks\<close>, \<open>Sol_Async_Properties\<close> (\<open>chains/sol.rs\<close>
    again): the running client, with its queue, dispatcher, workers and channels as a step relation, and
    its agreement with the rounds above. The locale \<open>deciding\<close> says when a protocol answers; the
    five kinds of tasks interpret it (\<open>sol\<close>).
  \<^item> \<open>Eth_Rpc\<close> (\<open>ethrpc/mod.rs\<close>), \<open>Sol_Rpc\<close> (\<open>solrpc/mod.rs\<close>), \<open>Server\<close> (\<open>server.rs\<close>), \<open>Node_Main\<close> (\<open>main.rs\<close>): the other
    endpoints, the router with its middleware, and the start of the node; \<open>served\<close> are the states of a
    server of one request at a time. \<open>Client_Start\<close> (the rest of \<open>chains/\<close>): how the clients are started and
    watched. \<open>Node_Start\<close>: \<open>main\<close> from the command line on.
  \<^item> \<open>Interleaving\<close>, \<open>Interleaving_Facts\<close>, \<open>Concurrent\<close>, \<open>Concurrent_Facts\<close>, \<open>Concurrent_Bounds\<close>,
    \<open>Concurrent_Properties\<close>: the handlers again, as programs that stop between their accesses of the shared
    state, and the server that interleaves them. The locale \<open>client_slot\<close> is a client held in the shared state
    (\<open>handle\<close>, \<open>eth_slot\<close>, \<open>op_slot\<close>, \<open>sol_slot\<close>, \<open>node_slot\<close>); \<open>shared_inv\<close>, extended by \<open>guarded\<close>, is an
    invariant that every handler keeps under interference (\<open>gc\<close> the clients, \<open>gs\<close> the store, \<open>gt\<close> the truth of
    the cache). \<open>System_Facts\<close> says what these invariants are and that they hold at the start.
    \<open>Server_Properties\<close> and this theory state more results; \<open>Sample_System\<close> is a sample node for the witnesses.

  \<^bold>\<open>Conventions.\<close> A function that returns \<open>Result\<close> or can panic returns \<open>('e, 'a) res\<close>: \<open>Inl (Err e)\<close> for an error,
  \<open>Inl (Panic site)\<close> for a panic (failed assertion, unwrap, index out of range, poisoned expectations); an error
  string is a constructor with the values printed into it. State is passed explicitly (\<open>act\<close>); a panic keeps
  the state changed so far. Counters, heights on the wire and times are words; the list index of a header is a natural
  number (\<open>usize\<close>; no chain comes near its bound). Order of hash maps and sets, where it can
  be seen, is an argument (\<open>env_order\<close>, \<open>url_order\<close>), and the theorems hold for every order that permutes.

  \<^bold>\<open>Libraries\<close> are records of functions: JSON (\<open>json_api\<close>), the Bitcoin library (\<open>bitcoin_api\<close>, \<open>merkle_api\<close>), the P2P
  client (\<open>nakamoto_api\<close>), RocksDB (\<open>kv_api\<close>, \<open>kv_admin\<close>), sealing and serialisation (\<open>codec\<close>), helios
  (\<open>helios_api\<close>), Solana RPC clients (\<open>sol_rpc_api\<close>), HTTP (\<open>http_api\<close>, and \<open>transport\<close> for one POST). What a theorem
  needs of them is a named predicate (\<open>p2p_ok\<close>, \<open>header_json_ok\<close>, \<open>nk_conv_ok\<close>, \<open>kv_ok\<close>, \<open>codec_ok\<close>, \<open>sol_json_ok\<close>, gathered
  in \<open>libs_ok\<close>; \<open>survives\<close> and \<open>admin_ok\<close> for the disk), and those of the properties have sample
  instances. \<open>sol_json_ok\<close> takes the JSON texts of answers, which the dispatcher compares and counts, to be read back
  exactly; the JSON library does not promise this for the floating-point amounts of a transaction. Servers are never assumed honest, except where a property says so (\<open>honest\<close>,
  \<open>serves\<close>). \<open>hash_ok\<close> and \<open>hashes_ok\<close> say that the hash does not collide on the headers at hand.

  \<^bold>\<open>Termination and time.\<close> \<open>get_new_headers\<close> and the watchdogs may run for ever and are partial functions whose value
  None says so; \<open>get_new_headers_returns\<close> and \<open>get_new_headers_diverges\<close> say when. A round of the Solana
  dispatcher runs on a schedule, the list of its one-second waits: None for a wait without a message, otherwise the
  seconds gone and the worker heard. The result None is a round that the schedule does not end. There is no fuel elsewhere.

  \<^bold>\<open>Concurrency.\<close> In \<open>concurrent\<close> any number of requests are under way and each step is one access of one handler:
  an operation of the response cache, which locks the map for its whole body, or one call of a client. The request
  for a proof to a full node, which takes a number from the client's counter and posts it, is one access: that others take
  numbers between the two is left out. A query of the Solana client is one access, too. Between two
  accesses the others may do anything, batches interleave the requests they join, and a task that is never
  scheduled again is a dropped connection. \<open>served\<close>, one request after the other, is the special case
  (\<open>served_interleaves\<close>, \<open>request_alone\<close>). In \<open>running\<close> the Solana client's dispatcher and workers make their steps in any
  order: the queue holds 1024 tasks, a worker that lags by more broadcasts skips some, a round's channel dies with
  it, and a dispatcher that panics answers no later task; a worker that is silent is one that is never scheduled.
  Its answers are those of \<open>dispatch\<close> (\<open>async_answers\<close>), so that the handlers' queries, which are one access
  each, use the rounds. There a task that panics does not stop the next one: the model goes on
  where the source has no dispatcher left.

  \<^bold>\<open>Crashes.\<close> A batch of writes is applied as a whole. \<open>killed_after\<close> is the database after some of the writes of a
  synchronisation, the batches of \<open>add_sync_block_header\<close> and the tip's row one after the other; with all of them done it is
  the database that \<open>index_headers\<close> leaves (\<open>killed_sync_reopens\<close>). \<open>survives\<close> is what the disk keeps of it: a
  write that is synced and logged. \<open>honest\<close> in both theorems of \<open>Crash_Safety\<close> is needed: the hashes of the
  headers a node returns are not checked, and one with another hash makes the store useless (\<open>false_header_bricks_store\<close>).

  \<^bold>\<open>Not modelled.\<close> Logging, what the registration of the enclave does (\<open>deeps_rsv\<close>), the inside of the HTTP client and
  server libraries, threads and runtimes, the parser of the command line, the formats of bincode, Debug output,
  the tests, the scripts under \<open>occlum\<close>. Binding the server's address, which panics if it is taken, is left out
  of \<open>start\<close>. Paths with percent escapes and HEAD requests are outside \<open>route_of\<close>; a body that the extractor
  refuses is one outcome (\<open>Unprocessable\<close>).
\<close>

subsection \<open>From a request to its reply\<close>

lemma verify_route:
  assumes "middle_ware LB GET path body app = (Some (Inr (Text text)), app')" "route_of path = Some (GET, r)"
    and "r = R_Verify_Tx param \<and> chain = BitCoin \<or> r = R_Verify_Tx_Doge param \<and> chain = DogeCoin"
  shows "\<exists>cs'. verify_transaction (lb_json LB) (lb_bitcoin LB) (lb_merkle LB) (lb_p2p LB) (lb_send LB)
    (\<lambda>v. sgx_sign LB (ser_verify LB v)) param chain (chain_state app) = (Inr text, cs')"
  using assms
  by (auto simp: middle_ware_def run_route_def Let_def text_act_def lift_act_def res_simps
      split: if_splits prod.splits)

lemma verify_transaction_positive:
  assumes "verify_transaction J B M N send sign param chain st = (Inr (sign (response_new False (Verified_Txid t))), st')"
    and "\<forall>v. sign v = sign (response_new False (Verified_Txid t)) \<longrightarrow> v = response_new False (Verified_Txid t)"
  shows "txid_from_str M param = Inr t \<and>
    (\<exists>out. fetch_proof_and_verify J B M N send (merkle_proof_param_new [t] None chain) st = (Inr out, st'))"
proof -
  have yes: "sign (response_new b x) = sign (response_new False (Verified_Txid t)) \<longleftrightarrow> \<not> b \<and> x = Verified_Txid t" for b x
    using assms(2) by (auto simp: response_new_def)
  from assms(1) show ?thesis
    by (auto simp: verify_transaction_def yes parse_txid_def split: sum.splits prod.splits fault.splits)
qed

text \<open>
  a positive reply of the node is justified: in every state the server can reach, with libraries
  that behave as documented, a signed \<open>no error\<close> reply to \<open>/verify_tx/<txid>\<close> or \<open>/verify_tx_doge/<txid>\<close>
  names the transaction id asked for, the full node delivered a Merkle block when asked for it,
  and the root of its tree is that of a header with the block's hash that the P2P network served.
\<close>

lemma verified_reply_sound:
  assumes "served LB K C X cf app" "libs_ok LB Q S"
    and "\<And>n p. start_btc X n = Inr p \<Longrightarrow> Q p" "\<And>n p. start_doge X n = Inr p \<Longrightarrow> Q p"
    and "\<forall>h. length (block_hash_of (lb_bitcoin LB) h) = 32"
    and "route_of path = Some (GET, r)"
      "r = R_Verify_Tx param \<and> chain = BitCoin \<or> r = R_Verify_Tx_Doge param \<and> chain = DogeCoin"
    and "reply = (\<lambda>v. sgx_sign LB (ser_verify LB v))" "yes = response_new False (Verified_Txid t)"
      "\<forall>v. reply v = reply yes \<longrightarrow> v = yes"
    and "middle_ware LB GET path body app = (Some (Inr (Text (reply yes))), app')"
  shows "txid_from_str (lb_merkle LB) param = Inr t \<and>
    (\<exists>d d' mb matches indexes. \<exists>h \<in> S. chain_daemon chain (chain_state app) = Some d \<and>
       gettxoutproof (lb_json LB) (lb_bitcoin LB) (lb_send LB) (merkle_proof_param_new [t] None chain) d = (Inr mb, d') \<and>
       block_hash_of (lb_bitcoin LB) h = block_hash_of (lb_bitcoin LB) (mb_header mb) \<and>
       extract_matches (lb_merkle LB) (mb_txn mb) = Inr (merkle_root h, matches, indexes))"
proof -
  let ?J = "lb_json LB" and ?B = "lb_bitcoin LB" and ?M = "lb_merkle LB" and ?N = "lb_p2p LB" and ?cs = "chain_state app"
  let ?param = "merkle_proof_param_new [t] None chain"
  obtain cs' where "verify_transaction ?J ?B ?M ?N (lb_send LB) reply param chain ?cs = (Inr (reply yes), cs')"
    using verify_route[OF assms(11,6,7)] assms(8) by blast
  with verify_transaction_positive[of ?J ?B ?M ?N "lb_send LB" reply param chain ?cs t cs'] assms(9,10)
  obtain out where t: "txid_from_str ?M param = Inr t"
    and out: "fetch_proof_and_verify ?J ?B ?M ?N (lb_send LB) ?param ?cs = (Inr out, cs')" by auto
  then obtain d d' mb where d: "chain_daemon chain ?cs = Some d"
    "gettxoutproof ?J ?B (lb_send LB) ?param d = (Inr mb, d')"
    "verify_txid ?B ?M ?N mb ?param (set_chain_daemon chain d' ?cs) = (Inr out, cs')"
    by (auto simp: fetch_proof_and_verify_def map_err_act_def map_err_Inr_iff merkle_proof_param_new_def
        split: option.splits prod.splits sum.splits fault.splits)
  have "state_true ?N Q S (set_chain_daemon chain d' ?cs)"
    using served_true[OF assms(1-4)] by (simp add: state_true_updates)
  then have "header_cache ?N S (response_cache (set_chain_daemon chain d' ?cs))"
    "\<forall>p. chain_handle (mp_chain ?param) (set_chain_daemon chain d' ?cs) = Some p \<longrightarrow> Q p"
    by (auto simp: state_true_def)
  from verified_block[OF libs_okD(1-3)[OF assms(2)] this _ d(3)] assms(5) t d show ?thesis by blast
qed

lemma verified_reply_sound_witness:
  "\<exists>h \<in> set sample_headers. \<exists>(mb :: block_hash list merkle_block) matches indexes. sample_hash h = sample_hash (mb_header mb) \<and>
     extract_matches sample_merkle (mb_txn mb) = Inr (merkle_root h, matches, indexes)"
proof -
  obtain st where st: "served sample_libs sample_kv sample_codec sample_starters sample_config (sample_app st)"
    using sample_served by blast
  let ?t = "1 # replicate 31 0 :: u8 list"
  let ?yes = "response_new False (Verified_Txid ?t) :: js verify_response"
  let ?reply = "\<lambda>v. sgx_sign sample_libs (ser_verify sample_libs v)"
  have inj: "\<forall>v. ?reply v = ?reply ?yes \<longrightarrow> v = ?yes"
    using sample_verify_text_inj by (auto simp: sample_libs_def)
  obtain app' where m: "middle_ware sample_libs GET ''/verify_tx/a'' None (sample_app st) =
      (Some (Inr (Text (?reply ?yes))), app')"
    using sample_middle_ware by blast
  have r: "route_of ''/verify_tx/a'' = Some (GET, R_Verify_Tx ''a'')" by (simp add: route_of_def)
  have len: "\<forall>h. length (block_hash_of (lb_bitcoin sample_libs) h) = 32"
    by (simp add: sample_libs_def sample_hash_def)
  show ?thesis
    using verified_reply_sound[OF st sample_libs_ok _ _ len r _ refl refl inj m]
    by (auto simp: sample_libs_def)
qed

end
